(* ===== verification/Prelude.thy ===== *)
theory Prelude
  imports Main "HOL-Library.Multiset" "HOL-Library.Sublist"
begin

text \<open>
  Shared vocabulary of the development: the collections of hints the component theories
  feed, and the parts of the Rust standard library the code uses on vectors, iterators and
  orderings (\<open>Vec::swap_remove\<close>, \<open>Iterator::max_by\<close>, \<open>Vec::retain\<close> with a \<open>HashSet\<close>,
  \<open>Vec::sort_by_key\<close>), each with the laws that the components rely on.
\<close>

section \<open>Collections of hints\<close>

named_theorems pool_intros \<open>a stage of a feed returns only candidates it was given\<close>
named_theorems str_simps \<open>equations of the string operations\<close>
named_theorems json_simps \<open>lookup and update laws of JSON values\<close>
named_theorems entity_defs \<open>definitions of the response builders\<close>

section \<open>Orderings and maximal elements\<close>

text \<open>\<open>std::cmp::Ordering\<close>.\<close>

datatype ordering = Less | Equal | Greater

text \<open>
  \<open>Iterator::max_by\<close>: a left fold that keeps the accumulator only when it compares
  \<open>Greater\<close>, so the last of several maximal elements wins.
\<close>

fun max_by_from :: "('a \<Rightarrow> 'a \<Rightarrow> ordering) \<Rightarrow> 'a \<Rightarrow> 'a list \<Rightarrow> 'a" where
  "max_by_from cmp acc [] = acc"
| "max_by_from cmp acc (x # xs) =
     max_by_from cmp (if cmp acc x = Greater then acc else x) xs"

fun max_by :: "('a \<Rightarrow> 'a \<Rightarrow> ordering) \<Rightarrow> 'a list \<Rightarrow> 'a option" where
  "max_by cmp [] = None"
| "max_by cmp (x # xs) = Some (max_by_from cmp x xs)"

lemma max_by_from_in: "max_by_from cmp acc xs \<in> insert acc (set xs)"
proof (induction xs arbitrary: acc)
  case (Cons x xs)
  then show ?case
    using Cons.IH [of acc] Cons.IH [of x] by auto
qed simp

lemma max_by_in: "max_by cmp xs = Some m \<Longrightarrow> m \<in> set xs"
  using max_by_from_in [of cmp "hd xs" "tl xs"] by (cases xs) auto

lemma max_by_None [simp]: "max_by cmp xs = None \<longleftrightarrow> xs = []"
  by (cases xs) auto

lemma max_by_Some_ex: "xs \<noteq> [] \<Longrightarrow> \<exists>m. max_by cmp xs = Some m \<and> m \<in> set xs"
  using max_by_in [of cmp xs] by (cases "max_by cmp xs") simp_all

text \<open>
  Where the comparison is that of a key in a linear order, the result has the largest key.
\<close>

definition cmp_of :: "'k::linorder \<Rightarrow> 'k \<Rightarrow> ordering" where
  "cmp_of a b = (if a < b then Less else if a = b then Equal else Greater)"

lemma max_by_from_greatest:
  fixes key :: "'a \<Rightarrow> 'k::linorder"
  assumes "\<And>x y. x \<in> insert acc (set xs) \<Longrightarrow> y \<in> insert acc (set xs) \<Longrightarrow> cmp x y = cmp_of (key x) (key y)"
  shows "\<forall>x \<in> insert acc (set xs). key x \<le> key (max_by_from cmp acc xs)"
  using assms
proof (induction xs arbitrary: acc)
  case Nil
  then show ?case by simp
next
  case (Cons x xs)
  let ?acc = "if cmp acc x = Greater then acc else x"
  have sub: "insert ?acc (set xs) \<subseteq> insert acc (set (x # xs))" by auto
  have IH: "\<forall>z \<in> insert ?acc (set xs). key z \<le> key (max_by_from cmp ?acc xs)"
  proof (rule Cons.IH)
    fix a b assume "a \<in> insert ?acc (set xs)" "b \<in> insert ?acc (set xs)"
    then have "a \<in> insert acc (set (x # xs))" "b \<in> insert acc (set (x # xs))"
      using sub by (simp_all only: subset_iff)
    then show "cmp a b = cmp_of (key a) (key b)" by (rule Cons.prems)
  qed
  have "cmp acc x = cmp_of (key acc) (key x)" using Cons.prems by simp
  then have "key acc \<le> key ?acc" and "key x \<le> key ?acc"
    by (auto simp: cmp_of_def split: if_splits)
  with IH show ?case by (auto intro: order_trans)
qed

lemma max_by_greatest:
  fixes key :: "'a \<Rightarrow> 'k::linorder"
  assumes "max_by cmp xs = Some m"
    and "\<And>x y. x \<in> set xs \<Longrightarrow> y \<in> set xs \<Longrightarrow> cmp x y = cmp_of (key x) (key y)"
    and "x \<in> set xs"
  shows "key x \<le> key m"
proof (cases xs)
  case Nil
  with assms show ?thesis by simp
next
  case (Cons y ys)
  have "\<forall>z \<in> insert y (set ys). key z \<le> key (max_by_from cmp y ys)"
    using assms(2) Cons by (intro max_by_from_greatest) simp
  with assms Cons show ?thesis by auto
qed

section \<open>Vectors\<close>

text \<open>
  \<open>Vec::swap_remove\<close>: the element at \<open>i\<close> is taken out and the last one moves into its
  place. The call panics when \<open>i\<close> is out of range, so callers check the range.
\<close>

definition swap_remove :: "'a list \<Rightarrow> nat \<Rightarrow> 'a list" where
  "swap_remove xs i = butlast (xs[i := last xs])"

lemma length_swap_remove [simp]: "length (swap_remove xs i) = length xs - 1"
  by (simp add: swap_remove_def)

lemma mset_swap_remove:
  assumes "i < length xs"
  shows "add_mset (xs ! i) (mset (swap_remove xs i)) = mset xs"
proof -
  have ne: "xs \<noteq> []" using assms by auto
  then have upd: "xs[i := last xs] \<noteq> []" by simp
  have "last (xs[i := last xs]) = last xs"
    using assms ne by (simp add: last_conv_nth nth_list_update)
  then have "mset (xs[i := last xs]) = add_mset (last xs) (mset (swap_remove xs i))"
    using upd arg_cong [OF append_butlast_last_id [OF upd], of mset]
    by (simp add: swap_remove_def)
  moreover have "mset (xs[i := last xs]) = add_mset (last xs) (mset xs - {#xs ! i#})"
    using assms by (simp add: mset_update)
  ultimately have "mset (swap_remove xs i) = mset xs - {#xs ! i#}" by simp
  then show ?thesis using assms by simp
qed

lemma set_swap_remove_subset: "i < length xs \<Longrightarrow> set (swap_remove xs i) \<subseteq> set xs"
  using arg_cong [OF mset_swap_remove, of i xs set_mset] by auto

text \<open>
  \<open>retain(|x| seen.insert(key(x)))\<close>: keeps an element when its key was not seen before.
\<close>

fun retain_first :: "('a \<Rightarrow> 'k) \<Rightarrow> 'k set \<Rightarrow> 'a list \<Rightarrow> 'a list" where
  "retain_first key seen [] = []"
| "retain_first key seen (x # xs) =
     (if key x \<in> seen then retain_first key seen xs
      else x # retain_first key (insert (key x) seen) xs)"

lemma subseq_retain_first: "subseq (retain_first key seen xs) xs"
  by (induction xs arbitrary: seen) auto

lemma mset_retain_first: "mset (retain_first key seen xs) \<subseteq># mset xs"
proof (induction xs arbitrary: seen)
  case (Cons x xs)
  then show ?case by (auto intro: subset_mset.order_trans [OF Cons.IH])
qed simp

lemma keys_retain_first: "key ` set (retain_first key seen xs) = key ` set xs - seen"
  by (induction xs arbitrary: seen) auto

lemma distinct_retain_first: "distinct (map key (retain_first key seen xs))"
proof (induction xs arbitrary: seen)
  case (Cons x xs)
  have "key x \<notin> key ` set (retain_first key (insert (key x) seen) xs)"
    by (simp add: keys_retain_first)
  with Cons show ?case by auto
qed simp

text \<open>The kept element of a key is the first one with that key.\<close>

lemma retain_first_is_first:
  assumes "x \<in> set (retain_first key seen xs)"
  shows "\<exists>ys zs. xs = ys @ x # zs \<and> key x \<notin> key ` set ys"
  using assms
proof (induction xs arbitrary: seen)
  case (Cons y xs)
  show ?case
  proof (cases "x = y \<and> key y \<notin> seen")
    case True
    then have "y # xs = [] @ x # xs \<and> key x \<notin> key ` set []" by simp
    then show ?thesis by blast
  next
    case False
    then obtain seen' where *: "x \<in> set (retain_first key seen' xs)"
        "key y \<in> seen'"
      using Cons.prems by (cases "key y \<in> seen") auto
    then obtain ys zs where xs: "xs = ys @ x # zs" "key x \<notin> key ` set ys"
      using Cons.IH by blast
    have "key x \<noteq> key y"
    proof -
      have "key x \<in> key ` set (retain_first key seen' xs)" using * by blast
      with * show ?thesis by (auto simp: keys_retain_first)
    qed
    with xs have "y # xs = (y # ys) @ x # zs \<and> key x \<notin> key ` set (y # ys)" by simp
    then show ?thesis by blast
  qed
qed simp

lemma sorted_first_least:
  fixes f :: "'a \<Rightarrow> 'k::linorder"
  assumes "sorted (map f (ys @ x # zs))" "y \<in> set (x # zs)"
  shows "f x \<le> f y"
  using assms by (auto simp: sorted_append)

text \<open>\<open>Iterator::enumerate\<close> is the library's \<^const>\<open>enumerate\<close>.\<close>

lemma enumerate_Nil_iff [simp]: "enumerate n xs = [] \<longleftrightarrow> xs = []"
  by (metis length_0_conv length_enumerate)

lemma enumerate_memI: "i < length xs \<Longrightarrow> (i, xs ! i) \<in> set (enumerate 0 xs)"
  by (simp add: in_set_enumerate_eq)

lemma enumerate_memD: "(i, x) \<in> set (enumerate 0 xs) \<Longrightarrow> i < length xs \<and> xs ! i = x"
  by (auto simp: in_set_enumerate_eq)

section \<open>Options\<close>

text \<open>\<open>Option::unwrap_or\<close> and \<open>Option::filter\<close>.\<close>

fun unwrap_or :: "'a option \<Rightarrow> 'a \<Rightarrow> 'a" where
  "unwrap_or None d = d"
| "unwrap_or (Some x) d = x"

fun option_filter :: "('a \<Rightarrow> bool) \<Rightarrow> 'a option \<Rightarrow> 'a option" where
  "option_filter P None = None"
| "option_filter P (Some x) = (if P x then Some x else None)"

lemma unwrap_or_split:
  "P (unwrap_or x d) \<longleftrightarrow> (x = None \<longrightarrow> P d) \<and> (\<forall>y. x = Some y \<longrightarrow> P y)"
  by (cases x) auto

text \<open>\<open>Iterator::filter_map\<close> is the library's \<^const>\<open>List.map_filter\<close>.\<close>

lemma length_map_filter_le: "length (List.map_filter f xs) \<le> length xs"
  by (induction xs) (auto simp: List.map_filter_simps split: option.splits)

lemma in_take_map: "y \<in> set (take n (map f xs)) \<Longrightarrow> \<exists>x \<in> set xs. y = f x"
  using in_set_takeD [of y n "map f xs"] by auto

lemma length_filter_take: "length (filter P (take n xs)) \<le> length (filter P xs)"
proof -
  have "filter P xs = filter P (take n xs) @ filter P (drop n xs)"
    by (metis append_take_drop_id filter_append)
  then show ?thesis by simp
qed

lemma length_filter_sort_key [simp]: "length (filter P (sort_key f xs)) = length (filter P xs)"
  by (metis mset_filter mset_sort size_mset)

lemma length_filter_concat_le:
  "(\<And>x. length (filter P (f x)) \<le> 1) \<Longrightarrow> length (filter P (concat (map f xs))) \<le> length xs"
proof (induction xs)
  case (Cons x xs)
  have "length (filter P (f x)) \<le> 1" by (rule Cons.prems)
  moreover have "length (filter P (concat (map f xs))) \<le> length xs" by (rule Cons.IH) (rule Cons.prems)
  ultimately show ?case by simp
qed simp

lemma length_concat_map_le:
  "(\<And>x. length (f x) \<le> m) \<Longrightarrow> length (concat (map f xs)) \<le> length xs * m"
proof (induction xs)
  case (Cons x xs)
  then show ?case using Cons.prems [of x] by (simp add: add_mono)
qed simp

section \<open>Hash maps\<close>

text \<open>\<open>collect\<close> into a \<open>HashMap\<close>: the last value of a key stays.\<close>

definition hashmap_of :: "('k \<times> 'v) list \<Rightarrow> 'k \<rightharpoonup> 'v" where
  "hashmap_of kvs = foldl (\<lambda>m (k, v). m(k \<mapsto> v)) Map.empty kvs"

lemma hashmap_of_Some: "hashmap_of kvs k = Some v \<Longrightarrow> (k, v) \<in> set kvs"
proof -
  have "foldl (\<lambda>m (k, v). m(k \<mapsto> v)) m kvs k = Some v \<Longrightarrow> m k = Some v \<or> (k, v) \<in> set kvs" for m
  proof (induction kvs arbitrary: m)
    case (Cons kv kvs)
    obtain k' v' where kv: "kv = (k', v')" by (cases kv)
    have "(m(k' \<mapsto> v')) k = Some v \<or> (k, v) \<in> set kvs" by (rule Cons.IH) (use Cons.prems kv in simp)
    then show ?case by (auto simp: kv split: if_splits)
  qed simp
  then show "hashmap_of kvs k = Some v \<Longrightarrow> (k, v) \<in> set kvs" by (fastforce simp: hashmap_of_def)
qed


lemma hashmap_of_snoc: "hashmap_of (kvs @ [(k, v)]) = (hashmap_of kvs)(k \<mapsto> v)"
  by (simp add: hashmap_of_def)

lemma dom_hashmap_of: "dom (hashmap_of kvs) = fst ` set kvs"
proof (induction kvs rule: rev_induct)
  case (snoc kv kvs)
  obtain k v where kv: "kv = (k, v)" by (cases kv)
  show ?case unfolding kv hashmap_of_snoc dom_fun_upd by (simp add: snoc)
qed (simp add: hashmap_of_def)

lemma hashmap_of_map_inj:
  "inj_on f (set xs) \<Longrightarrow> x \<in> set xs \<Longrightarrow> hashmap_of (map (\<lambda>x. (f x, g x)) xs) (f x) = Some (g x)"
proof (induction xs rule: rev_induct)
  case (snoc y xs)
  then show ?case by (auto simp: hashmap_of_snoc inj_on_def)
qed simp

text \<open>\<open>map.entry(key).or_default().push(row)\<close> for every row: the rows of each key, in order.\<close>

definition group_rows :: "('a \<Rightarrow> 'k) \<Rightarrow> 'a list \<Rightarrow> 'k \<rightharpoonup> 'a list" where
  "group_rows key rows = foldl (\<lambda>m r. m(key r \<mapsto> unwrap_or (m (key r)) [] @ [r])) Map.empty rows"

lemma filter_no_key: "k \<notin> key ` set rows \<Longrightarrow> filter (\<lambda>r. key r = k) rows = []"
  by (induction rows) auto

lemma group_rows_eq:
  "group_rows key rows k = (if k \<in> key ` set rows then Some (filter (\<lambda>r. key r = k) rows) else None)"
proof (induction rows rule: rev_induct)
  case (snoc r rows)
  have "group_rows key (rows @ [r]) = (group_rows key rows)(key r \<mapsto> unwrap_or (group_rows key rows (key r)) [] @ [r])"
    by (simp add: group_rows_def)
  then show ?case using snoc filter_no_key [of "key r" key rows] by auto
qed (simp add: group_rows_def)

lemma unwrap_group_rows [simp]: "unwrap_or (group_rows key rows k) [] = filter (\<lambda>r. key r = k) rows"
  using filter_no_key [of k key rows] by (auto simp: group_rows_eq)

section \<open>Order of first occurrence\<close>

fun firsts :: "'a list \<Rightarrow> 'a list" where
  "firsts [] = []"
| "firsts (x # xs) = x # filter (\<lambda>y. y \<noteq> x) (firsts xs)"

lemma set_firsts [simp]: "set (firsts xs) = set xs"
  by (induction xs) auto

lemma distinct_firsts [simp]: "distinct (firsts xs)"
  by (induction xs) auto

lemma firsts_distinct [simp]: "distinct xs \<Longrightarrow> firsts xs = xs"
proof (induction xs)
  case (Cons x xs)
  then show ?case by (auto intro!: filter_True)
qed simp

text \<open>A join with at most one partner for every row keeps the key of the rows distinct.\<close>

lemma distinct_join:
  assumes "distinct (map f xs)" "\<And>x. x \<in> set xs \<Longrightarrow> length (g x) \<le> 1"
    "\<And>x y. x \<in> set xs \<Longrightarrow> y \<in> set (g x) \<Longrightarrow> h y = f x"
  shows "distinct (map h (concat (map g xs)))"
  using assms
proof (induction xs)
  case (Cons x xs)
  have "distinct (map h (g x))" using Cons.prems(2) [of x] by (cases "g x" rule: remdups_adj.cases) auto
  moreover have "distinct (map h (concat (map g xs)))" using Cons by auto
  moreover have "h ` set (g x) \<inter> h ` (\<Union>y \<in> set xs. set (g y)) = {}"
    using Cons.prems(1,3) by fastforce
  ultimately show ?case by auto
qed simp

lemma length_concat_guard:
  assumes "distinct (map k ys)" "\<And>y. y \<in> set ys \<Longrightarrow> q y \<noteq> [] \<Longrightarrow> k y = v" "\<And>y. length (q y) \<le> 1"
  shows "length (concat (map q ys)) \<le> 1"
  using assms(1,2)
proof (induction ys)
  case (Cons y ys)
  show ?case
  proof (cases "q y = []")
    case False
    then have "k y = v" using Cons.prems(2) by simp
    then have "q z = []" if "z \<in> set ys" for z
      using that Cons.prems by (metis distinct.simps(2) image_eqI list.set_map list.simps(9) list.set_intros(2))
    then have "concat (map q ys) = []" by simp
    then show ?thesis using assms(3) [of y] by (simp only: list.map concat.simps append_Nil2)
  qed (use Cons in simp)
qed simp

end
