(* ===== verification/Rust_Float.thy ===== *)
theory Rust_Float
  imports Prelude Complex_Main "HOL-Library.Log_Nat"
begin

text \<open>
  IEEE 754 binary floating point, as Rust's \<open>f64\<close> and \<open>f32\<close>: a value is NaN, an infinity
  or an exact rational, and each operation computes the exact result and rounds it once, to
  the nearest representable value, ties to even. The functions are executable.
  The sign of a zero is not kept: the code compares floats and divides by values that are
  never zero, and neither reads that sign.
\<close>

section \<open>Rounding a rational to an integer\<close>

definition round_half_even :: "rat \<Rightarrow> int" where
  "round_half_even x =
     (let f = \<lfloor>x\<rfloor>; d = x - of_int f in
      if d < 1/2 then f else if 1/2 < d then f + 1 else if even f then f else f + 1)"

lemma round_half_even_of_int [simp]: "round_half_even (of_int k) = k"
  by (simp add: round_half_even_def)

lemma round_half_even_bounds:
  "\<lfloor>x\<rfloor> \<le> round_half_even x" "round_half_even x \<le> \<lfloor>x\<rfloor> + 1"
  by (auto simp: round_half_even_def Let_def)

lemma round_half_even_mono:
  assumes "x \<le> y" shows "round_half_even x \<le> round_half_even y"
proof (cases "\<lfloor>x\<rfloor> = \<lfloor>y\<rfloor>")
  case True
  then show ?thesis using assms by (auto simp: round_half_even_def Let_def)
next
  case False
  then have "\<lfloor>x\<rfloor> + 1 \<le> \<lfloor>y\<rfloor>" using floor_mono [OF assms] by linarith
  then show ?thesis
    using round_half_even_bounds(2) [of x] round_half_even_bounds(1) [of y] by linarith
qed

lemma round_half_even_near: "\<bar>of_int (round_half_even x) - x\<bar> \<le> 1/2"
proof -
  have "of_int \<lfloor>x\<rfloor> \<le> x" "x < of_int \<lfloor>x\<rfloor> + 1" by linarith+
  then show ?thesis by (auto simp: round_half_even_def Let_def)
qed

lemma round_half_even_le: "x \<le> of_int k \<Longrightarrow> round_half_even x \<le> k"
  using round_half_even_mono [of x "of_int k"] by simp

lemma round_half_even_ge: "of_int k \<le> x \<Longrightarrow> k \<le> round_half_even x"
  using round_half_even_mono [of "of_int k" x] by simp

section \<open>The binary exponent of a positive rational\<close>

definition ilog2 :: "rat \<Rightarrow> int" where
  "ilog2 x =
     (let (p, q) = quotient_of x; k = bitlen p - bitlen q in
      if 2 powi k \<le> x then k else k - 1)"

lemma powi_nat_diff: "(2::rat) powi (int a - int b) = 2 ^ a / 2 ^ b"
  by (simp add: power_int_diff)

lemma ilog2_bounds:
  assumes "0 < x"
  shows "2 powi (ilog2 x) \<le> x" and "x < 2 powi (ilog2 x + 1)"
proof -
  obtain p q where pq: "quotient_of x = (p, q)" by (cases "quotient_of x")
  have q: "q > 0" using pq by (rule quotient_of_denom_pos)
  have x: "x = of_int p / of_int q" using pq by (rule quotient_of_div)
  have p: "p > 0" using assms q x by (simp add: zero_less_divide_iff)
  define a where "a = floorlog 2 (nat p)"
  define b where "b = floorlog 2 (nat q)"
  have pb: "2 ^ (a - 1) \<le> nat p \<and> nat p < 2 ^ a" and qb: "2 ^ (b - 1) \<le> nat q \<and> nat q < 2 ^ b"
    using floorlog_bounds [of "nat p" 2] floorlog_bounds [of "nat q" 2] p q
    by (simp_all add: a_def b_def)
  have a1: "a \<ge> 1" and b1: "b \<ge> 1"
    using p q by (auto simp: a_def b_def floorlog_def)
  have "int (2 ^ (a - 1)) \<le> int (nat p)" "int (nat p) < int (2 ^ a)"
    using pb by (simp_all only: of_nat_le_iff of_nat_less_iff)
  then have ip: "2 ^ (a - 1) \<le> p" "p < 2 ^ a" using p by simp_all
  have rp: "(2::rat) ^ (a - 1) \<le> of_int p" "of_int p < (2::rat) ^ a"
    using of_int_le_iff [where ?'a = rat, of "2 ^ (a - 1)" p] of_int_less_iff [where ?'a = rat, of p "2 ^ a"] ip
    by simp_all
  have "int (2 ^ (b - 1)) \<le> int (nat q)" "int (nat q) < int (2 ^ b)"
    using qb by (simp_all only: of_nat_le_iff of_nat_less_iff)
  then have iq: "2 ^ (b - 1) \<le> q" "q < 2 ^ b" using q by simp_all
  have rq: "(2::rat) ^ (b - 1) \<le> of_int q" "of_int q < (2::rat) ^ b"
    using of_int_le_iff [where ?'a = rat, of "2 ^ (b - 1)" q] of_int_less_iff [where ?'a = rat, of q "2 ^ b"] iq
    by simp_all
  have pow_a: "(2::rat) ^ a = 2 * 2 ^ (a - 1)" and pow_b: "(2::rat) ^ b = 2 * 2 ^ (b - 1)"
    using a1 b1 by (cases a; cases b; simp)+
  have lo: "2 ^ (a - 1) / 2 ^ b < x"
    unfolding x using rp rq q p by (intro frac_less2) auto
  have hi: "x < 2 ^ a / 2 ^ (b - 1)"
    unfolding x using rp rq q p by (intro frac_less) auto
  define k where "k = int a - int b"
  have "k - 1 = int a - int (Suc b)" "k + 1 = int (Suc a) - int b" by (simp_all add: k_def)
  then have kk: "(2::rat) powi (k - 1) = 2 ^ a / 2 ^ Suc b" "(2::rat) powi (k + 1) = 2 ^ Suc a / 2 ^ b"
    by (simp_all only: powi_nat_diff)
  have low: "2 powi (k - 1) < x" using lo pow_a by (simp add: kk)
  have high: "x < 2 powi (k + 1)" using hi pow_b by (simp add: kk)
  have e: "ilog2 x = (if 2 powi k \<le> x then k else k - 1)"
    by (simp add: ilog2_def pq k_def a_def b_def bitlen_def)
  show "2 powi (ilog2 x) \<le> x" "x < 2 powi (ilog2 x + 1)"
    using low high e by auto
qed

lemma ilog2_mono: "0 < x \<Longrightarrow> x \<le> y \<Longrightarrow> ilog2 x \<le> ilog2 y"
proof (rule ccontr)
  assume *: "0 < x" "x \<le> y" "\<not> ilog2 x \<le> ilog2 y"
  then have "(2::rat) powi (ilog2 y + 1) \<le> 2 powi (ilog2 x)"
    by (intro power_int_increasing) auto
  with * ilog2_bounds [of x] ilog2_bounds [of y] show False by linarith
qed

section \<open>Formats and rounding to a format\<close>

text \<open>
  A format is its precision in bits and its range of exponents; \<open>binary64\<close> is \<open>f64\<close>,
  \<open>binary32\<close> is \<open>f32\<close>. Below the least exponent the spacing stays constant (subnormals).
\<close>

record fmt =
  f_prec :: nat
  f_emin :: int
  f_emax :: int

definition binary64 :: fmt where
  "binary64 = \<lparr>f_prec = 53, f_emin = -1022, f_emax = 1023\<rparr>"

definition binary32 :: fmt where
  "binary32 = \<lparr>f_prec = 24, f_emin = -126, f_emax = 127\<rparr>"

datatype fl = NaN | Infty bool | Fin rat   \<comment> \<open>\<open>Infty True\<close> is negative infinity\<close>

definition bexp :: "fmt \<Rightarrow> rat \<Rightarrow> int" where
  "bexp F x = max (ilog2 \<bar>x\<bar>) (f_emin F)"

definition ulp :: "fmt \<Rightarrow> rat \<Rightarrow> rat" where
  "ulp F x = 2 powi (bexp F x + 1 - int (f_prec F))"

definition rnd_val :: "fmt \<Rightarrow> rat \<Rightarrow> rat" where
  "rnd_val F x = (if x = 0 then 0 else sgn x * (of_int (round_half_even (\<bar>x\<bar> / ulp F x)) * ulp F x))"

definition rnd :: "fmt \<Rightarrow> rat \<Rightarrow> fl" where
  "rnd F x = (let y = rnd_val F x in if y \<noteq> 0 \<and> f_emax F < ilog2 \<bar>y\<bar> then Infty (x < 0) else Fin y)"

lemma ulp_pos [simp]: "0 < ulp F x"
  by (simp add: ulp_def)

lemma rnd_val_0 [simp]: "rnd_val F 0 = 0"
  by (simp add: rnd_val_def)

lemma rnd_0 [simp]: "rnd F 0 = Fin 0"
  by (simp add: rnd_def)

lemma rnd_val_minus: "rnd_val F (- x) = - rnd_val F x"
  by (simp add: rnd_val_def ulp_def bexp_def)

lemma rnd_val_pos: "0 < x \<Longrightarrow> rnd_val F x = of_int (round_half_even (x / ulp F x)) * ulp F x"
  by (simp add: rnd_val_def)

lemma rnd_val_nonneg:
  assumes "0 \<le> x" shows "0 \<le> rnd_val F x"
proof (cases "x = 0")
  case False
  then have "0 \<le> round_half_even (x / ulp F x)"
    using assms by (intro round_half_even_ge) (simp add: less_imp_le)
  then show ?thesis using assms False by (simp add: rnd_val_def less_imp_le)
qed simp

lemma rnd_val_sign: "x \<le> 0 \<Longrightarrow> rnd_val F x \<le> 0"
  using rnd_val_nonneg [of "- x" F] by (simp add: rnd_val_minus)

text \<open>A value lies strictly below the next power of two, so its quotient by the spacing is bounded.\<close>

lemma bexp_upper:
  assumes "0 < x" shows "x / ulp F x < of_int (2 ^ f_prec F)"
proof -
  have "x < 2 powi (ilog2 x + 1)" using assms by (rule ilog2_bounds)
  also have "(2::rat) powi (ilog2 x + 1) \<le> 2 powi (bexp F x + 1)"
    using assms by (intro power_int_increasing) (simp_all add: bexp_def)
  also have "\<dots> = 2 ^ f_prec F * ulp F x"
    by (simp add: ulp_def power_int_add [symmetric] flip: power_int_of_nat)
  finally show ?thesis by (simp add: divide_less_eq mult.commute)
qed

lemma rnd_val_upper:
  assumes "0 < x" shows "rnd_val F x \<le> 2 powi (bexp F x + 1)"
proof -
  have "round_half_even (x / ulp F x) \<le> 2 ^ f_prec F"
    using bexp_upper [OF assms, of F] by (intro round_half_even_le) simp
  then have "(of_int (round_half_even (x / ulp F x)) :: rat) \<le> of_int (2 ^ f_prec F)"
    by (simp only: of_int_le_iff)
  then have "rnd_val F x \<le> of_int (2 ^ f_prec F) * ulp F x"
    using assms by (simp add: rnd_val_pos)
  also have "\<dots> = 2 powi (bexp F x + 1)"
    by (simp add: ulp_def power_int_add [symmetric] flip: power_int_of_nat)
  finally show ?thesis .
qed

lemma rnd_val_lower:
  assumes "0 < x" "f_emin F \<le> ilog2 x" "1 \<le> f_prec F" shows "2 powi (bexp F x) \<le> rnd_val F x"
proof -
  have u: "2 powi (bexp F x) = 2 ^ (f_prec F - 1) * ulp F x"
    using assms(3) by (simp add: ulp_def power_int_add [symmetric] of_nat_diff flip: power_int_of_nat)
  have "2 powi (bexp F x) \<le> x"
    using assms ilog2_bounds(1) [of x] by (simp add: bexp_def)
  then have "of_int (2 ^ (f_prec F - 1)) \<le> x / ulp F x"
    by (simp add: u le_divide_eq)
  then have "2 ^ (f_prec F - 1) \<le> round_half_even (x / ulp F x)"
    by (rule round_half_even_ge)
  then have "(of_int (2 ^ (f_prec F - 1)) :: rat) \<le> of_int (round_half_even (x / ulp F x))"
    by (simp only: of_int_le_iff)
  then show ?thesis using assms(1) by (simp add: rnd_val_pos u)
qed

lemma rnd_val_mono_pos:
  assumes "0 < x" "x \<le> y" "1 \<le> f_prec F" shows "rnd_val F x \<le> rnd_val F y"
proof (cases "bexp F x = bexp F y")
  case True
  then have u: "ulp F x = ulp F y" by (simp add: ulp_def)
  have "round_half_even (x / ulp F y) \<le> round_half_even (y / ulp F y)"
    using assms by (intro round_half_even_mono divide_right_mono) (auto simp: less_imp_le)
  then show ?thesis using assms by (simp add: rnd_val_pos u)
next
  case False
  have le: "ilog2 x \<le> ilog2 y" using assms by (intro ilog2_mono)
  with False have *: "bexp F x + 1 \<le> bexp F y" and "f_emin F \<le> ilog2 y"
    using assms by (auto simp: bexp_def max_def split: if_splits)
  have "rnd_val F x \<le> 2 powi (bexp F x + 1)" using assms by (intro rnd_val_upper)
  also have "\<dots> \<le> 2 powi (bexp F y)" using * by (intro power_int_increasing) auto
  also have "\<dots> \<le> rnd_val F y"
    using assms \<open>f_emin F \<le> ilog2 y\<close> by (intro rnd_val_lower) auto
  finally show ?thesis .
qed

lemma rnd_val_mono:
  assumes "x \<le> y" "1 \<le> f_prec F" shows "rnd_val F x \<le> rnd_val F y"
proof -
  consider "0 < x" | "y < 0" | "x \<le> 0" "0 \<le> y" using assms by linarith
  then show ?thesis
  proof cases
    case 1
    then show ?thesis using assms by (intro rnd_val_mono_pos)
  next
    case 2
    then have "rnd_val F (- y) \<le> rnd_val F (- x)"
      using assms by (intro rnd_val_mono_pos) auto
    then show ?thesis by (simp add: rnd_val_minus)
  next
    case 3
    then show ?thesis
      using rnd_val_sign [of x F] rnd_val_nonneg [of y F] by linarith
  qed
qed

text \<open>The rounding error is at most half the spacing.\<close>

lemma rnd_val_near: "\<bar>rnd_val F x - x\<bar> \<le> ulp F x / 2"
proof -
  have pos: "\<bar>rnd_val F y - y\<bar> \<le> ulp F y / 2" if "0 < y" for y
  proof -
    let ?u = "ulp F y" and ?n = "of_int (round_half_even (y / ulp F y)) :: rat"
    have "(?n - y / ?u) * ?u = ?n * ?u - y"
      using ulp_pos [of F y] by (simp add: left_diff_distrib less_imp_neq [symmetric])
    then have "\<bar>?n * ?u - y\<bar> = \<bar>?n - y / ?u\<bar> * ?u"
      by (metis abs_mult abs_of_pos ulp_pos)
    also have "\<dots> \<le> 1/2 * ?u"
      by (intro mult_right_mono round_half_even_near) (simp add: less_imp_le)
    finally show ?thesis using that by (simp add: rnd_val_pos)
  qed
  consider "0 < x" | "0 < - x" | "x = 0" by linarith
  then show ?thesis
  proof cases
    case 1
    then show ?thesis by (rule pos)
  next
    case 2
    then show ?thesis
      using pos [of "- x"] abs_minus_commute [of "rnd_val F x" x]
      by (simp add: rnd_val_minus ulp_def bexp_def)
  qed (simp add: less_imp_le)
qed

section \<open>Arithmetic\<close>

fun fl_neg :: "fl \<Rightarrow> fl" where
  "fl_neg NaN = NaN"
| "fl_neg (Infty s) = Infty (\<not> s)"
| "fl_neg (Fin x) = Fin (- x)"

fun fl_add :: "fmt \<Rightarrow> fl \<Rightarrow> fl \<Rightarrow> fl" where
  "fl_add F (Fin x) (Fin y) = rnd F (x + y)"
| "fl_add F NaN y = NaN"
| "fl_add F x NaN = NaN"
| "fl_add F (Infty s) (Infty t) = (if s = t then Infty s else NaN)"
| "fl_add F (Infty s) (Fin y) = Infty s"
| "fl_add F (Fin x) (Infty t) = Infty t"

definition fl_sub :: "fmt \<Rightarrow> fl \<Rightarrow> fl \<Rightarrow> fl" where
  "fl_sub F x y = fl_add F x (fl_neg y)"

fun fl_mul :: "fmt \<Rightarrow> fl \<Rightarrow> fl \<Rightarrow> fl" where
  "fl_mul F (Fin x) (Fin y) = rnd F (x * y)"
| "fl_mul F NaN y = NaN"
| "fl_mul F x NaN = NaN"
| "fl_mul F (Infty s) (Infty t) = Infty (s \<noteq> t)"
| "fl_mul F (Infty s) (Fin y) = (if y = 0 then NaN else Infty (s \<noteq> (y < 0)))"
| "fl_mul F (Fin x) (Infty t) = (if x = 0 then NaN else Infty ((x < 0) \<noteq> t))"

fun fl_div :: "fmt \<Rightarrow> fl \<Rightarrow> fl \<Rightarrow> fl" where
  "fl_div F (Fin x) (Fin y) = (if y = 0 then (if x = 0 then NaN else Infty (x < 0)) else rnd F (x / y))"
| "fl_div F NaN y = NaN"
| "fl_div F x NaN = NaN"
| "fl_div F (Infty s) (Infty t) = NaN"
| "fl_div F (Infty s) (Fin y) = Infty (s \<noteq> (y < 0))"
| "fl_div F (Fin x) (Infty t) = Fin 0"

text \<open>\<open>as f64\<close> on an unsigned integer, and the literals of the source.\<close>

definition fl_of_nat :: "fmt \<Rightarrow> nat \<Rightarrow> fl" where
  "fl_of_nat F n = rnd F (of_nat n)"

definition fl_lit :: "fmt \<Rightarrow> rat \<Rightarrow> fl" where
  "fl_lit F x = rnd F x"

text \<open>\<open>Iterator::sum\<close> adds from the left, from zero.\<close>

definition fl_sum :: "fmt \<Rightarrow> fl list \<Rightarrow> fl" where
  "fl_sum F xs = foldl (fl_add F) (Fin 0) xs"

section \<open>Comparison\<close>

text \<open>\<open>PartialOrd::partial_cmp\<close>: \<open>None\<close> when an operand is NaN.\<close>

fun partial_cmp :: "fl \<Rightarrow> fl \<Rightarrow> ordering option" where
  "partial_cmp NaN y = None"
| "partial_cmp x NaN = None"
| "partial_cmp (Fin x) (Fin y) = Some (cmp_of x y)"
| "partial_cmp (Infty s) (Infty t) =
     Some (if s = t then Equal else if s then Less else Greater)"
| "partial_cmp (Infty s) (Fin y) = Some (if s then Less else Greater)"
| "partial_cmp (Fin x) (Infty t) = Some (if t then Greater else Less)"

definition fl_lt :: "fl \<Rightarrow> fl \<Rightarrow> bool" where
  "fl_lt x y \<longleftrightarrow> partial_cmp x y = Some Less"

definition fl_le :: "fl \<Rightarrow> fl \<Rightarrow> bool" where
  "fl_le x y \<longleftrightarrow> partial_cmp x y = Some Less \<or> partial_cmp x y = Some Equal"

text \<open>
  A linear order on all values, NaN least; off NaN it is the order \<open>partial_cmp\<close> decides.
  It makes the library's lemmas on sorted lists apply to scores.
\<close>

instantiation fl :: linorder
begin

fun less_eq_fl :: "fl \<Rightarrow> fl \<Rightarrow> bool" where
  "less_eq_fl NaN y = True"
| "less_eq_fl x NaN = False"
| "less_eq_fl (Infty s) (Infty t) = (s \<or> \<not> t)"
| "less_eq_fl (Infty s) (Fin b) = s"
| "less_eq_fl (Fin a) (Infty t) = (\<not> t)"
| "less_eq_fl (Fin a) (Fin b) = (a \<le> b)"

definition less_fl :: "fl \<Rightarrow> fl \<Rightarrow> bool" where
  "less_fl x y \<longleftrightarrow> x \<le> y \<and> \<not> y \<le> (x :: fl)"

instance
proof
  fix x y z :: fl
  show "x < y \<longleftrightarrow> x \<le> y \<and> \<not> y \<le> x" by (rule less_fl_def)
  show "x \<le> x" by (cases x) auto
  show "x \<le> y \<Longrightarrow> y \<le> z \<Longrightarrow> x \<le> z"
    by (cases x; cases y; cases z) auto
  show "x \<le> y \<Longrightarrow> y \<le> x \<Longrightarrow> x = y"
    by (cases x; cases y) auto
  show "x \<le> y \<or> y \<le> x"
    by (cases x; cases y) auto
qed

end

lemma partial_cmp_order:
  "x \<noteq> NaN \<Longrightarrow> y \<noteq> NaN \<Longrightarrow> partial_cmp x y = Some (cmp_of x y)"
  by (cases x; cases y) (auto simp: cmp_of_def less_fl_def)

lemma partial_cmp_None: "partial_cmp x y = None \<longleftrightarrow> x = NaN \<or> y = NaN"
  by (cases x; cases y) auto

lemma fl_lt_iff: "fl_lt x y \<longleftrightarrow> x \<noteq> NaN \<and> y \<noteq> NaN \<and> x < y"
  by (cases "x = NaN"; cases "y = NaN")
     (auto simp: fl_lt_def partial_cmp_order cmp_of_def partial_cmp_None [THEN iffD2])

lemma fl_le_iff: "fl_le x y \<longleftrightarrow> x \<noteq> NaN \<and> y \<noteq> NaN \<and> x \<le> y"
  by (cases "x = NaN"; cases "y = NaN")
     (auto simp: fl_le_def partial_cmp_order cmp_of_def partial_cmp_None [THEN iffD2])

lemma Fin_le [simp]: "Fin x \<le> Fin y \<longleftrightarrow> x \<le> y" by simp

lemma Fin_less [simp]: "Fin x < Fin y \<longleftrightarrow> x < y" by (auto simp: less_fl_def)

section \<open>Representable values\<close>

definition representable :: "fmt \<Rightarrow> rat \<Rightarrow> bool" where
  "representable F x \<longleftrightarrow> rnd F x = Fin x"

text \<open>Scaling down a non-negative representable value by a factor in \<open>[0, 1]\<close> does not raise it.\<close>

lemma rnd_mono_below:
  assumes "representable F y" "x \<le> y" "0 \<le> x" "1 \<le> f_prec F"
  shows "\<exists>z. rnd F x = Fin z \<and> 0 \<le> z \<and> z \<le> y"
proof -
  have y: "rnd_val F y = y" "y \<noteq> 0 \<Longrightarrow> ilog2 \<bar>y\<bar> \<le> f_emax F"
    using assms(1) by (auto simp: representable_def rnd_def Let_def split: if_splits)
  have "rnd_val F x \<le> y" using rnd_val_mono [OF assms(2,4)] y by simp
  moreover have "0 \<le> rnd_val F x" using assms(3) by (rule rnd_val_nonneg)
  moreover have "\<not> f_emax F < ilog2 \<bar>rnd_val F x\<bar>" if "rnd_val F x \<noteq> 0"
    using that ilog2_mono [of "rnd_val F x" y] y calculation by force
  ultimately show ?thesis by (auto simp: rnd_def Let_def)
qed

lemma rnd_fin_representable_nonneg:
  assumes "0 \<le> x" "rnd F x = Fin z" shows "0 \<le> z"
  using assms rnd_val_nonneg [of x F] by (auto simp: rnd_def Let_def split: if_splits)

section \<open>Rounding is monotonic\<close>

lemma rnd_mono:
  assumes "x \<le> y" "1 \<le> f_prec F" shows "rnd F x \<le> rnd F y"
proof -
  have v: "rnd_val F x \<le> rnd_val F y" using assms by (rule rnd_val_mono)
  have xs: "0 \<le> x \<Longrightarrow> 0 \<le> rnd_val F x" "x \<le> 0 \<Longrightarrow> rnd_val F x \<le> 0"
    by (simp_all add: rnd_val_nonneg rnd_val_sign)
  have ys: "0 \<le> y \<Longrightarrow> 0 \<le> rnd_val F y" "y \<le> 0 \<Longrightarrow> rnd_val F y \<le> 0"
    by (simp_all add: rnd_val_nonneg rnd_val_sign)
  have up: "ilog2 \<bar>rnd_val F x\<bar> \<le> ilog2 \<bar>rnd_val F y\<bar>" if "0 < rnd_val F x"
    using that v by (intro ilog2_mono) auto
  have down: "ilog2 \<bar>rnd_val F y\<bar> \<le> ilog2 \<bar>rnd_val F x\<bar>" if "rnd_val F y < 0"
    using that v by (intro ilog2_mono) auto
  define a b where "a = rnd_val F x" and "b = rnd_val F y"
  note facts = v [folded a_def b_def] xs [folded a_def] ys [folded b_def]
    up [folded a_def b_def] down [folded a_def b_def]
  have r: "rnd F x = (if a \<noteq> 0 \<and> f_emax F < ilog2 \<bar>a\<bar> then Infty (x < 0) else Fin a)"
      "rnd F y = (if b \<noteq> 0 \<and> f_emax F < ilog2 \<bar>b\<bar> then Infty (y < 0) else Fin b)"
    by (simp_all add: rnd_def a_def b_def)
  consider "0 \<le> x" | "y \<le> 0" | "x < 0" "0 < y" by linarith
  then show ?thesis
  proof cases
    case 1
    then have "0 \<le> a" "a \<le> b" "0 < a \<Longrightarrow> ilog2 \<bar>a\<bar> \<le> ilog2 \<bar>b\<bar>" "\<not> x < 0" "\<not> y < 0"
      using facts assms(1) by simp_all
    then show ?thesis unfolding r by (cases "a = 0") auto
  next
    case 2
    then have "b \<le> 0" "a \<le> b" "b < 0 \<Longrightarrow> ilog2 \<bar>b\<bar> \<le> ilog2 \<bar>a\<bar>" "x \<le> 0"
      using facts assms(1) by simp_all
    moreover have "a \<noteq> 0 \<Longrightarrow> x < 0" "b \<noteq> 0 \<Longrightarrow> y < 0"
      using 2 assms(1) by (auto simp: a_def b_def less_le)
    ultimately show ?thesis unfolding r by (cases "b = 0") auto
  next
    case 3
    then have "a \<le> b" "\<not> y < 0" using facts by simp_all
    then show ?thesis unfolding r using 3 by simp
  qed
qed

text \<open>A value between two representable ones is rounded to a finite value between them.\<close>

lemma rnd_between:
  assumes "representable F a" "representable F b" "a \<le> x" "x \<le> b" "1 \<le> f_prec F"
  shows "\<exists>z. rnd F x = Fin z \<and> a \<le> z \<and> z \<le> b"
proof -
  have "Fin a \<le> rnd F x" "rnd F x \<le> Fin b"
    using assms rnd_mono [of a x F] rnd_mono [of x b F] by (simp_all add: representable_def)
  then show ?thesis by (cases "rnd F x") auto
qed

lemma representable_0 [simp]: "representable F 0"
  by (simp add: representable_def)

lemma binary64_prec [simp]: "f_prec binary64 = 53" "f_prec binary32 = 24"
  by (simp_all add: binary64_def binary32_def)

text \<open>\<open>as f64\<close> on a signed integer, and \<open>f64::max\<close>, which ignores NaN.\<close>

definition fl_of_int :: "fmt \<Rightarrow> int \<Rightarrow> fl" where
  "fl_of_int F i = rnd F (of_int i)"

definition fl_max :: "fl \<Rightarrow> fl \<Rightarrow> fl" where
  "fl_max a b = (if a = NaN then b else if b = NaN then a else if fl_lt a b then b else a)"

lemma fl_max_max: "fl_max a b = max a b"
  by (cases a; cases b) (auto simp: fl_max_def max_def fl_lt_iff less_fl_def)

section \<open>Exact integers and absolute errors\<close>

lemma ilog2_less: "0 < x \<Longrightarrow> x < 2 powi k \<Longrightarrow> ilog2 x < k"
proof (rule ccontr)
  assume *: "0 < x" "x < 2 powi k" "\<not> ilog2 x < k"
  then have "(2::rat) powi k \<le> 2 powi (ilog2 x)" by (intro power_int_increasing) auto
  with ilog2_bounds(1) [OF *(1)] *(2) show False by linarith
qed

lemma ilog2_ge: "2 powi k \<le> x \<Longrightarrow> k \<le> ilog2 x"
proof (rule ccontr)
  assume *: "2 powi k \<le> x" "\<not> k \<le> ilog2 x"
  then have "0 < x" by (metis less_le_trans zero_less_numeral zero_less_power_int)
  have "(2::rat) powi (ilog2 x + 1) \<le> 2 powi k" using * by (intro power_int_increasing) auto
  with ilog2_bounds(2) [OF \<open>0 < x\<close>] *(1) show False by linarith
qed

text \<open>Integers below \<open>2 ^ 53\<close> are exact in \<open>f64\<close>.\<close>

lemma rnd_int_pos:
  assumes "0 < n" "n < 2 ^ 53" shows "rnd binary64 (of_int n) = Fin (of_int n)"
proof -
  let ?x = "of_int n :: rat"
  have x: "0 < ?x" using assms by simp
  have "?x < of_int (2 ^ 53)" using assms(2) by (simp only: of_int_less_iff)
  then have "?x < 2 powi 53" by simp
  then have hi: "ilog2 ?x < 53" by (intro ilog2_less x)
  have "(2::rat) powi 0 \<le> ?x" using assms(1) by simp
  then have lo: "0 \<le> ilog2 ?x" by (rule ilog2_ge)
  then have b: "bexp binary64 ?x = ilog2 ?x" using x by (simp add: bexp_def binary64_def)
  define k where "k = nat (52 - ilog2 ?x)"
  have "ulp binary64 ?x = 2 powi (- int k)" using hi by (simp add: ulp_def b k_def)
  then have u: "ulp binary64 ?x = 1 / 2 ^ k" by (simp add: power_int_minus divide_inverse)
  have "?x / ulp binary64 ?x = of_int (n * 2 ^ k)" by (simp add: u)
  then have "rnd_val binary64 ?x = of_int (n * 2 ^ k) * (1 / 2 ^ k)"
    using x by (simp only: rnd_val_pos round_half_even_of_int u)
  also have "\<dots> = ?x" by simp
  finally have "rnd_val binary64 ?x = ?x" .
  then show ?thesis using hi x by (simp add: rnd_def binary64_def Let_def)
qed

lemma representable_int:
  assumes "\<bar>n\<bar> < 2 ^ 53" shows "representable binary64 (of_int n)"
proof -
  consider "0 < n" | "n = 0" | "0 < - n" by linarith
  then show ?thesis
  proof cases
    case 1
    then show ?thesis using assms rnd_int_pos by (simp add: representable_def)
  next
    case 3
    then have r: "rnd binary64 (of_int (- n)) = Fin (of_int (- n))"
      using assms by (intro rnd_int_pos) auto
    then show ?thesis using 3
      by (auto simp: representable_def rnd_def Let_def rnd_val_minus split: if_splits)
  qed simp
qed

lemma representable_nat: "n < 2 ^ 53 \<Longrightarrow> representable binary64 (of_nat n)"
  using representable_int [of "int n"] by simp

lemma fl_of_nat_exact: "n < 2 ^ 53 \<Longrightarrow> fl_of_nat binary64 n = Fin (of_nat n)"
  using representable_nat by (simp add: fl_of_nat_def representable_def)

text \<open>Below \<open>2 powi k\<close> the rounding error is at most half of the spacing there.\<close>

lemma rnd_abs_error:
  assumes "\<bar>x\<bar> < 2 powi k" "- 1021 \<le> k" "k \<le> 1023"
  shows "\<exists>z. rnd binary64 x = Fin z \<and> \<bar>z - x\<bar> \<le> 2 powi (k - 54)"
proof (cases "x = 0")
  case False
  then have x: "0 < \<bar>x\<bar>" by simp
  have "ilog2 \<bar>x\<bar> < k" using x assms(1) by (rule ilog2_less)
  then have "bexp binary64 x + 1 - 53 \<le> k - 53" using assms(2) by (simp add: bexp_def binary64_def)
  then have "ulp binary64 x \<le> 2 powi (k - 53)"
    unfolding ulp_def binary64_prec by (intro power_int_increasing) auto
  moreover have "(2::rat) powi (k - 53) = 2 * 2 powi (k - 54)"
    using power_int_add [of "2::rat" 1 "k - 54"] by simp
  ultimately have e: "\<bar>rnd_val binary64 x - x\<bar> \<le> 2 powi (k - 54)"
    using rnd_val_near [of binary64 x] by linarith
  have "\<bar>rnd_val binary64 x\<bar> \<le> 2 powi (bexp binary64 \<bar>x\<bar> + 1)"
    using rnd_val_upper [OF x, of binary64] rnd_val_minus [of binary64 x] rnd_val_nonneg [of "\<bar>x\<bar>" binary64]
    by (cases "0 \<le> x") (auto simp: abs_of_neg)
  also have "\<dots> \<le> 2 powi k"
    using \<open>ilog2 \<bar>x\<bar> < k\<close> assms(2) by (intro power_int_increasing) (auto simp: bexp_def binary64_def)
  also have "\<dots> < 2 powi 1024" using assms(3) by (intro power_int_strict_increasing) auto
  finally have small: "\<bar>rnd_val binary64 x\<bar> < 2 powi 1024" .
  have "\<not> 1023 < ilog2 \<bar>rnd_val binary64 x\<bar>" if "rnd_val binary64 x \<noteq> 0"
    using ilog2_less [OF _ small] that by simp
  then show ?thesis using e by (auto simp: rnd_def binary64_def Let_def)
qed simp

end
