(* ===== verification/Feed_Sampler.thy ===== *)
theory Feed_Sampler
  imports Rust_Float
begin

text \<open>
  Candidates and samplers of \<open>crates/feed\<close>: \<open>candidate.rs\<close>, \<open>sampler.rs\<close> (the \<open>sample\<close>
  loop and \<open>TopK\<close>) and \<open>quota_sampler.rs\<close>. A sampler is its \<open>pick\<close> function; the loop
  takes the picked candidate out with \<open>swap_remove\<close>, which panics on an index out of range,
  so the model of the loop returns \<open>None\<close> there. The locale \<open>sampler\<close> states what the loop
  needs of \<open>pick\<close>, and both samplers of the code are interpretations.
\<close>

section \<open>Candidates\<close>

record 'i candidate =
  c_item :: 'i
  c_score :: fl
  c_source :: string
  c_group :: string

definition candidate_new :: "'i \<Rightarrow> string \<Rightarrow> 'i candidate" where
  "candidate_new i s = \<lparr>c_item = i, c_score = Fin 0, c_source = s, c_group = s\<rparr>"

type_synonym 'i pick = "'i candidate list \<Rightarrow> 'i candidate list \<Rightarrow> nat option"

section \<open>The sampling loop\<close>

fun sample_loop :: "'i pick \<Rightarrow> nat \<Rightarrow> 'i candidate list \<Rightarrow> 'i candidate list \<Rightarrow> 'i candidate list option" where
  "sample_loop pick 0 candidates selected = Some selected"
| "sample_loop pick (Suc n) candidates selected =
     (if candidates = [] then Some selected
      else case pick candidates selected of
             None \<Rightarrow> Some selected
           | Some idx \<Rightarrow>
               if idx < length candidates
               then sample_loop pick n (swap_remove candidates idx) (selected @ [candidates ! idx])
               else None)"

definition sample :: "'i pick \<Rightarrow> 'i candidate list \<Rightarrow> nat \<Rightarrow> 'i candidate list option" where
  "sample pick candidates n = sample_loop pick n candidates []"

text \<open>\<open>score.partial_cmp(..).unwrap_or(Ordering::Equal)\<close> on indexed candidates.\<close>

definition cmp_score :: "nat \<times> 'i candidate \<Rightarrow> nat \<times> 'i candidate \<Rightarrow> ordering" where
  "cmp_score a b = unwrap_or (partial_cmp (c_score (snd a)) (c_score (snd b))) Equal"

definition topk_pick :: "'i pick" where
  "topk_pick remaining selected = map_option fst (max_by cmp_score (enumerate 0 remaining))"

section \<open>The quota sampler\<close>

record group_quota =
  q_group :: string
  q_weight :: fl

definition group_quota_new :: "string \<Rightarrow> fl \<Rightarrow> group_quota" where
  "group_quota_new g w = \<lparr>q_group = g, q_weight = w\<rparr>"

record quota_sampler =
  quotas :: "group_quota list"
  total_weight :: fl

definition quota_sampler_new :: "group_quota list \<Rightarrow> quota_sampler" where
  "quota_sampler_new qs = \<lparr>quotas = qs, total_weight = fl_sum binary64 (map q_weight qs)\<rparr>"

definition highest_scored :: "'i candidate list \<Rightarrow> nat option" where
  "highest_scored cs = map_option fst (max_by cmp_score (enumerate 0 cs))"

text \<open>\<open>weight / total_weight - count as f64 / n as f64\<close>\<close>

definition deficit :: "quota_sampler \<Rightarrow> 'i candidate list \<Rightarrow> group_quota \<Rightarrow> fl" where
  "deficit qs selected q =
     (let n = length selected + 1;
          target = fl_div binary64 (q_weight q) (total_weight qs);
          actual = fl_div binary64
                     (fl_of_nat binary64 (length (filter (\<lambda>c. c_group c = q_group q) selected)))
                     (fl_of_nat binary64 n)
      in fl_sub binary64 target actual)"

text \<open>The loop over the quotas; its state is \<open>(best_group, best_deficit)\<close>.\<close>

fun best_group_loop :: "quota_sampler \<Rightarrow> 'i candidate list \<Rightarrow> 'i candidate list \<Rightarrow>
    group_quota list \<Rightarrow> string option \<times> fl \<Rightarrow> string option \<times> fl" where
  "best_group_loop qs remaining selected [] st = st"
| "best_group_loop qs remaining selected (q # rest) (bg, bd) =
     best_group_loop qs remaining selected rest
       (if \<not> list_ex (\<lambda>c. c_group c = q_group q) remaining then (bg, bd)
        else let d = deficit qs selected q in
             if fl_lt bd d then (Some (q_group q), d) else (bg, bd))"

definition quota_pick :: "quota_sampler \<Rightarrow> 'i pick" where
  "quota_pick qs remaining selected =
     (if remaining = [] then None
      else if fl_le (total_weight qs) (Fin 0) then highest_scored remaining
      else case fst (best_group_loop qs remaining selected (quotas qs) (None, Infty True)) of
             Some g \<Rightarrow> map_option fst
               (max_by cmp_score (filter (\<lambda>(_, c). c_group c = g) (enumerate 0 remaining)))
           | None \<Rightarrow> highest_scored remaining)"

section \<open>What a sampler owes the loop\<close>

locale sampler =
  fixes pick :: "'i pick"
  assumes pick_in_range:
    "remaining \<noteq> [] \<Longrightarrow> \<exists>i. pick remaining selected = Some i \<and> i < length remaining"
begin

lemma loop_total:
  "\<exists>out. sample_loop pick n cs sel = Some out \<and> length out = length sel + min n (length cs)
     \<and> mset out \<subseteq># mset sel + mset cs"
proof (induction n arbitrary: cs sel)
  case (Suc n)
  show ?case
  proof (cases "cs = []")
    case False
    then obtain i where i: "pick cs sel = Some i" "i < length cs" using pick_in_range by blast
    obtain out where out: "sample_loop pick n (swap_remove cs i) (sel @ [cs ! i]) = Some out"
        "length out = length (sel @ [cs ! i]) + min n (length (swap_remove cs i))"
        "mset out \<subseteq># mset (sel @ [cs ! i]) + mset (swap_remove cs i)"
      using Suc.IH by blast
    have "mset (sel @ [cs ! i]) + mset (swap_remove cs i) = mset sel + mset cs"
      using mset_swap_remove [OF i(2)] by simp
    with out(3) have "mset out \<subseteq># mset sel + mset cs" by (simp only:)
    moreover have "length out = length sel + min (Suc n) (length cs)"
      using out(2) i(2) by (cases "length cs") auto
    ultimately show ?thesis using out(1) i False by simp
  qed simp
qed simp

lemma sample_total: "\<exists>out. sample pick cs n = Some out"
  using loop_total [of n cs "[]"] by (auto simp: sample_def)

lemma sample_length: "sample pick cs n = Some out \<Longrightarrow> length out = min n (length cs)"
  using loop_total [of n cs "[]"] by (auto simp: sample_def)

lemma sample_sub: "sample pick cs n = Some out \<Longrightarrow> mset out \<subseteq># mset cs"
  using loop_total [of n cs "[]"] by (auto simp: sample_def)

lemma sample_set: "sample pick cs n = Some out \<Longrightarrow> set out \<subseteq> set cs"
  using set_mset_mono [OF sample_sub] by simp

text \<open>Asking for at least as many as there are returns them all.\<close>

lemma sample_all:
  assumes "sample pick cs n = Some out" "length cs \<le> n"
  shows "mset out = mset cs"
  using sample_sub [OF assms(1)] sample_length [OF assms(1)] assms(2)
  by (metis min_absorb2 mset_subset_size size_mset subset_mset.le_imp_less_or_eq less_irrefl)

end

section \<open>Both samplers of the code keep the contract\<close>

lemma max_by_indexed:
  assumes "max_by cmp (filter P (enumerate 0 xs)) = Some m"
  shows "fst m < length xs \<and> xs ! fst m = snd m \<and> P m"
  using max_by_in [OF assms] enumerate_memD [of "fst m" "snd m" xs] by auto

lemma highest_scored_Some:
  "highest_scored cs = Some i \<Longrightarrow> i < length cs"
  using max_by_indexed [of cmp_score "\<lambda>_. True" cs] by (auto simp: highest_scored_def)

lemma highest_scored_ex: "cs \<noteq> [] \<Longrightarrow> \<exists>i. highest_scored cs = Some i \<and> i < length cs"
  using highest_scored_Some [of cs] by (cases "highest_scored cs") (auto simp: highest_scored_def)

lemma topk_pick_highest: "topk_pick remaining selected = highest_scored remaining"
  by (simp add: topk_pick_def highest_scored_def)

text \<open>The group the loop settles on is one that still has a candidate.\<close>

lemma best_group_loop_present:
  assumes "fst (best_group_loop qs remaining selected rest st) = Some g"
    and "fst st = Some g \<Longrightarrow> \<exists>c \<in> set remaining. c_group c = g"
  shows "\<exists>c \<in> set remaining. c_group c = g"
  using assms
proof (induction rest arbitrary: st)
  case (Cons q rest)
  obtain bg bd where st: "st = (bg, bd)" by (cases st)
  show ?case
  proof (cases "list_ex (\<lambda>c. c_group c = q_group q) remaining \<and> fl_lt bd (deficit qs selected q)")
    case True
    then have "best_group_loop qs remaining selected (q # rest) st
        = best_group_loop qs remaining selected rest (Some (q_group q), deficit qs selected q)"
      by (simp add: st Let_def)
    then have "fst (best_group_loop qs remaining selected rest
        (Some (q_group q), deficit qs selected q)) = Some g"
      using Cons.prems(1) by (simp only:)
    then show ?thesis
      by (rule Cons.IH) (use True in \<open>auto simp: list_ex_iff\<close>)
  next
    case False
    then have "best_group_loop qs remaining selected (q # rest) st
        = best_group_loop qs remaining selected rest st"
      by (auto simp: st Let_def)
    with Cons.prems show ?thesis by (metis Cons.IH)
  qed
qed auto

lemma quota_pick_ex:
  assumes "remaining \<noteq> []"
  shows "\<exists>i. quota_pick qs remaining selected = Some i \<and> i < length remaining"
proof -
  let ?bg = "fst (best_group_loop qs remaining selected (quotas qs) (None, Infty True))"
  show ?thesis
  proof (cases "fl_le (total_weight qs) (Fin 0) \<or> ?bg = None")
    case True
    then show ?thesis using assms highest_scored_ex [OF assms] by (auto simp: quota_pick_def)
  next
    case False
    then obtain g where g: "?bg = Some g" by blast
    then obtain c where "c \<in> set remaining" "c_group c = g"
      using best_group_loop_present [OF g] by auto
    then obtain j where "j < length remaining" "c_group (remaining ! j) = g"
      by (auto simp: in_set_conv_nth)
    then have "filter (\<lambda>(_, c). c_group c = g) (enumerate 0 remaining) \<noteq> []"
      using enumerate_memI [of j remaining] by (force simp: filter_empty_conv)
    then obtain m where
      "max_by cmp_score (filter (\<lambda>(_, c). c_group c = g) (enumerate 0 remaining)) = Some m"
      using max_by_Some_ex by blast
    with max_by_indexed [OF this] g False assms show ?thesis by (auto simp: quota_pick_def)
  qed
qed

interpretation topk: sampler topk_pick
  by unfold_locales (simp add: topk_pick_highest highest_scored_ex)

interpretation quota: sampler "quota_pick qs" for qs
  by unfold_locales (rule quota_pick_ex)

section \<open>A sampler that always picks a best candidate\<close>

definition scored :: "'i candidate list \<Rightarrow> bool" where
  "scored cs \<longleftrightarrow> (\<forall>c \<in> set cs. c_score c \<noteq> NaN)"

lemma cmp_score_key:
  "c_score (snd a) \<noteq> NaN \<Longrightarrow> c_score (snd b) \<noteq> NaN \<Longrightarrow>
   cmp_score a b = cmp_of (c_score (snd a)) (c_score (snd b))"
  by (simp add: cmp_score_def partial_cmp_order)

text \<open>The best of the indexed candidates that satisfy \<open>P\<close>.\<close>

lemma max_by_score_greatest:
  assumes m: "max_by cmp_score (filter P (enumerate 0 cs)) = Some m"
    and "scored cs" and "j < length cs" and "P (j, cs ! j)"
  shows "c_score (cs ! j) \<le> c_score (cs ! fst m)"
proof -
  let ?xs = "filter P (enumerate 0 cs)"
  have nn: "c_score (snd x) \<noteq> NaN" if "x \<in> set ?xs" for x
  proof -
    have "snd x \<in> set cs"
      using that enumerate_memD [of "fst x" "snd x" cs] nth_mem [of "fst x" cs] by simp
    then show ?thesis using assms(2) by (simp add: scored_def)
  qed
  have "(j, cs ! j) \<in> set ?xs" using assms(3,4) enumerate_memI [of j cs] by simp
  from max_by_greatest [OF m cmp_score_key [OF nn nn] this]
  have "c_score (snd (j, cs ! j)) \<le> c_score (snd m)" .
  then show ?thesis using max_by_indexed [OF m] by simp
qed

locale ranked_sampler = sampler +
  assumes pick_best:
    "pick remaining selected = Some i \<Longrightarrow> scored remaining \<Longrightarrow> c \<in> set remaining \<Longrightarrow>
     c_score c \<le> c_score (remaining ! i)"
begin

lemma loop_ranked:
  assumes "sample_loop pick n cs sel = Some out" "scored cs"
    "sorted_wrt (\<lambda>a b. c_score b \<le> c_score a) sel"
    "\<forall>s \<in> set sel. \<forall>c \<in> set cs. c_score c \<le> c_score s"
  shows "sorted_wrt (\<lambda>a b. c_score b \<le> c_score a) out
    \<and> (\<forall>c \<in># mset sel + mset cs - mset out. \<forall>s \<in> set out. c_score c \<le> c_score s)"
  using assms
proof (induction n arbitrary: cs sel)
  case (Suc n)
  show ?case
  proof (cases "cs = []")
    case False
    then obtain i where i: "pick cs sel = Some i" "i < length cs" using pick_in_range by blast
    have sub: "set (swap_remove cs i) \<subseteq> set cs" using i by (intro set_swap_remove_subset)
    have best: "\<forall>c \<in> set cs. c_score c \<le> c_score (cs ! i)"
      using pick_best [OF i(1)] Suc.prems(2) by blast
    have eq: "mset (sel @ [cs ! i]) + mset (swap_remove cs i) = mset sel + mset cs"
      using mset_swap_remove [OF i(2)] by simp
    have "sorted_wrt (\<lambda>a b. c_score b \<le> c_score a) out
      \<and> (\<forall>c \<in># mset (sel @ [cs ! i]) + mset (swap_remove cs i) - mset out.
           \<forall>s \<in> set out. c_score c \<le> c_score s)"
    proof (rule Suc.IH)
      show "sample_loop pick n (swap_remove cs i) (sel @ [cs ! i]) = Some out"
        using Suc.prems(1) i False by simp
      show "scored (swap_remove cs i)" using Suc.prems(2) sub by (auto simp: scored_def)
      show "sorted_wrt (\<lambda>a b. c_score b \<le> c_score a) (sel @ [cs ! i])"
        using Suc.prems(3,4) i by (simp add: sorted_wrt_append)
      show "\<forall>s \<in> set (sel @ [cs ! i]). \<forall>c \<in> set (swap_remove cs i). c_score c \<le> c_score s"
        using Suc.prems(4) best sub by auto
    qed
    then show ?thesis unfolding eq .
  qed (use Suc.prems in simp)
qed simp

lemma sample_ranked:
  assumes "sample pick cs n = Some out" "scored cs"
  shows "sorted_wrt (\<lambda>a b. c_score b \<le> c_score a) out"
    and "c \<in># mset cs - mset out \<Longrightarrow> s \<in> set out \<Longrightarrow> c_score c \<le> c_score s"
  using loop_ranked [of n cs "[]" out] assms by (simp_all add: sample_def)

end

interpretation topk_ranked: ranked_sampler topk_pick
proof
  fix remaining selected :: "'a candidate list" and i c
  assume *: "topk_pick remaining selected = Some i" "scored remaining" "c \<in> set remaining"
  then obtain m where m: "max_by cmp_score (filter (\<lambda>_. True) (enumerate 0 remaining)) = Some m"
      "fst m = i" by (auto simp: topk_pick_def)
  obtain j where "j < length remaining" "remaining ! j = c" using *(3) by (auto simp: in_set_conv_nth)
  then show "c_score c \<le> c_score (remaining ! i)"
    using max_by_score_greatest [OF m(1) *(2), of j] m(2) by simp
qed

section \<open>What the quota sampler picks\<close>

definition present :: "'i candidate list \<Rightarrow> group_quota \<Rightarrow> bool" where
  "present cs q \<longleftrightarrow> (\<exists>c \<in> set cs. c_group c = q_group q)"

lemma best_group_loop_max:
  assumes "\<forall>q \<in> set rest. deficit qs selected q \<noteq> NaN" "snd st \<noteq> NaN"
    and "best_group_loop qs remaining selected rest st = (bg, bd)"
  shows "snd st \<le> bd \<and> bd \<noteq> NaN
    \<and> (\<forall>q \<in> set rest. present remaining q \<longrightarrow> deficit qs selected q \<le> bd)
    \<and> ((bg, bd) = st \<or> (\<exists>q \<in> set rest. present remaining q \<and> bg = Some (q_group q) \<and> bd = deficit qs selected q))"
  using assms
proof (induction rest arbitrary: st)
  case (Cons q rest)
  let ?d = "deficit qs selected q"
  show ?case
  proof (cases "present remaining q \<and> fl_lt (snd st) ?d")
    case True
    then have "best_group_loop qs remaining selected rest (Some (q_group q), ?d) = (bg, bd)"
      using Cons.prems(3) by (cases st) (auto simp: Let_def present_def list_ex_iff)
    then have "?d \<le> bd \<and> bd \<noteq> NaN
      \<and> (\<forall>q \<in> set rest. present remaining q \<longrightarrow> deficit qs selected q \<le> bd)
      \<and> ((bg, bd) = (Some (q_group q), ?d) \<or> (\<exists>q \<in> set rest. present remaining q \<and> bg = Some (q_group q) \<and> bd = deficit qs selected q))"
      using Cons.IH [of "(Some (q_group q), ?d)"] Cons.prems(1) by simp
    moreover have "snd st < ?d" using True by (simp add: fl_lt_iff)
    ultimately show ?thesis using True by auto
  next
    case False
    then have "best_group_loop qs remaining selected rest st = (bg, bd)"
      using Cons.prems(3) by (cases st) (auto simp: Let_def present_def list_ex_iff split: if_splits)
    then have "snd st \<le> bd \<and> bd \<noteq> NaN
      \<and> (\<forall>q \<in> set rest. present remaining q \<longrightarrow> deficit qs selected q \<le> bd)
      \<and> ((bg, bd) = st \<or> (\<exists>q \<in> set rest. present remaining q \<and> bg = Some (q_group q) \<and> bd = deficit qs selected q))"
      using Cons.IH [of st] Cons.prems(1,2) by simp
    moreover have "present remaining q \<Longrightarrow> ?d \<le> snd st"
      using False Cons.prems(1,2) by (auto simp: fl_lt_iff)
    ultimately show ?thesis by auto
  qed
qed auto

section \<open>Properties\<close>

definition sample_cands :: "nat candidate list" where
  "sample_cands =
     [(candidate_new 1 ''a'')\<lparr>c_score := Fin 2\<rparr>, (candidate_new 2 ''b'')\<lparr>c_score := Fin 5\<rparr>,
      (candidate_new 3 ''a'')\<lparr>c_score := Fin 3\<rparr>]"

definition sample_quotas :: quota_sampler where
  "sample_quotas = quota_sampler_new [group_quota_new ''a'' (Fin 1), group_quota_new ''b'' (Fin 1)]"

text \<open>
  C24: Sampling with \<open>TopK\<close> never fails; it returns as many candidates as were asked for or are
  there, each taken from the input at most once, in descending order of score, and no candidate
  left out scores higher than one returned. The scores must not be NaN.
\<close>

theorem topk_sample:
  assumes "scored cs"
  shows "\<exists>out. sample topk_pick cs n = Some out \<and> length out = min n (length cs)
    \<and> mset out \<subseteq># mset cs
    \<and> sorted_wrt (\<lambda>a b. c_score b \<le> c_score a) out
    \<and> (\<forall>c \<in># mset cs - mset out. \<forall>s \<in> set out. c_score c \<le> c_score s)"
proof -
  obtain out where out: "sample topk_pick cs n = Some out" using topk.sample_total by blast
  show ?thesis
    using out topk.sample_length [OF out] topk.sample_sub [OF out]
      topk_ranked.sample_ranked [OF out assms] by blast
qed

theorem topk_sample_witness:
  "\<exists>out. sample topk_pick sample_cands 2 = Some out \<and> length out = 2
    \<and> sorted_wrt (\<lambda>a b. c_score b \<le> c_score a) out"
  using topk_sample [of sample_cands 2] by (auto simp: scored_def sample_cands_def candidate_new_def)

text \<open>
  C23: Sampling with the quota sampler never fails, whatever the quotas, weights and scores are,
  NaN and zero weights included: it returns as many candidates as were asked for or are there,
  and takes none twice. When all are asked for, all are returned.
\<close>

theorem quota_sample:
  "\<exists>out. sample (quota_pick qs) cs n = Some out \<and> length out = min n (length cs)
    \<and> mset out \<subseteq># mset cs \<and> (n < length cs \<or> mset out = mset cs)"
proof -
  obtain out where out: "sample (quota_pick qs) cs n = Some out" using quota.sample_total by blast
  show ?thesis
    using out quota.sample_length [OF out] quota.sample_sub [OF out] quota.sample_all [OF out]
    by (meson linorder_not_less)
qed

theorem quota_sample_witness:
  "\<exists>out. sample (quota_pick sample_quotas) sample_cands 3 = Some out \<and> mset out = mset sample_cands"
  using quota_sample [of sample_quotas sample_cands 3] by (auto simp: sample_cands_def)

text \<open>
  With a positive total weight, and a candidate left in some group that has a quota, the
  quota sampler picks from a group with the largest deficit (its share of the weights minus its
  share of what is selected, this pick counted) among the groups that have a candidate, and
  picks there a candidate with the highest score.
\<close>

theorem quota_pick_best:
  assumes pick: "quota_pick qs remaining selected = Some i"
    and w: "fl_lt (Fin 0) (total_weight qs)"
    and d: "\<forall>q \<in> set (quotas qs). deficit qs selected q \<noteq> NaN \<and> deficit qs selected q \<noteq> Infty True"
    and ex: "\<exists>q \<in> set (quotas qs). present remaining q"
    and sc: "scored remaining"
  shows "\<exists>q \<in> set (quotas qs). c_group (remaining ! i) = q_group q
    \<and> (\<forall>q' \<in> set (quotas qs). present remaining q' \<longrightarrow> deficit qs selected q' \<le> deficit qs selected q)
    \<and> (\<forall>c \<in> set remaining. c_group c = q_group q \<longrightarrow> c_score c \<le> c_score (remaining ! i))"
proof -
  obtain bg bd where b: "best_group_loop qs remaining selected (quotas qs) (None, Infty True) = (bg, bd)"
    by (cases "best_group_loop qs remaining selected (quotas qs) (None, Infty True)")
  note max = best_group_loop_max [OF _ _ b]
  obtain q0 where q0: "q0 \<in> set (quotas qs)" "present remaining q0" using ex by blast
  then have "deficit qs selected q0 \<le> bd" using max d by simp
  then have "bd \<noteq> Infty True" using d q0(1) by (cases "deficit qs selected q0") auto
  then obtain q where q: "q \<in> set (quotas qs)" "bg = Some (q_group q)" "bd = deficit qs selected q"
    using max d by auto
  have "\<not> fl_le (total_weight qs) (Fin 0)" using w by (auto simp: fl_le_iff fl_lt_iff)
  moreover have "remaining \<noteq> []" using ex by (auto simp: present_def)
  ultimately obtain m where m:
    "max_by cmp_score (filter (\<lambda>(_, c). c_group c = q_group q) (enumerate 0 remaining)) = Some m" "fst m = i"
    using pick b q by (auto simp: quota_pick_def)
  have "c_score c \<le> c_score (remaining ! i)" if "c \<in> set remaining" "c_group c = q_group q" for c
    using that max_by_score_greatest [OF m(1) sc] m(2) by (auto simp: in_set_conv_nth)
  moreover have "c_group (remaining ! i) = q_group q" using max_by_indexed [OF m(1)] m(2) by auto
  ultimately show ?thesis using q max d by auto
qed

lemma sample_quotas_eval:
  "total_weight sample_quotas = Fin 2"
  "quotas sample_quotas = [group_quota_new ''a'' (Fin 1), group_quota_new ''b'' (Fin 1)]"
  "deficit sample_quotas ([] :: nat candidate list) (group_quota_new ''a'' (Fin 1)) = Fin (1 / 2)"
  "deficit sample_quotas ([] :: nat candidate list) (group_quota_new ''b'' (Fin 1)) = Fin (1 / 2)"
  by code_simp+

theorem quota_pick_best_witness:
  "quota_pick sample_quotas sample_cands [] = Some 2
    \<and> c_score (sample_cands ! 0) \<le> c_score (sample_cands ! 2)"
proof -
  have p: "quota_pick sample_quotas sample_cands [] = Some 2" by code_simp
  have "\<exists>q \<in> set (quotas sample_quotas). present sample_cands q"
    by (auto simp: sample_quotas_eval present_def sample_cands_def candidate_new_def group_quota_new_def)
  moreover have "scored sample_cands" by (simp add: scored_def sample_cands_def candidate_new_def)
  ultimately show ?thesis
    using p quota_pick_best [OF p]
    by (auto simp: sample_quotas_eval fl_lt_iff group_quota_new_def sample_cands_def candidate_new_def)
qed

end
