(* ===== verification/Rust_Str.thy ===== *)
theory Rust_Str
  imports Prelude "HOL-Library.Char_ord"
begin

text \<open>
  The operations of Rust's \<open>str\<close> and \<open>String\<close> the code uses. A string is its UTF-8 bytes
  (HOL's \<open>char\<close> is a byte), so \<open>length\<close> counts bytes as \<open>str::len\<close> does and the code's byte
  slices are list slices. Integers are printed in decimal and parsed with the sign and
  range rules of \<open>FromStr\<close>.
\<close>

section \<open>Decimal printing\<close>

definition digit_char :: "nat \<Rightarrow> char" where
  "digit_char d = char_of (48 + d)"

fun show_nat :: "nat \<Rightarrow> string" where
  "show_nat n = (if n < 10 then [digit_char n] else show_nat (n div 10) @ [digit_char (n mod 10)])"

declare show_nat.simps [simp del]

lemma show_nat_eval [str_simps]:
  "n < 10 \<Longrightarrow> show_nat n = [digit_char n]"
  "10 \<le> n \<Longrightarrow> show_nat n = show_nat (n div 10) @ [digit_char (n mod 10)]"
  by (simp_all add: show_nat.simps [of n])

lemma digit_char_eval [str_simps]:
  "digit_char 0 = CHR ''0''" "digit_char 1 = CHR ''1''" "digit_char (Suc 0) = CHR ''1''"
  "digit_char 2 = CHR ''2''" "digit_char 3 = CHR ''3''" "digit_char 4 = CHR ''4''"
  "digit_char 5 = CHR ''5''" "digit_char 6 = CHR ''6''" "digit_char 7 = CHR ''7''"
  "digit_char 8 = CHR ''8''" "digit_char 9 = CHR ''9''"
  by code_simp+

definition show_int :: "int \<Rightarrow> string" where
  "show_int i = (if i < 0 then CHR ''-'' # show_nat (nat (- i)) else show_nat (nat i))"

section \<open>Parsing integers\<close>

definition digit_val :: "char \<Rightarrow> nat option" where
  "digit_val c = (let n = of_char c in if 48 \<le> n \<and> n \<le> (57 :: nat) then Some (n - 48) else None)"

fun parse_digits_from :: "nat \<Rightarrow> string \<Rightarrow> nat option" where
  "parse_digits_from acc [] = Some acc"
| "parse_digits_from acc (c # cs) =
     (case digit_val c of None \<Rightarrow> None | Some d \<Rightarrow> parse_digits_from (10 * acc + d) cs)"

definition parse_digits :: "string \<Rightarrow> nat option" where
  "parse_digits s = (if s = [] then None else parse_digits_from 0 s)"

text \<open>\<open>parse::<usize>()\<close> on a 64-bit target: an optional plus sign, digits, below \<open>2 ^ 64\<close>.\<close>

definition usize_max :: nat where "usize_max = 2 ^ 64 - 1"

definition parse_usize :: "string \<Rightarrow> nat option" where
  "parse_usize s =
     option_filter (\<lambda>n. n \<le> usize_max)
       (case s of c # cs \<Rightarrow> parse_digits (if c = CHR ''+'' then cs else s) | [] \<Rightarrow> None)"

text \<open>\<open>parse::<i64>()\<close>: an optional sign, digits, in range.\<close>

definition i64_min :: int where "i64_min = - (2 ^ 63)"
definition i64_max :: int where "i64_max = 2 ^ 63 - 1"

definition in_i64 :: "int \<Rightarrow> bool" where
  "in_i64 i \<longleftrightarrow> i64_min \<le> i \<and> i \<le> i64_max"

definition parse_i64 :: "string \<Rightarrow> int option" where
  "parse_i64 s =
     option_filter in_i64
       (case s of
          c # cs \<Rightarrow>
            if c = CHR ''-'' then map_option (\<lambda>n. - int n) (parse_digits cs)
            else map_option int (parse_digits (if c = CHR ''+'' then cs else s))
        | [] \<Rightarrow> None)"

section \<open>Printing and parsing round trips\<close>

lemma digit_val_digit_char [simp]: "d < 10 \<Longrightarrow> digit_val (digit_char d) = Some d"
  by (simp add: digit_val_def digit_char_def)

lemma digit_char_not_sign:
  "d < 10 \<Longrightarrow> digit_char d \<noteq> CHR ''+''" "d < 10 \<Longrightarrow> digit_char d \<noteq> CHR ''-''"
  using digit_val_digit_char [of d] by (auto simp: digit_val_def)

lemma parse_digits_from_append:
  "parse_digits_from acc (xs @ ys) =
     (case parse_digits_from acc xs of None \<Rightarrow> None | Some n \<Rightarrow> parse_digits_from n ys)"
  by (induction xs arbitrary: acc) (auto split: option.splits)

lemma show_nat_not_Nil [simp]: "show_nat n \<noteq> []"
  by (subst show_nat.simps) simp

lemma parse_show_nat_from: "parse_digits_from 0 (show_nat n) = Some n"
proof (induction n rule: show_nat.induct)
  case (1 n)
  show ?case
  proof (cases "n < 10")
    case True
    then show ?thesis by (subst show_nat.simps) simp
  next
    case False
    then have "parse_digits_from 0 (show_nat n) = Some (10 * (n div 10) + n mod 10)"
      using 1 by (subst show_nat.simps) (simp add: parse_digits_from_append)
    then show ?thesis by simp
  qed
qed

lemma parse_digits_show_nat [simp]: "parse_digits (show_nat n) = Some n"
  by (simp add: parse_digits_def parse_show_nat_from)

lemma show_nat_digits: "c \<in> set (show_nat n) \<Longrightarrow> \<exists>d < 10. c = digit_char d"
proof (induction n rule: show_nat.induct)
  case (1 n)
  show ?case
  proof (cases "n < 10")
    case True
    then show ?thesis using 1 by (subst (asm) show_nat.simps) auto
  next
    case False
    then have "c \<in> set (show_nat (n div 10)) \<or> c = digit_char (n mod 10)"
      using 1 by (subst (asm) show_nat.simps) auto
    with 1(1) [OF False] show ?thesis by (metis mod_less_divisor zero_less_numeral)
  qed
qed

lemma hd_show_nat: "hd (show_nat n) \<noteq> CHR ''+''" "hd (show_nat n) \<noteq> CHR ''-''"
  using show_nat_digits [OF hd_in_set [OF show_nat_not_Nil], of n] digit_char_not_sign by metis+

lemma parse_usize_show [simp]: "n \<le> usize_max \<Longrightarrow> parse_usize (show_nat n) = Some n"
  using hd_show_nat [of n] parse_digits_show_nat [of n]
  by (cases "show_nat n") (auto simp: parse_usize_def)

lemma parse_i64_show_int: "parse_i64 (show_int i) = (if in_i64 i then Some i else None)"
  using hd_show_nat [of "nat i"] parse_digits_show_nat [of "nat i"]
  by (cases "show_nat (nat i)") (auto simp: parse_i64_def show_int_def)

lemma parse_i64_show [simp]: "in_i64 i \<Longrightarrow> parse_i64 (show_int i) = Some i"
  by (simp add: parse_i64_show_int)

lemma parse_i64_range: "parse_i64 s = Some i \<Longrightarrow> in_i64 i"
  by (cases "case s of c # cs \<Rightarrow>
            if c = CHR ''-'' then map_option (\<lambda>n. - int n) (parse_digits cs)
            else map_option int (parse_digits (if c = CHR ''+'' then cs else s))
        | [] \<Rightarrow> None") (auto simp: parse_i64_def split: if_splits)

lemma show_nat_inject [simp]: "show_nat m = show_nat n \<longleftrightarrow> m = n"
  by (metis option.inject parse_digits_show_nat)

lemma show_int_inject [simp]: "show_int i = show_int j \<longleftrightarrow> i = j"
proof
  have sign: "show_nat m \<noteq> CHR ''-'' # s" for m s
    using hd_show_nat(2) [of m] by (metis list.sel(1))
  assume "show_int i = show_int j"
  then show "i = j"
    using sign sign [symmetric] by (auto simp: show_int_def split: if_splits)
qed simp

section \<open>Splitting, joining, trimming\<close>

text \<open>\<open>str::split\<close> on an ASCII character: at least one piece.\<close>

fun split_char :: "char \<Rightarrow> string \<Rightarrow> string list" where
  "split_char c [] = [[]]"
| "split_char c (x # xs) =
     (if x = c then [] # split_char c xs
      else case split_char c xs of [] \<Rightarrow> [[x]] | p # ps \<Rightarrow> (x # p) # ps)"

fun join :: "string \<Rightarrow> string list \<Rightarrow> string" where
  "join sep [] = []"
| "join sep [p] = p"
| "join sep (p # q # ps) = p @ sep @ join sep (q # ps)"

lemma split_char_not_Nil [simp]: "split_char c s \<noteq> []"
  by (induction s) (auto split: list.splits)

lemma join_split_char [simp]: "join [c] (split_char c s) = s"
proof (induction s)
  case (Cons x xs)
  have "split_char c xs \<noteq> []" by simp
  then obtain p ps where "split_char c xs = p # ps" by (cases "split_char c xs") auto
  with Cons show ?case by (cases ps) auto
qed simp

lemma split_char_pieces: "p \<in> set (split_char c s) \<Longrightarrow> c \<notin> set p"
  by (induction s arbitrary: p) (auto split: list.splits if_splits)

lemma split_char_none: "c \<notin> set s \<Longrightarrow> split_char c s = [s]"
  by (induction s) auto

lemma split_char_append:
  "c \<notin> set p \<Longrightarrow> split_char c (p @ c # s) = p # split_char c s"
  by (induction p) auto

text \<open>\<open>trim_start_matches\<close>, \<open>trim_end_matches\<close> on a character, \<open>strip_prefix\<close>, \<open>starts_with\<close>.\<close>

definition trim_start_char :: "char \<Rightarrow> string \<Rightarrow> string" where
  "trim_start_char c s = dropWhile (\<lambda>x. x = c) s"

definition trim_end_char :: "char \<Rightarrow> string \<Rightarrow> string" where
  "trim_end_char c s = rev (dropWhile (\<lambda>x. x = c) (rev s))"

fun strip_prefix :: "string \<Rightarrow> string \<Rightarrow> string option" where
  "strip_prefix [] s = Some s"
| "strip_prefix (p # ps) [] = None"
| "strip_prefix (p # ps) (x # xs) = (if p = x then strip_prefix ps xs else None)"

definition starts_with :: "string \<Rightarrow> string \<Rightarrow> bool" where
  "starts_with p s \<longleftrightarrow> strip_prefix p s \<noteq> None"

lemma strip_prefix_append [simp]: "strip_prefix p (p @ s) = Some s"
  by (induction p) auto

lemma strip_prefix_Some: "strip_prefix p s = Some r \<longleftrightarrow> s = p @ r"
  by (induction p s rule: strip_prefix.induct) auto

lemma starts_with_iff: "starts_with p s \<longleftrightarrow> (\<exists>r. s = p @ r)"
  by (auto simp: starts_with_def strip_prefix_Some)

text \<open>\<open>str::find\<close> on a string: the offset of its first occurrence.\<close>

fun find_str :: "string \<Rightarrow> string \<Rightarrow> nat option" where
  "find_str needle [] = (if needle = [] then Some 0 else None)"
| "find_str needle (x # xs) =
     (if starts_with needle (x # xs) then Some 0 else map_option Suc (find_str needle xs))"

lemma find_str_Some:
  "find_str needle s = Some i \<Longrightarrow> i + length needle \<le> length s \<and> take (length needle) (drop i s) = needle"
proof (induction needle s arbitrary: i rule: find_str.induct)
  case (2 needle x xs)
  show ?case
  proof (cases "starts_with needle (x # xs)")
    case True
    then obtain r where "x # xs = needle @ r" by (auto simp: starts_with_iff)
    moreover have "i = 0" using 2(2) True by simp
    ultimately show ?thesis by (metis add_0 append_eq_conv_conj drop0 le_add1 length_append)
  next
    case False
    with 2 show ?thesis by fastforce
  qed
qed (auto split: if_splits)

definition str_contains :: "string \<Rightarrow> string \<Rightarrow> bool" where
  "str_contains s needle \<longleftrightarrow> find_str needle s \<noteq> None"

text \<open>\<open>str::split_once\<close>: the parts before and after the first occurrence.\<close>

definition split_once :: "string \<Rightarrow> string \<Rightarrow> (string \<times> string) option" where
  "split_once sep s = map_option (\<lambda>i. (take i s, drop (i + length sep) s)) (find_str sep s)"

lemma split_once_append: "split_once sep s = Some (a, b) \<Longrightarrow> s = a @ sep @ b"
  unfolding split_once_def
  by (auto dest!: find_str_Some) (metis add.commute append_take_drop_id drop_drop)

end
