(* ===== verification/Feed_Stages.thy ===== *)
theory Feed_Stages
  imports Feed_Sampler Rust_Str
begin

text \<open>
  Filters and scorers of \<open>crates/feed\<close>: \<open>filter.rs\<close> (\<open>Dedup\<close>) and \<open>scorer.rs\<close>
  (\<open>Diversity\<close>). A filter maps the candidate list and the context to the list it leaves, a
  scorer to the list with the new scores. The locales \<open>pool_filter\<close> and \<open>pool_scorer\<close> hold
  the contract the pipeline relies on; the code's stages are interpretations.
\<close>

type_synonym ('i, 'ctx) stage = "'i candidate list \<Rightarrow> 'ctx \<Rightarrow> 'i candidate list"

section \<open>The contracts\<close>

locale pool_filter =
  fixes apply_filter :: "('i, 'ctx) stage"
  assumes filter_sub: "mset (apply_filter cs ctx) \<subseteq># mset cs"
begin

lemma filter_set: "set (apply_filter cs ctx) \<subseteq> set cs"
  using set_mset_mono [OF filter_sub] by simp

lemma filter_length: "length (apply_filter cs ctx) \<le> length cs"
  using size_mset_mono [OF filter_sub] by simp

end

text \<open>A candidate without its score: what a scorer must not touch.\<close>

definition unscored :: "'i candidate \<Rightarrow> 'i \<times> string \<times> string" where
  "unscored c = (c_item c, c_source c, c_group c)"

locale pool_scorer =
  fixes apply_scorer :: "('i, 'ctx) stage"
  assumes scorer_frame: "map unscored (apply_scorer cs ctx) = map unscored cs"
begin

lemma scorer_length: "length (apply_scorer cs ctx) = length cs"
  using arg_cong [OF scorer_frame, of length] by simp

end

section \<open>Deduplication\<close>

record 'i dedup =
  key_fn :: "'i candidate \<Rightarrow> string"
  priority_fn :: "'i candidate \<Rightarrow> int"

definition dedup_new :: "('i candidate \<Rightarrow> string) \<Rightarrow> 'i dedup" where
  "dedup_new k = \<lparr>key_fn = k, priority_fn = (\<lambda>_. 0)\<rparr>"

definition dedup_prefer :: "'i dedup \<Rightarrow> ('i candidate \<Rightarrow> int) \<Rightarrow> 'i dedup" where
  "dedup_prefer d p = d\<lparr>priority_fn := p\<rparr>"

text \<open>\<open>sort_by_key\<close> is a stable sort, as the library's \<^const>\<open>sort_key\<close>.\<close>

definition dedup_apply :: "'i dedup \<Rightarrow> ('i, 'ctx) stage" where
  "dedup_apply d cs ctx = retain_first (key_fn d) {} (sort_key (priority_fn d) cs)"

lemma mset_dedup: "mset (dedup_apply d cs ctx) \<subseteq># mset cs"
  using mset_retain_first [of "key_fn d" "{}" "sort_key (priority_fn d) cs"]
  by (simp add: dedup_apply_def)

interpretation dedup: pool_filter "dedup_apply d" for d
  by unfold_locales (rule mset_dedup)

lemma dedup_keys: "key_fn d ` set (dedup_apply d cs ctx) = key_fn d ` set cs"
  by (simp add: dedup_apply_def keys_retain_first)

lemma dedup_distinct: "distinct (map (key_fn d) (dedup_apply d cs ctx))"
  by (simp add: dedup_apply_def distinct_retain_first)

lemma dedup_preferred:
  assumes "c \<in> set (dedup_apply d cs ctx)" "c' \<in> set cs" "key_fn d c' = key_fn d c"
  shows "priority_fn d c \<le> priority_fn d c'"
proof -
  let ?s = "sort_key (priority_fn d) cs"
  obtain ys zs where s: "?s = ys @ c # zs" "key_fn d c \<notin> key_fn d ` set ys"
    using retain_first_is_first [OF assms(1) [unfolded dedup_apply_def]] by (elim exE conjE)
  have "c' \<in> set ?s" using assms(2) by simp
  then have "c' \<in> set (ys @ c # zs)" by (simp only: s(1))
  moreover have "c' \<notin> set ys" using s(2) assms(3) by (metis imageI)
  ultimately have "c' \<in> set (c # zs)" by simp
  moreover have "sorted (map (priority_fn d) (ys @ c # zs))" by (metis s(1) sorted_sort_key)
  ultimately show ?thesis by (rule sorted_first_least [rotated])
qed

text \<open>With one priority for all, the first occurrence in arrival order is kept, in that order.\<close>

lemma dedup_new_arrival: "dedup_apply (dedup_new k) cs ctx = retain_first k {} cs"
  by (simp add: dedup_apply_def dedup_new_def sort_key_const)

section \<open>Diversity\<close>

record 'i diversity =
  penalty :: fl
  div_key :: "'i \<Rightarrow> string"

definition diversity_new :: "fl \<Rightarrow> ('i \<Rightarrow> string) \<Rightarrow> 'i diversity" where
  "diversity_new p k = \<lparr>penalty = p, div_key = k\<rparr>"

text \<open>The loop over the candidates; its state is the map from keys to counts.\<close>

fun diversity_loop :: "'i diversity \<Rightarrow> (string \<rightharpoonup> nat) \<Rightarrow> 'i candidate list \<Rightarrow> 'i candidate list" where
  "diversity_loop d seen [] = []"
| "diversity_loop d seen (c # cs) =
     (let key = div_key d (c_item c);
          count = unwrap_or (seen key) 0;
          c' = (if 0 < count then c\<lparr>c_score := fl_mul binary64 (c_score c) (penalty d)\<rparr> else c)
      in c' # diversity_loop d (seen(key \<mapsto> count + 1)) cs)"

definition diversity_score :: "'i diversity \<Rightarrow> ('i, 'ctx) stage" where
  "diversity_score d cs ctx = diversity_loop d Map.empty cs"

lemma diversity_loop_frame: "map unscored (diversity_loop d seen cs) = map unscored cs"
  by (induction cs arbitrary: seen) (auto simp: Let_def unscored_def)

interpretation diversity: pool_scorer "diversity_score d" for d
  by unfold_locales (simp add: diversity_score_def diversity_loop_frame)

text \<open>A key counts as seen when its count is positive.\<close>

definition counted :: "(string \<rightharpoonup> nat) \<Rightarrow> string \<Rightarrow> bool" where
  "counted seen k \<longleftrightarrow> 0 < unwrap_or (seen k) 0"

lemma counted_update [simp]: "counted (seen(k \<mapsto> n + 1)) k' \<longleftrightarrow> k' = k \<or> counted seen k'"
  by (simp add: counted_def)

lemma diversity_loop_nth:
  assumes "i < length cs"
  shows "c_score (diversity_loop d seen cs ! i) =
    (if counted seen (div_key d (c_item (cs ! i)))
        \<or> div_key d (c_item (cs ! i)) \<in> (\<lambda>c. div_key d (c_item c)) ` set (take i cs)
     then fl_mul binary64 (c_score (cs ! i)) (penalty d) else c_score (cs ! i))"
  using assms
proof (induction cs arbitrary: seen i)
  case (Cons c cs)
  show ?case
  proof (cases i)
    case 0
    then show ?thesis by (simp add: Let_def counted_def)
  next
    case (Suc j)
    then have "c_score (diversity_loop d seen (c # cs) ! i)
      = c_score (diversity_loop d (seen(div_key d (c_item c) \<mapsto> unwrap_or (seen (div_key d (c_item c))) 0 + 1)) cs ! j)"
      by (simp add: Let_def)
    also have "\<dots> = (if counted seen (div_key d (c_item (cs ! j))) \<or> div_key d (c_item (cs ! j)) = div_key d (c_item c)
        \<or> div_key d (c_item (cs ! j)) \<in> (\<lambda>c. div_key d (c_item c)) ` set (take j cs)
     then fl_mul binary64 (c_score (cs ! j)) (penalty d) else c_score (cs ! j))"
      using Cons.prems Suc by (subst Cons.IH) (auto simp only: counted_update, auto)
    finally show ?thesis using Suc by auto
  qed
qed simp

text \<open>
  The penalty is applied at most once to a candidate: the second and every later candidate of
  a key get the same factor.
\<close>

lemma diversity_nth:
  assumes "i < length cs"
  shows "c_score (diversity_score d cs ctx ! i) =
    (if div_key d (c_item (cs ! i)) \<in> (\<lambda>c. div_key d (c_item c)) ` set (take i cs)
     then fl_mul binary64 (c_score (cs ! i)) (penalty d) else c_score (cs ! i))"
  using diversity_loop_nth [OF assms, of d Map.empty]
  by (simp add: diversity_score_def counted_def)

text \<open>A penalty in \<open>[0, 1]\<close> never raises a non-negative score, rounding included.\<close>

lemma mul_unit_le:
  assumes "representable binary64 s" "0 \<le> s" "0 \<le> p" "p \<le> 1"
  shows "\<exists>z. fl_mul binary64 (Fin s) (Fin p) = Fin z \<and> 0 \<le> z \<and> z \<le> s"
  using assms by (auto intro!: rnd_mono_below simp: binary64_def mult_left_le)

section \<open>Properties\<close>

definition by_item :: "nat dedup" where
  "by_item = dedup_prefer (dedup_new (\<lambda>c. show_nat (c_item c))) (\<lambda>c. if c_source c = ''local'' then 0 else 1)"

definition dup_cands :: "nat candidate list" where
  "dup_cands = [candidate_new 7 ''remote'', candidate_new 8 ''remote'', candidate_new 7 ''local'']"

text \<open>
  C30: Deduplication keeps exactly one candidate of every key that occurs, it is a candidate that
  was there, and no candidate of the same key has a smaller priority value. So a caller that
  ranks local copies before remote ones always keeps a local copy where there is one.
\<close>

theorem dedup_keeps_preferred:
  "distinct (map (key_fn d) (dedup_apply d cs ctx))
    \<and> key_fn d ` set (dedup_apply d cs ctx) = key_fn d ` set cs
    \<and> set (dedup_apply d cs ctx) \<subseteq> set cs
    \<and> (\<forall>c \<in> set (dedup_apply d cs ctx). \<forall>c' \<in> set cs.
         key_fn d c' = key_fn d c \<longrightarrow> priority_fn d c \<le> priority_fn d c')"
  by (intro conjI ballI impI dedup_distinct dedup_keys dedup.filter_set)
    (rule dedup_preferred)

theorem dedup_keeps_preferred_witness:
  "dedup_apply by_item dup_cands () = [candidate_new 7 ''local'', candidate_new 8 ''remote'']
    \<and> distinct (map (key_fn by_item) (dedup_apply by_item dup_cands ()))
    \<and> priority_fn by_item (candidate_new 7 ''local'') \<le> priority_fn by_item (candidate_new 7 ''remote'')"
proof -
  have e: "dedup_apply by_item dup_cands () = [candidate_new 7 ''local'', candidate_new 8 ''remote'']"
    by code_simp
  have k: "key_fn by_item (candidate_new 7 ''remote'') = key_fn by_item (candidate_new 7 ''local'')"
    by (simp add: by_item_def dedup_prefer_def dedup_new_def candidate_new_def)
  show ?thesis using dedup_keeps_preferred [of by_item dup_cands "()"] k unfolding e by (simp add: dup_cands_def)
qed

text \<open>
  Diversity changes scores only, and each in one way: the first candidate of a key keeps its
  score, and every later one gets it multiplied once by the penalty, however many came before.
  With a penalty in \<open>[0, 1]\<close> no non-negative score grows, rounding included.
\<close>

theorem diversity_scores:
  assumes "i < length cs" "c_score (cs ! i) = Fin s" "representable binary64 s" "0 \<le> s"
    and "penalty d = Fin p" "0 \<le> p" "p \<le> 1"
  shows "map unscored (diversity_score d cs ctx) = map unscored cs
    \<and> c_score (diversity_score d cs ctx ! i) =
        (if div_key d (c_item (cs ! i)) \<in> (\<lambda>c. div_key d (c_item c)) ` set (take i cs)
         then fl_mul binary64 (Fin s) (Fin p) else Fin s)
    \<and> (\<exists>z. c_score (diversity_score d cs ctx ! i) = Fin z \<and> 0 \<le> z \<and> z \<le> s)"
  using diversity_nth [OF assms(1), of d ctx] mul_unit_le [OF assms(3,4,6,7)] assms(2,4,5)
  by (auto simp: diversity.scorer_frame)

theorem diversity_scores_witness:
  "c_score (diversity_score (diversity_new (Fin (1 / 2)) show_nat)
      (map (\<lambda>c. c\<lparr>c_score := Fin 3\<rparr>) dup_cands) () ! 2) = fl_mul binary64 (Fin 3) (Fin (1 / 2))"
proof -
  have r: "representable binary64 3" by code_simp
  show ?thesis
    using diversity_scores [of 2 "map (\<lambda>c. c\<lparr>c_score := Fin 3\<rparr>) dup_cands" 3
        "diversity_new (Fin (1 / 2)) show_nat" "1 / 2" "()"] r
    by (simp add: dup_cands_def candidate_new_def diversity_new_def numeral_2_eq_2)
qed

end
