(* ===== verification/Feed_Cursor.thy ===== *)
theory Feed_Cursor
  imports Feed_Sampler Rust_Str
begin

text \<open>
  Offset pagination: \<open>crates/feed/src/cursor.rs\<close> (\<open>Offset\<close>) and the server's own
  \<open>apps/server/src/feeds/engine.rs\<close> (\<open>paginate\<close>). Positions are \<open>usize\<close> on a 64-bit target: the
  first adds \<open>start + limit\<close> and subtracts \<open>end - start\<close> modulo \<open>2 ^ 64\<close> (a release build wraps),
  the second saturates. The locale \<open>pager\<close> is what a client that follows cursors relies on; both
  functions are interpretations, the first one only where the addition stays in range.
\<close>

section \<open>The code\<close>

record 'a page =
  p_items :: "'a list"
  p_cursor :: "string option"
  p_has_more :: bool

definition usize_add :: "nat \<Rightarrow> nat \<Rightarrow> nat" where
  "usize_add a b = (a + b) mod 2 ^ 64"

definition usize_sub :: "nat \<Rightarrow> nat \<Rightarrow> nat" where
  "usize_sub a b = (a + 2 ^ 64 - b) mod 2 ^ 64"

definition usize_saturating_add :: "nat \<Rightarrow> nat \<Rightarrow> nat" where
  "usize_saturating_add a b = min (a + b) usize_max"

text \<open>\<open>Offset::parse\<close>\<close>

definition offset_parse :: "string option \<Rightarrow> nat" where
  "offset_parse raw = unwrap_or (Option.bind raw parse_usize) 0"

text \<open>\<open>Offset::paginate\<close>\<close>

definition offset_paginate :: "nat \<Rightarrow> 'a list \<Rightarrow> nat \<Rightarrow> 'a page" where
  "offset_paginate offset items limit =
     (let len = length items;
          start = min offset len;
          stop = min (usize_add start limit) len;
          more = stop < len
      in \<lparr>p_items = take (usize_sub stop start) (drop start items),
          p_cursor = (if more then Some (show_nat stop) else None),
          p_has_more = more\<rparr>)"

text \<open>\<open>engine::paginate\<close>\<close>

definition engine_paginate :: "'a list \<Rightarrow> string option \<Rightarrow> nat \<Rightarrow> 'a page" where
  "engine_paginate items cursor limit =
     (let total = length items;
          offset = min (unwrap_or (Option.bind cursor parse_usize) 0) total;
          stop = min (usize_saturating_add offset limit) total;
          more = stop < total
      in \<lparr>p_items = take (stop - offset) (drop offset items),
          p_cursor = (if more then Some (show_nat stop) else None),
          p_has_more = more\<rparr>)"

section \<open>The contract of a pager\<close>

text \<open>The page of at most \<open>limit\<close> items from position \<open>k\<close> on.\<close>

definition slice_page :: "'a list \<Rightarrow> nat \<Rightarrow> nat \<Rightarrow> 'a page" where
  "slice_page xs k limit =
     \<lparr>p_items = take limit (drop k xs),
      p_cursor = (if k + limit < length xs then Some (show_nat (k + limit)) else None),
      p_has_more = k + limit < length xs\<rparr>"

text \<open>A client that asks for page after page, at most \<open>fuel\<close> of them.\<close>

fun follow :: "('a list \<Rightarrow> string option \<Rightarrow> nat \<Rightarrow> 'a page) \<Rightarrow> nat \<Rightarrow> 'a list \<Rightarrow> string option \<Rightarrow> nat
    \<Rightarrow> 'a page list" where
  "follow pg 0 xs cur limit = []"
| "follow pg (Suc n) xs cur limit =
     (let p = pg xs cur limit
      in p # (if p_has_more p then follow pg n xs (p_cursor p) limit else []))"

locale pager =
  fixes pg :: "'a list \<Rightarrow> string option \<Rightarrow> nat \<Rightarrow> 'a page"
    and fits :: "'a list \<Rightarrow> nat \<Rightarrow> bool"
  assumes first_page: "fits xs limit \<Longrightarrow> pg xs None limit = slice_page xs 0 limit"
    and next_page:
      "fits xs limit \<Longrightarrow> k \<le> length xs \<Longrightarrow> pg xs (Some (show_nat k)) limit = slice_page xs k limit"
begin

text \<open>The cursor of position \<open>k\<close>: none at the start is as good as the printed zero.\<close>

lemma follow_from:
  assumes "fits xs limit" "0 < limit" "length xs - k < n" "k \<le> length xs"
    "cur = Some (show_nat k) \<or> cur = None \<and> k = 0"
  shows "concat (map p_items (follow pg n xs cur limit)) = drop k xs
    \<and> \<not> p_has_more (last (follow pg n xs cur limit))"
  using assms(3-)
proof (induction n arbitrary: k cur)
  case (Suc n)
  have p: "pg xs cur limit = slice_page xs k limit"
    using Suc.prems(2,3) first_page [OF assms(1)] next_page [OF assms(1)] by auto
  show ?case
  proof (cases "k + limit < length xs")
    case True
    let ?cur = "Some (show_nat (k + limit))"
    have IH: "concat (map p_items (follow pg n xs ?cur limit)) = drop (k + limit) xs
      \<and> \<not> p_has_more (last (follow pg n xs ?cur limit))"
      by (rule Suc.IH) (use True Suc.prems assms(2) in auto)
    have ne: "follow pg n xs ?cur limit \<noteq> []"
      using True Suc.prems assms(2) by (cases n) (auto simp: Let_def)
    have "take limit (drop k xs) @ drop (k + limit) xs = drop k xs"
      by (metis add.commute append_take_drop_id drop_drop)
    with IH ne True show ?thesis by (simp add: p slice_page_def Let_def)
  next
    case False
    then show ?thesis by (simp add: p slice_page_def Let_def)
  qed
qed simp

lemma follow_all:
  assumes "fits xs limit" "0 < limit"
  shows "concat (map p_items (follow pg (Suc (length xs)) xs None limit)) = xs
    \<and> \<not> p_has_more (last (follow pg (Suc (length xs)) xs None limit))"
  using follow_from [OF assms, of 0 "Suc (length xs)" None] by simp

end

section \<open>Both paginations of the code\<close>

lemma usize_add_fits: "a + b \<le> usize_max \<Longrightarrow> usize_add a b = a + b"
  by (simp add: usize_add_def usize_max_def)

lemma usize_sub_fits: "b \<le> a \<Longrightarrow> a \<le> usize_max \<Longrightarrow> usize_sub a b = a - b"
  by (auto simp: usize_sub_def usize_max_def mod_if)

lemma offset_paginate_slice:
  assumes "length xs + limit \<le> usize_max"
  shows "offset_paginate k xs limit = slice_page xs (min k (length xs)) limit"
proof -
  let ?s = "min k (length xs)"
  have add: "usize_add ?s limit = ?s + limit" using assms by (intro usize_add_fits) simp
  have sub: "usize_sub (min (?s + limit) (length xs)) ?s = min limit (length xs - ?s)"
    using assms by (subst usize_sub_fits) auto
  have "take (min limit (length xs - ?s)) (drop ?s xs) = take limit (drop ?s xs)"
    by (cases "limit \<le> length xs - ?s") auto
  then show ?thesis
    unfolding offset_paginate_def Let_def add sub slice_page_def by (auto simp: min_def)
qed

lemma engine_paginate_slice:
  assumes "length xs \<le> usize_max"
  shows "engine_paginate xs cur limit
    = slice_page xs (min (unwrap_or (Option.bind cur parse_usize) 0) (length xs)) limit"
proof -
  let ?s = "min (unwrap_or (Option.bind cur parse_usize) 0) (length xs)"
  have add: "min (usize_saturating_add ?s limit) (length xs) = min (?s + limit) (length xs)"
    using assms by (simp add: usize_saturating_add_def)
  have "take (min (?s + limit) (length xs) - ?s) (drop ?s xs) = take limit (drop ?s xs)"
    by (cases "?s + limit \<le> length xs") auto
  then show ?thesis
    unfolding engine_paginate_def Let_def add slice_page_def by (auto simp: min_def)
qed

lemma parse_usize_position:
  "k \<le> length xs \<Longrightarrow> length xs \<le> usize_max \<Longrightarrow>
   min (unwrap_or (Option.bind (Some (show_nat k)) parse_usize) 0) (length xs) = k"
  by simp

interpretation offset: pager "\<lambda>xs cur. offset_paginate (offset_parse cur) xs"
    "\<lambda>xs limit. length xs + limit \<le> usize_max"
  by unfold_locales (simp_all add: offset_paginate_slice offset_parse_def)

interpretation engine: pager engine_paginate "\<lambda>xs limit. length xs \<le> usize_max"
  by unfold_locales (simp_all add: engine_paginate_slice)

text \<open>Where both are in range they are the same function.\<close>

lemma offset_engine:
  "length xs + limit \<le> usize_max \<Longrightarrow>
   offset_paginate (offset_parse cur) xs limit = engine_paginate xs cur limit"
  by (simp add: offset_paginate_slice engine_paginate_slice offset_parse_def)

section \<open>Properties\<close>

text \<open>
  C31: A client that starts without a cursor and follows the cursors the server's \<open>paginate\<close>
  hands out sees every item exactly once and in order, whatever positive page size it asks for;
  after at most one page per item, plus one, there is no next page.
\<close>

theorem engine_pages_partition:
  assumes "length xs \<le> usize_max" "0 < limit"
  shows "concat (map p_items (follow engine_paginate (Suc (length xs)) xs None limit)) = xs
    \<and> \<not> p_has_more (last (follow engine_paginate (Suc (length xs)) xs None limit))"
  using assms by (rule engine.follow_all)

theorem engine_pages_partition_witness:
  "concat (map p_items (follow engine_paginate (Suc (length ''hello'')) ''hello'' None 2)) = ''hello''"
proof -
  have "length ''hello'' \<le> usize_max" by (simp add: usize_max_def)
  then show ?thesis by (rule engine_pages_partition [THEN conjunct1]) simp
qed

text \<open>
  The same holds of the offset cursor of the feed library, and its page at any cursor is that
  of the server's \<open>paginate\<close>, as long as the number of items and the page size together stay
  within \<open>usize\<close>.
\<close>

theorem offset_pages_partition:
  assumes "length xs + limit \<le> usize_max" "0 < limit"
  shows "concat (map p_items (follow (\<lambda>xs cur. offset_paginate (offset_parse cur) xs) (Suc (length xs)) xs None limit)) = xs
    \<and> \<not> p_has_more (last (follow (\<lambda>xs cur. offset_paginate (offset_parse cur) xs) (Suc (length xs)) xs None limit))
    \<and> offset_paginate (offset_parse cur) xs limit = engine_paginate xs cur limit"
  using offset.follow_all [OF assms] offset_engine [OF assms(1)] by blast

theorem offset_pages_partition_witness:
  "offset_paginate (offset_parse (Some ''2'')) ''hello'' 2 = engine_paginate ''hello'' (Some ''2'') 2"
proof -
  have "length ''hello'' + 2 \<le> usize_max" by (simp add: usize_max_def)
  then show ?thesis by (rule offset_pages_partition [THEN conjunct2, THEN conjunct2]) simp
qed

text \<open>
  Beyond that bound the offset cursor goes wrong: asking from position 1 of two items for
  \<open>2 ^ 64 - 1\<close> more, the sum wraps to 0, the length \<open>end - start\<close> wraps to \<open>2 ^ 64 - 1\<close>, and the
  last page announces a next one and sends the client back to the start. The server's own
  \<open>paginate\<close>, which saturates, ends there.
\<close>

theorem offset_paginate_wraps:
  "offset_paginate 1 [a, b] usize_max = \<lparr>p_items = [b], p_cursor = Some ''0'', p_has_more = True\<rparr>
    \<and> engine_paginate [a, b] (Some ''1'') usize_max = \<lparr>p_items = [b], p_cursor = None, p_has_more = False\<rparr>"
proof -
  have "usize_add 1 usize_max = 0" "usize_sub 0 1 = usize_max" "usize_saturating_add 1 usize_max = usize_max"
    by (simp_all add: usize_add_def usize_sub_def usize_saturating_add_def usize_max_def)
  moreover have "parse_usize ''1'' = Some 1"
  proof -
    have "show_nat 1 = ''1''" by code_simp
    then show ?thesis using parse_usize_show [of 1] by (simp add: usize_max_def)
  qed
  moreover have "show_nat 0 = ''0''" by code_simp
  moreover have "take usize_max [b] = [b]" "take (usize_max - 1) [b] = [b]" "min usize_max 2 = 2"
    by (simp_all add: usize_max_def)
  ultimately show ?thesis
    by (simp add: offset_paginate_def engine_paginate_def Let_def)
qed

end
