(* ===== verification/Feed_Pipeline.thy ===== *)
theory Feed_Pipeline
  imports Feed_Stages Feed_Cursor
begin

text \<open>
  The feed pipeline, \<open>crates/feed/src/pipeline.rs\<close>: the builder and its methods, the collection
  of candidates with the group override and the fallback, and \<open>execute\<close>. A source is a name and
  what its \<open>collect\<close> returns for a limit (the futures of the sources are joined in the order of
  the sources, so their interleaving does not show in the result). Metrics and logging leave no
  trace in the result and are not modelled.
\<close>

section \<open>The pipeline and its builder\<close>

record 'i source =
  s_name :: string
  s_collect :: "nat \<Rightarrow> 'i candidate list"

record 'i source_spec =
  sp_source :: "'i source"
  sp_limit :: nat
  sp_override_group :: "string option"

record ('i, 'ctx) pipeline =
  pl_name :: string
  pl_sources :: "'i source_spec list"
  pl_fallback :: "'i source_spec list"
  pl_filters :: "('i, 'ctx) stage list"
  pl_scorers :: "('i, 'ctx) stage list"
  pl_sampler :: "'i pick"

record ('i, 'ctx) pipeline_builder =
  pb_name :: string
  pb_sources :: "'i source_spec list"
  pb_fallback :: "'i source_spec list"
  pb_filters :: "('i, 'ctx) stage list"
  pb_scorers :: "('i, 'ctx) stage list"
  pb_sampler :: "'i pick option"

definition builder_new :: "('i, 'ctx) pipeline_builder" where
  "builder_new = \<lparr>pb_name = ''unnamed'', pb_sources = [], pb_fallback = [], pb_filters = [],
     pb_scorers = [], pb_sampler = None\<rparr>"

definition builder_name :: "string \<Rightarrow> ('i, 'ctx) pipeline_builder \<Rightarrow> ('i, 'ctx) pipeline_builder" where
  "builder_name n b = b\<lparr>pb_name := n\<rparr>"

definition builder_source :: "'i source \<Rightarrow> nat \<Rightarrow> ('i, 'ctx) pipeline_builder \<Rightarrow> ('i, 'ctx) pipeline_builder" where
  "builder_source s limit b =
     b\<lparr>pb_sources := pb_sources b @ [\<lparr>sp_source = s, sp_limit = limit, sp_override_group = None\<rparr>]\<rparr>"

definition builder_sources :: "'i source list \<Rightarrow> nat \<Rightarrow> ('i, 'ctx) pipeline_builder \<Rightarrow> ('i, 'ctx) pipeline_builder" where
  "builder_sources ss limit b =
     b\<lparr>pb_sources := pb_sources b
         @ map (\<lambda>s. \<lparr>sp_source = s, sp_limit = limit, sp_override_group = None\<rparr>) ss\<rparr>"

definition builder_group :: "string \<Rightarrow> 'i source list \<Rightarrow> nat \<Rightarrow> ('i, 'ctx) pipeline_builder \<Rightarrow> ('i, 'ctx) pipeline_builder" where
  "builder_group g ss limit b =
     b\<lparr>pb_sources := pb_sources b
         @ map (\<lambda>s. \<lparr>sp_source = s, sp_limit = limit, sp_override_group = Some g\<rparr>) ss\<rparr>"

definition builder_fallback :: "'i source list \<Rightarrow> nat \<Rightarrow> ('i, 'ctx) pipeline_builder \<Rightarrow> ('i, 'ctx) pipeline_builder" where
  "builder_fallback ss limit b =
     b\<lparr>pb_fallback := pb_fallback b
         @ map (\<lambda>s. \<lparr>sp_source = s, sp_limit = limit, sp_override_group = Some ''_fallback''\<rparr>) ss\<rparr>"

definition builder_filter :: "('i, 'ctx) stage \<Rightarrow> ('i, 'ctx) pipeline_builder \<Rightarrow> ('i, 'ctx) pipeline_builder" where
  "builder_filter f b = b\<lparr>pb_filters := pb_filters b @ [f]\<rparr>"

definition builder_score :: "('i, 'ctx) stage \<Rightarrow> ('i, 'ctx) pipeline_builder \<Rightarrow> ('i, 'ctx) pipeline_builder" where
  "builder_score f b = b\<lparr>pb_scorers := pb_scorers b @ [f]\<rparr>"

definition builder_sampler :: "'i pick \<Rightarrow> ('i, 'ctx) pipeline_builder \<Rightarrow> ('i, 'ctx) pipeline_builder" where
  "builder_sampler p b = b\<lparr>pb_sampler := Some p\<rparr>"

definition builder_build :: "('i, 'ctx) pipeline_builder \<Rightarrow> ('i, 'ctx) pipeline" where
  "builder_build b = \<lparr>pl_name = pb_name b, pl_sources = pb_sources b, pl_fallback = pb_fallback b,
     pl_filters = pb_filters b, pl_scorers = pb_scorers b,
     pl_sampler = unwrap_or (pb_sampler b) topk_pick\<rparr>"

section \<open>Running a pipeline\<close>

record 'i pipeline_result =
  pr_items :: "'i candidate list"
  pr_collected :: nat

definition collect_spec :: "'i source_spec \<Rightarrow> 'i candidate list" where
  "collect_spec sp =
     (let batch = s_collect (sp_source sp) (sp_limit sp)
      in case sp_override_group sp of
           Some g \<Rightarrow> map (\<lambda>c. c\<lparr>c_group := g\<rparr>) batch
         | None \<Rightarrow> batch)"

definition collect :: "'i source_spec list \<Rightarrow> 'i candidate list" where
  "collect specs = concat (map collect_spec specs)"

text \<open>The candidate pool of a run: the main sources, and the fallback when they fall short.\<close>

definition gathered :: "('i, 'ctx) pipeline \<Rightarrow> nat \<Rightarrow> 'i candidate list" where
  "gathered p limit =
     (let candidates = collect (pl_sources p)
      in if pl_fallback p \<noteq> [] \<and> length candidates < limit div 2
         then candidates @ collect (pl_fallback p)
         else candidates)"

definition run_stages :: "('i, 'ctx) stage list \<Rightarrow> ('i, 'ctx) stage" where
  "run_stages fs cs ctx = fold (\<lambda>f cs. f cs ctx) fs cs"

definition execute :: "('i, 'ctx) pipeline \<Rightarrow> nat \<Rightarrow> 'ctx \<Rightarrow> 'i pipeline_result option" where
  "execute p limit ctx =
     (let filtered = run_stages (pl_filters p) (gathered p limit) ctx;
          candidates = run_stages (pl_scorers p) filtered ctx
      in map_option (\<lambda>items. \<lparr>pr_items = items, pr_collected = length (collect (pl_sources p))\<rparr>)
           (sample (pl_sampler p) candidates limit))"

definition result_paginate :: "'i pipeline_result \<Rightarrow> nat \<Rightarrow> nat \<Rightarrow> 'i candidate page" where
  "result_paginate r limit offset = offset_paginate offset (pr_items r) limit"

section \<open>Stages in sequence\<close>

lemma run_filters_sub:
  "list_all pool_filter fs \<Longrightarrow> mset (run_stages fs cs ctx) \<subseteq># mset cs"
proof (induction fs arbitrary: cs)
  case (Cons f fs)
  then have "mset (run_stages fs (f cs ctx) ctx) \<subseteq># mset (f cs ctx)" by simp
  also have "mset (f cs ctx) \<subseteq># mset cs" using Cons.prems by (simp add: pool_filter.filter_sub)
  finally show ?case by (simp add: run_stages_def)
qed (simp add: run_stages_def)

lemma run_scorers_frame:
  "list_all pool_scorer fs \<Longrightarrow> map unscored (run_stages fs cs ctx) = map unscored cs"
  by (induction fs arbitrary: cs) (simp_all add: run_stages_def pool_scorer.scorer_frame)

text \<open>A sequence of filters is a filter, a sequence of scorers a scorer.\<close>

lemma run_stages_filter: "list_all pool_filter fs \<Longrightarrow> pool_filter (run_stages fs)"
  by unfold_locales (rule run_filters_sub)

lemma run_stages_scorer: "list_all pool_scorer fs \<Longrightarrow> pool_scorer (run_stages fs)"
  by unfold_locales (rule run_scorers_frame)

section \<open>Groups\<close>

lemma collect_append [simp]: "collect (xs @ ys) = collect xs @ collect ys"
  by (simp add: collect_def)

lemma collect_override:
  "c \<in> set (collect specs) \<Longrightarrow> \<forall>sp \<in> set specs. sp_override_group sp = Some g \<Longrightarrow> c_group c = g"
  by (force simp: collect_def collect_spec_def Let_def)

text \<open>A pipeline whose components keep their contracts.\<close>

definition well_formed :: "('i, 'ctx) pipeline \<Rightarrow> bool" where
  "well_formed p \<longleftrightarrow> list_all pool_filter (pl_filters p) \<and> list_all pool_scorer (pl_scorers p)
     \<and> sampler (pl_sampler p)"

definition well_formed_builder :: "('i, 'ctx) pipeline_builder \<Rightarrow> bool" where
  "well_formed_builder b \<longleftrightarrow> list_all pool_filter (pb_filters b) \<and> list_all pool_scorer (pb_scorers b)
     \<and> (\<forall>p. pb_sampler b = Some p \<longrightarrow> sampler p)"

lemma build_well_formed: "well_formed_builder b \<Longrightarrow> well_formed (builder_build b)"
  by (cases "pb_sampler b")
    (auto simp: well_formed_def well_formed_builder_def builder_build_def topk.sampler_axioms)

lemma builder_well_formed [pool_intros]:
  "well_formed_builder builder_new"
  "well_formed_builder b \<Longrightarrow> well_formed_builder (builder_name n b)"
  "well_formed_builder b \<Longrightarrow> well_formed_builder (builder_source s l b)"
  "well_formed_builder b \<Longrightarrow> well_formed_builder (builder_sources ss l b)"
  "well_formed_builder b \<Longrightarrow> well_formed_builder (builder_group g ss l b)"
  "well_formed_builder b \<Longrightarrow> well_formed_builder (builder_fallback ss l b)"
  "well_formed_builder b \<Longrightarrow> pool_filter f \<Longrightarrow> well_formed_builder (builder_filter f b)"
  "well_formed_builder b \<Longrightarrow> pool_scorer s' \<Longrightarrow> well_formed_builder (builder_score s' b)"
  "well_formed_builder b \<Longrightarrow> sampler pk \<Longrightarrow> well_formed_builder (builder_sampler pk b)"
  by (simp_all add: well_formed_builder_def builder_new_def builder_name_def builder_source_def
      builder_sources_def builder_group_def builder_fallback_def builder_filter_def
      builder_score_def builder_sampler_def)

text \<open>
  A run of a well-formed pipeline returns, with as many items as are left after the filters, at
  most \<open>limit\<close>; apart from its score each item is one that was gathered.
\<close>

lemma execute_sound:
  assumes "well_formed p"
  shows "\<exists>r. execute p limit ctx = Some r
    \<and> length (pr_items r) = min limit (length (run_stages (pl_filters p) (gathered p limit) ctx))
    \<and> mset (map unscored (pr_items r)) \<subseteq># mset (map unscored (gathered p limit))"
proof -
  let ?f = "run_stages (pl_filters p) (gathered p limit) ctx"
  let ?s = "run_stages (pl_scorers p) ?f ctx"
  have parts: "sampler (pl_sampler p)" "pool_filter (run_stages (pl_filters p))"
      "pool_scorer (run_stages (pl_scorers p))"
    using assms by (simp_all add: well_formed_def run_stages_filter run_stages_scorer)
  obtain out where out: "sample (pl_sampler p) ?s limit = Some out"
    using sampler.sample_total [OF parts(1)] by blast
  have "mset (map unscored out) \<subseteq># mset (map unscored ?s)"
    using sampler.sample_sub [OF parts(1) out] by (simp add: image_mset_subseteq_mono)
  also have "map unscored ?s = map unscored ?f" by (rule pool_scorer.scorer_frame [OF parts(3)])
  also have "mset (map unscored ?f) \<subseteq># mset (map unscored (gathered p limit))"
    using pool_filter.filter_sub [OF parts(2), of "gathered p limit" ctx]
    by (simp add: image_mset_subseteq_mono)
  finally have "mset (map unscored out) \<subseteq># mset (map unscored (gathered p limit))" .
  moreover have "length out = min limit (length ?f)"
    using sampler.sample_length [OF parts(1) out] pool_scorer.scorer_length [OF parts(3), of ?f ctx]
    by simp
  ultimately show ?thesis using out by (simp add: execute_def Let_def)
qed

section \<open>Properties\<close>

definition letters :: "string \<Rightarrow> nat list \<Rightarrow> nat source" where
  "letters s xs = \<lparr>s_name = s, s_collect = (\<lambda>limit. map (\<lambda>x. candidate_new x s) (take limit xs))\<rparr>"

definition small_pipeline :: "(nat, unit) pipeline" where
  "small_pipeline =
     builder_build
       (builder_score (diversity_score (diversity_new (Fin (1 / 2)) show_nat))
         (builder_filter (dedup_apply (dedup_new (\<lambda>c. show_nat (c_item c))))
           (builder_fallback [letters ''trends'' [5, 6]] 10
             (builder_group ''network'' [letters ''net'' [1, 2, 1]] 10 builder_new))))"

lemma small_pipeline_well_formed: "well_formed small_pipeline"
  unfolding small_pipeline_def
  by (intro build_well_formed pool_intros dedup.pool_filter_axioms diversity.pool_scorer_axioms)

text \<open>
  C4: A pipeline whose filters only remove, whose scorers only rescore and whose sampler keeps
  its contract always returns, with at most \<open>limit\<close> items: exactly as many as are asked for or
  are left after the filters. Apart from its score every item is one the sources returned, none
  more often than it was gathered.
\<close>

theorem pipeline_execute:
  assumes "well_formed p"
  shows "\<exists>r. execute p limit ctx = Some r
    \<and> length (pr_items r) = min limit (length (run_stages (pl_filters p) (gathered p limit) ctx))
    \<and> mset (map unscored (pr_items r)) \<subseteq># mset (map unscored (gathered p limit))"
  using execute_sound [OF assms] .

theorem pipeline_execute_witness:
  "\<exists>r. execute small_pipeline 2 () = Some r \<and> length (pr_items r) = 2"
proof -
  have l: "length (run_stages (pl_filters small_pipeline) (gathered small_pipeline 2) ()) = 2"
    by code_simp
  show ?thesis using pipeline_execute [OF small_pipeline_well_formed, of 2 "()"] unfolding l by auto
qed

text \<open>
  The builder puts every candidate of a source registered with \<open>group\<close> into that group and
  every fallback candidate into \<open>"_fallback"\<close>, whatever group the source reports, and the
  fallback sources are consulted exactly when there are some and the main sources return fewer
  than half of the limit.
\<close>

theorem builder_groups:
  "(\<forall>c \<in> set (collect (drop (length (pb_sources b)) (pb_sources (builder_group g ss limit b)))). c_group c = g)
    \<and> gathered (builder_build (builder_fallback fs n b)) limit =
        (let main = collect (pb_sources b) in
         if (fs \<noteq> [] \<or> pb_fallback b \<noteq> []) \<and> length main < limit div 2
         then main @ collect (pb_fallback b)
                @ map (\<lambda>c. c\<lparr>c_group := ''_fallback''\<rparr>) (concat (map (\<lambda>s. s_collect s n) fs))
         else main)"
proof
  show "\<forall>c \<in> set (collect (drop (length (pb_sources b)) (pb_sources (builder_group g ss limit b)))). c_group c = g"
    by (rule ballI, rule collect_override [of _ _ g]) (auto simp: builder_group_def)
  have "collect (map (\<lambda>s. \<lparr>sp_source = s, sp_limit = n, sp_override_group = Some ''_fallback''\<rparr>) fs)
      = map (\<lambda>c. c\<lparr>c_group := ''_fallback''\<rparr>) (concat (map (\<lambda>s. s_collect s n) fs))"
    by (induction fs) (simp_all add: collect_def collect_spec_def Let_def)
  then show "gathered (builder_build (builder_fallback fs n b)) limit =
        (let main = collect (pb_sources b) in
         if (fs \<noteq> [] \<or> pb_fallback b \<noteq> []) \<and> length main < limit div 2
         then main @ collect (pb_fallback b)
                @ map (\<lambda>c. c\<lparr>c_group := ''_fallback''\<rparr>) (concat (map (\<lambda>s. s_collect s n) fs))
         else main)"
    by (auto simp: gathered_def builder_build_def builder_fallback_def Let_def)
qed

theorem builder_groups_witness:
  "c_group (hd (collect (pb_sources (builder_group ''network'' [letters ''net'' [1, 2]] 10
     (builder_new :: (nat, unit) pipeline_builder))))) = ''network''"
proof -
  let ?cs = "collect (pb_sources (builder_group ''network'' [letters ''net'' [1, 2]] 10
     (builder_new :: (nat, unit) pipeline_builder)))"
  have "?cs \<noteq> []"
    by (simp add: builder_group_def builder_new_def letters_def collect_def collect_spec_def)
  then show ?thesis
    using builder_groups [of "builder_new :: (nat, unit) pipeline_builder" "''network''"
        "[letters ''net'' [1, 2]]" 10 "[]" 0, THEN conjunct1]
    by (simp add: builder_new_def)
qed

end
