(* ===== verification/Common_Types.thy ===== *)
theory Common_Types
  imports Rust_Str
begin

text \<open>
  The shared data model of \<open>crates/common/src/types.rs\<close>. A struct is a record; \<open>Post\<close> contains
  posts (what it replies to, what it quotes), so it is a datatype around the record of its other
  fields. Instants (\<open>DateTime<Utc>\<close>) are microseconds since the epoch; \<open>i32\<close>, \<open>i64\<close>, \<open>u32\<close> and
  \<open>u64\<close> values that are only stored and copied are \<open>int\<close> and \<open>nat\<close>.
\<close>

type_synonym instant = int

record custom_emoji =
  ce_shortcode :: string
  ce_url :: string
  ce_static_url :: "string option"

record card_preview =
  cp_url :: string
  cp_title :: string
  cp_description :: string
  cp_link_type :: string
  cp_author_name :: "string option"
  cp_provider_name :: "string option"
  cp_image_url :: "string option"
  cp_image_width :: "int option"
  cp_image_height :: "int option"
  cp_blurhash :: "string option"
  cp_embed_url :: "string option"
  cp_embed_html :: "string option"

record author =
  au_handle :: string
  au_display_name :: string
  au_url :: string
  au_avatar_url :: "string option"
  au_header_url :: "string option"
  au_emojis :: "custom_emoji list"

record media =
  me_media_type :: string
  me_url :: string
  me_alt :: "string option"
  me_mime_type :: "string option"
  me_width :: "nat option"
  me_height :: "nat option"
  me_blurhash :: "string option"
  me_thumbnail_url :: "string option"

record engagement =
  en_replies :: nat
  en_reposts :: nat
  en_likes :: nat

definition engagement_default :: engagement where
  "engagement_default = \<lparr>en_replies = 0, en_reposts = 0, en_likes = 0\<rparr>"

record post_data =
  po_provider_id :: "int option"
  po_provider_domain :: "string option"
  po_url :: string
  po_uri :: "string option"
  po_content :: string
  po_text :: string
  po_author :: author
  po_published_at :: instant
  po_language :: "string option"
  po_sensitive :: bool
  po_content_warning :: "string option"
  po_media :: "media list"
  po_engagement :: engagement
  po_link :: "card_preview option"
  po_tags :: "string list"
  po_emojis :: "custom_emoji list"

datatype post = Post (post_of: post_data) (reply_to: "post option") (quote_of: "post option")

text \<open>Assignments to fields of a post.\<close>

definition update_post :: "(post_data \<Rightarrow> post_data) \<Rightarrow> post \<Rightarrow> post" where
  "update_post f p = Post (f (post_of p)) (reply_to p) (quote_of p)"

lemma update_post_sel [simp]:
  "post_of (update_post f p) = f (post_of p)"
  "reply_to (update_post f p) = reply_to p"
  "quote_of (update_post f p) = quote_of p"
  by (simp_all add: update_post_def)

record follow_edge =
  fo_follower_id :: string
  fo_followed_id :: string

datatype interaction_kind = KLike | KRepost | KReply

record interaction =
  in_actor_id :: string
  in_post_id :: string
  in_kind :: interaction_kind
  in_created_at :: instant

record tag_history =
  th_day :: string
  th_uses :: int
  th_accounts :: int

record tag =
  tg_name :: string
  tg_url :: string
  tg_history :: "tag_history list"

record link =
  li_url :: string
  li_title :: string
  li_description :: string
  li_link_type :: string
  li_author_name :: "string option"
  li_provider_name :: "string option"
  li_image_url :: "string option"
  li_image_width :: "int option"
  li_image_height :: "int option"
  li_blurhash :: "string option"
  li_embed_url :: "string option"
  li_embed_html :: "string option"
  li_post_count :: int
  li_account_count :: int

record provider =
  pv_domain :: string
  pv_base_url :: string
  pv_api_key :: string
  pv_max_results :: nat
  pv_supported_filters :: "string list"

datatype provider_status = Pending | Approved | Failed

fun provider_status_str :: "provider_status \<Rightarrow> string" where
  "provider_status_str Pending = ''pending''"
| "provider_status_str Approved = ''approved''"
| "provider_status_str Failed = ''failed''"

lemma provider_status_str_inject [simp]:
  "provider_status_str a = provider_status_str b \<longleftrightarrow> a = b"
  by (cases a; cases b) simp_all

end
