(* ===== verification/Policy.thy ===== *)
theory Policy
  imports Feed_Stages Common_Types
begin

text \<open>
  What a user blocked and muted: \<open>crates/state/src/policy.rs\<close> loads it, and the filter of
  \<open>crates/sources/src/mastodon/policy_filter.rs\<close> drops the posts it covers from a feed. The
  rows the queries return are parameters; a query that fails makes the load fail.
\<close>

section \<open>Loading\<close>

record user_policy =
  blocked_handles :: "string set"
  muted_handles :: "string set"
  blocked_domains :: "string set"

definition policy_default :: user_policy where
  "policy_default = \<lparr>blocked_handles = {}, muted_handles = {}, blocked_domains = {}\<rparr>"

definition policy_is_empty :: "user_policy \<Rightarrow> bool" where
  "policy_is_empty p \<longleftrightarrow> blocked_handles p = {} \<and> muted_handles p = {}
     \<and> blocked_domains p = {}"

text \<open>A row of \<open>BLOCKS_QUERY\<close> or \<open>MUTES_QUERY\<close> is a username and the domain of a remote account.\<close>

type_synonym handle_row = "string \<times> string option"

definition row_handle :: "string \<Rightarrow> handle_row \<Rightarrow> string" where
  "row_handle instance_domain row =
     (case row of (username, Some d) \<Rightarrow> username @ ''@'' @ d
                | (username, None) \<Rightarrow> username @ ''@'' @ instance_domain)"

definition load_handles :: "string \<Rightarrow> 'e + handle_row list \<Rightarrow> 'e + string set" where
  "load_handles instance_domain rows =
     (case rows of Inl e \<Rightarrow> Inl e | Inr rs \<Rightarrow> Inr (set (map (row_handle instance_domain) rs)))"

definition load_blocked_domains :: "'e + string list \<Rightarrow> 'e + string set" where
  "load_blocked_domains rows = (case rows of Inl e \<Rightarrow> Inl e | Inr rs \<Rightarrow> Inr (set rs))"

text \<open>
  \<open>load\<close>: the three queries run concurrently under \<open>try_join!\<close>; here the first error in the
  order of the queries is the one returned.
\<close>

definition load_policy :: "string \<Rightarrow> 'e + handle_row list \<Rightarrow> 'e + handle_row list \<Rightarrow> 'e + string list
    \<Rightarrow> 'e + user_policy" where
  "load_policy instance_domain blocks mutes domains =
     (case load_handles instance_domain blocks of Inl e \<Rightarrow> Inl e | Inr b \<Rightarrow>
      case load_handles instance_domain mutes of Inl e \<Rightarrow> Inl e | Inr m \<Rightarrow>
      case load_blocked_domains domains of Inl e \<Rightarrow> Inl e | Inr d \<Rightarrow>
      Inr \<lparr>blocked_handles = b, muted_handles = m, blocked_domains = d\<rparr>)"

section \<open>Filtering\<close>

record policy_filter =
  pf_policy :: user_policy
  pf_apply_mutes :: bool

definition policy_filter_new :: "user_policy \<Rightarrow> policy_filter" where
  "policy_filter_new p = \<lparr>pf_policy = p, pf_apply_mutes = True\<rparr>"

definition without_mutes :: "policy_filter \<Rightarrow> policy_filter" where
  "without_mutes f = f\<lparr>pf_apply_mutes := False\<rparr>"

text \<open>The closure of \<open>retain\<close>; \<open>rsplit('@').next()\<close> is the last piece.\<close>

definition policy_allows :: "policy_filter \<Rightarrow> post \<Rightarrow> bool" where
  "policy_allows f p =
     (let handle = trim_start_char CHR ''@'' (au_handle (po_author (post_of p))) in
      if handle \<in> blocked_handles (pf_policy f) then False
      else if pf_apply_mutes f \<and> handle \<in> muted_handles (pf_policy f) then False
      else if last (split_char CHR ''@'' handle) \<in> blocked_domains (pf_policy f) then False
      else True)"

definition policy_apply :: "policy_filter \<Rightarrow> (post, 'ctx) stage" where
  "policy_apply f cs ctx =
     (if policy_is_empty (pf_policy f) then cs else filter (\<lambda>c. policy_allows f (c_item c)) cs)"

lemma policy_is_empty_allows: "policy_is_empty (pf_policy f) \<Longrightarrow> policy_allows f p"
  by (simp add: policy_is_empty_def policy_allows_def Let_def)

text \<open>The early return for an empty policy changes nothing.\<close>

lemma policy_apply_filter: "policy_apply f cs ctx = filter (\<lambda>c. policy_allows f (c_item c)) cs"
  by (auto simp: policy_apply_def policy_is_empty_allows intro!: filter_True [symmetric])

interpretation policy: pool_filter "policy_apply f" for f
  by unfold_locales (simp add: policy_apply_filter)

section \<open>Accounts and domains\<close>

text \<open>The handle of a post without its leading at-signs, and the domain it ends with.\<close>

definition acct :: "post \<Rightarrow> string" where
  "acct p = trim_start_char CHR ''@'' (au_handle (po_author (post_of p)))"

lemma last_split_char:
  "c \<notin> set d \<Longrightarrow> last (split_char c (u @ c # d)) = d"
proof (induction u)
  case Nil
  then show ?case by (simp add: split_char_none)
next
  case (Cons x u)
  obtain q qs where "split_char c (u @ c # d) = q # qs"
    by (cases "split_char c (u @ c # d)") auto
  moreover have "qs \<noteq> []" if "x \<noteq> c"
  proof
    assume "qs = []"
    then have "join [c] (split_char c (u @ c # d)) = q" using calculation by simp
    then have "u @ c # d = q" by simp
    moreover have "c \<notin> set q"
      using \<open>split_char c (u @ c # d) = q # qs\<close> by (metis list.set_intros(1) split_char_pieces)
    ultimately show False by auto
  qed
  ultimately show ?case using Cons by auto
qed

lemma policy_allows_iff:
  "policy_allows f p \<longleftrightarrow> acct p \<notin> blocked_handles (pf_policy f)
     \<and> (pf_apply_mutes f \<longrightarrow> acct p \<notin> muted_handles (pf_policy f))
     \<and> last (split_char CHR ''@'' (acct p)) \<notin> blocked_domains (pf_policy f)"
  by (simp add: policy_allows_def acct_def Let_def)

lemma load_policy_Inr:
  "load_policy inst blocks mutes domains = Inr p \<longleftrightarrow>
   (\<exists>bs ms ds. blocks = Inr bs \<and> mutes = Inr ms \<and> domains = Inr ds
     \<and> p = \<lparr>blocked_handles = row_handle inst ` set bs, muted_handles = row_handle inst ` set ms,
            blocked_domains = set ds\<rparr>)"
  by (auto simp: load_policy_def load_handles_def load_blocked_domains_def split: sum.splits)

section \<open>Properties\<close>

text \<open>
  C25: After the policy of a user is loaded, the filter built on it removes exactly the posts of
  accounts the user blocked (or muted, unless mutes are off) and of domains the user blocked,
  and keeps all others in their order. So no post by a blocked local or remote account passes,
  with or without a leading at-sign in its handle.
\<close>

theorem policy_filter_exact:
  assumes "load_policy inst (Inr blocks) (Inr mutes) (Inr domains) = Inr p"
  shows "policy_apply f cs ctx = filter (\<lambda>c. policy_allows f (c_item c)) cs
    \<and> (policy_allows (policy_filter_new p) q \<longleftrightarrow>
         acct q \<notin> row_handle inst ` (set blocks \<union> set mutes)
         \<and> last (split_char CHR ''@'' (acct q)) \<notin> set domains)
    \<and> (policy_allows (without_mutes (policy_filter_new p)) q \<longleftrightarrow>
         acct q \<notin> row_handle inst ` set blocks
         \<and> last (split_char CHR ''@'' (acct q)) \<notin> set domains)"
  using assms
  by (auto simp: load_policy_Inr policy_apply_filter policy_allows_iff policy_filter_new_def without_mutes_def)

definition post_by :: "string \<Rightarrow> post" where
  "post_by h = Post \<lparr>po_provider_id = None, po_provider_domain = None, po_url = h, po_uri = None,
     po_content = [], po_text = [],
     po_author = \<lparr>au_handle = h, au_display_name = [], au_url = [], au_avatar_url = None,
       au_header_url = None, au_emojis = []\<rparr>,
     po_published_at = 0, po_language = None, po_sensitive = False, po_content_warning = None,
     po_media = [], po_engagement = engagement_default, po_link = None, po_tags = [], po_emojis = []\<rparr>
     None None"

theorem policy_filter_exact_witness:
  "\<exists>p. load_policy ''a.test'' (Inr [(''bob'', None)]) (Inr [(''eve'', Some ''b.test'')]) (Inr [''spam.test'']) = (Inr p :: nat + user_policy)
    \<and> \<not> policy_allows (policy_filter_new p) (post_by ''@bob@a.test'')
    \<and> \<not> policy_allows (policy_filter_new p) (post_by ''eve@b.test'')
    \<and> policy_allows (without_mutes (policy_filter_new p)) (post_by ''eve@b.test'')
    \<and> \<not> policy_allows (policy_filter_new p) (post_by ''x@spam.test'')"
proof -
  obtain p where p: "load_policy ''a.test'' (Inr [(''bob'', None)]) (Inr [(''eve'', Some ''b.test'')]) (Inr [''spam.test'']) = (Inr p :: nat + user_policy)"
    by (auto simp: load_policy_def load_handles_def load_blocked_domains_def)
  have a: "acct (post_by ''@bob@a.test'') = ''bob@a.test''" "acct (post_by ''eve@b.test'') = ''eve@b.test''"
      "acct (post_by ''x@spam.test'') = ''x@spam.test''"
    by (simp_all add: acct_def post_by_def trim_start_char_def)
  show ?thesis
    using p policy_filter_exact [OF p, of _ "[]" "()" "post_by ''@bob@a.test''"]
      policy_filter_exact [OF p, of _ "[]" "()" "post_by ''eve@b.test''"]
      policy_filter_exact [OF p, of _ "[]" "()" "post_by ''x@spam.test''"]
    by (auto simp: a row_handle_def)
qed

end
