(* ===== verification/Paperclip.thy ===== *)
theory Paperclip
  imports Rust_Str
begin

text \<open>
  \<open>crates/common/src/paperclip.rs\<close>: the URLs under which Mastodon stores its media. The
  partition of an id prints it with at least nine digits (the sign counts), keeps the first
  eighteen bytes, and cuts them into pieces of three.
\<close>

section \<open>The id partition\<close>

text \<open>\<open>format!("{id:09}")\<close>: zeros go between the sign and the digits.\<close>

definition pad9 :: "int \<Rightarrow> string" where
  "pad9 i = (if i < 0 then CHR ''-'' # (let d = show_nat (nat (- i)) in replicate (8 - length d) CHR ''0'' @ d)
             else (let d = show_nat (nat i) in replicate (9 - length d) CHR ''0'' @ d))"

fun chunks3 :: "string \<Rightarrow> string list" where
  "chunks3 [] = []"
| "chunks3 [a] = [[a]]"
| "chunks3 [a, b] = [[a, b]]"
| "chunks3 (a # b # c # s) = [a, b, c] # chunks3 s"

definition id_partition :: "int \<Rightarrow> string" where
  "id_partition i = (let s = pad9 i in join ''/'' (chunks3 (take (min (length s) 18) s)))"

section \<open>The URLs\<close>

record media_config =
  mc_host :: string
  mc_s3_enabled :: bool

definition media_config_new :: "string \<Rightarrow> bool \<Rightarrow> media_config" where
  "media_config_new h s3 = \<lparr>mc_host = h, mc_s3_enabled = s3\<rparr>"

definition build_file_url :: "media_config \<Rightarrow> string \<Rightarrow> string \<Rightarrow> int \<Rightarrow> string \<Rightarrow> bool \<Rightarrow> string \<Rightarrow> string" where
  "build_file_url cfg cls attachment i file_name cached style =
     (let partition = id_partition i in
      if mc_s3_enabled cfg
      then (let cache_prefix = if cached then ''cache/'' else ''''
            in ''https://'' @ mc_host cfg @ ''/'' @ cache_prefix @ cls @ ''/'' @ attachment @ ''/''
                 @ partition @ ''/'' @ style @ ''/'' @ file_name)
      else ''https://'' @ mc_host cfg @ ''/system/'' @ cls @ ''/'' @ attachment @ ''/''
                 @ partition @ ''/'' @ style @ ''/'' @ file_name)"

definition attachment_url :: "media_config \<Rightarrow> string \<Rightarrow> int \<Rightarrow> string option \<Rightarrow> string option \<Rightarrow> bool \<Rightarrow> string" where
  "attachment_url cfg attachment account_id file_name remote_url cached =
     (case file_name of
        Some name \<Rightarrow> build_file_url cfg ''accounts'' attachment account_id name cached ''original''
      | None \<Rightarrow> (case remote_url of
            Some remote \<Rightarrow> remote
          | None \<Rightarrow> ''https://'' @ mc_host cfg @ ''/'' @ attachment @ ''/original/missing.png''))"

definition avatar_url :: "media_config \<Rightarrow> int \<Rightarrow> string option \<Rightarrow> string option \<Rightarrow> bool \<Rightarrow> string" where
  "avatar_url cfg = attachment_url cfg ''avatars''"

definition header_url :: "media_config \<Rightarrow> int \<Rightarrow> string option \<Rightarrow> string option \<Rightarrow> bool \<Rightarrow> string" where
  "header_url cfg = attachment_url cfg ''headers''"

definition media_attachment_url :: "media_config \<Rightarrow> int \<Rightarrow> string option \<Rightarrow> string option \<Rightarrow> bool \<Rightarrow> string option" where
  "media_attachment_url cfg media_id file_name remote_url cached =
     (case file_name of
        Some name \<Rightarrow>
          Some (build_file_url cfg ''media_attachments'' ''files'' media_id name cached ''original'')
      | None \<Rightarrow> remote_url)"

definition media_thumbnail_url :: "media_config \<Rightarrow> int \<Rightarrow> string option \<Rightarrow> bool \<Rightarrow> string option" where
  "media_thumbnail_url cfg media_id thumbnail_file_name cached =
     map_option (\<lambda>name. build_file_url cfg ''media_attachments'' ''files'' media_id name cached ''small'')
       thumbnail_file_name"

definition preview_card_image_url :: "media_config \<Rightarrow> int \<Rightarrow> string option \<Rightarrow> bool \<Rightarrow> string option" where
  "preview_card_image_url cfg card_id file_name cached =
     map_option (\<lambda>name. build_file_url cfg ''preview_cards'' ''images'' card_id name cached ''original'')
       file_name"

definition custom_emoji_url :: "media_config \<Rightarrow> int \<Rightarrow> string option \<Rightarrow> string option \<Rightarrow> bool \<Rightarrow> string option" where
  "custom_emoji_url cfg emoji_id file_name remote_url cached =
     (case file_name of
        Some name \<Rightarrow>
          Some (build_file_url cfg ''custom_emojis'' ''images'' emoji_id name cached ''original'')
      | None \<Rightarrow> remote_url)"

section \<open>What the partition determines\<close>

lemma concat_chunks3 [simp]: "concat (chunks3 s) = s"
  by (induction s rule: chunks3.induct) simp_all

lemma chunks3_piece:
  "p \<in> set (chunks3 s) \<Longrightarrow> set p \<subseteq> set s \<and> p \<noteq> []"
  by (induction s rule: chunks3.induct) auto

text \<open>A separator that occurs in no piece can be taken out again.\<close>

lemma split_join:
  "ps \<noteq> [] \<Longrightarrow> \<forall>p \<in> set ps. c \<notin> set p \<Longrightarrow> split_char c (join [c] ps) = ps"
proof (induction ps)
  case (Cons p ps)
  then show ?case
    by (cases ps) (simp_all add: split_char_none split_char_append)
qed simp

definition unpartition :: "string \<Rightarrow> string" where
  "unpartition s = concat (split_char CHR ''/'' s)"

lemma unpartition_join:
  assumes "CHR ''/'' \<notin> set s" "s \<noteq> []"
  shows "unpartition (join ''/'' (chunks3 s)) = s"
proof -
  have "chunks3 s \<noteq> []" using assms(2) by (metis concat.simps(1) concat_chunks3)
  moreover have "\<forall>p \<in> set (chunks3 s). CHR ''/'' \<notin> set p" using assms(1) chunks3_piece by blast
  ultimately show ?thesis by (simp add: unpartition_def split_join)
qed

lemma length_show_nat: "n < 10 ^ k \<Longrightarrow> 0 < k \<Longrightarrow> length (show_nat n) \<le> k"
proof (induction k arbitrary: n)
  case (Suc k)
  show ?case
  proof (cases "n < 10")
    case False
    then have "n div 10 < 10 ^ k" using Suc.prems by simp
    moreover have "0 < k" using False Suc.prems by (cases k) auto
    ultimately have "length (show_nat (n div 10)) \<le> k" by (rule Suc.IH)
    then show ?thesis using False by (subst show_nat.simps) simp
  qed (subst show_nat.simps, simp)
qed simp

lemma show_nat_no_slash: "CHR ''/'' \<notin> set (show_nat n)"
proof
  assume "CHR ''/'' \<in> set (show_nat n)"
  then obtain d where "d < 10" "CHR ''/'' = digit_char d" using show_nat_digits by blast
  moreover have "digit_val CHR ''/'' = None" by (simp add: digit_val_def)
  ultimately show False using digit_val_digit_char [of d] by simp
qed

lemma parse_zeros: "parse_digits_from 0 (replicate k CHR ''0'' @ s) = parse_digits_from 0 s"
  by (induction k) (simp_all add: digit_val_def)

lemma pad9_no_slash: "CHR ''/'' \<notin> set (pad9 i)"
  using show_nat_no_slash by (auto simp: pad9_def Let_def)

lemma pad9_not_Nil: "pad9 i \<noteq> []"
  by (auto simp: pad9_def Let_def)

lemma parse_pad9: "0 \<le> i \<Longrightarrow> parse_digits (pad9 i) = Some (nat i)"
  by (simp add: pad9_def Let_def parse_digits_def parse_zeros parse_show_nat_from)

lemma length_pad9: "0 \<le> i \<Longrightarrow> i < 10 ^ 18 \<Longrightarrow> length (pad9 i) \<le> 18"
  using length_show_nat [of "nat i" 18] by (auto simp: pad9_def Let_def nat_less_iff)

text \<open>Up to eighteen digits the partition can be read back.\<close>

lemma unpartition_id:
  assumes "0 \<le> i" "i < 10 ^ 18"
  shows "parse_digits (unpartition (id_partition i)) = Some (nat i)"
proof -
  have "unpartition (id_partition i) = pad9 i"
    using length_pad9 [OF assms] unpartition_join [OF pad9_no_slash pad9_not_Nil, of i]
    by (simp add: id_partition_def Let_def)
  then show ?thesis using parse_pad9 [OF assms(1)] by simp
qed

lemma id_partition_inj:
  assumes "0 \<le> i" "i < 10 ^ 18" "0 \<le> j" "j < 10 ^ 18" "id_partition i = id_partition j"
  shows "i = j"
  using unpartition_id [OF assms(1,2)] unpartition_id [OF assms(3,4)] assms by simp

section \<open>Properties\<close>

text \<open>
  Up to eighteen digits the partition of an id determines the id, so the stored files of two
  objects of one class never share a path. Beyond that it does not: the partition keeps eighteen
  digits only, and two ids of nineteen digits that differ in the last one get the same path.
\<close>

theorem id_partition_faithful:
  "(\<forall>i j. 0 \<le> i \<and> i < 10 ^ 18 \<and> 0 \<le> j \<and> j < 10 ^ 18 \<and> id_partition i = id_partition j \<longrightarrow> i = j)
    \<and> id_partition 1000000000000000001 = id_partition 1000000000000000002"
proof
  show "\<forall>i j. 0 \<le> i \<and> i < 10 ^ 18 \<and> 0 \<le> j \<and> j < 10 ^ 18 \<and> id_partition i = id_partition j \<longrightarrow> i = j"
    using id_partition_inj by blast
  show "id_partition 1000000000000000001 = id_partition 1000000000000000002"
    by (simp add: id_partition_def pad9_def Let_def str_simps)
qed

theorem id_partition_faithful_witness:
  "id_partition 12345 = ''000/012/345'' \<and> id_partition 12345 \<noteq> id_partition 12346"
proof -
  have "id_partition 12345 = ''000/012/345''"
  proof -
    have "pad9 12345 = replicate 4 CHR ''0'' @ ''12345''"
      by (simp add: pad9_def Let_def str_simps)
    also have "\<dots> = ''000012345''" by code_simp
    finally show ?thesis by (simp add: id_partition_def Let_def)
  qed
  then show ?thesis using id_partition_faithful [THEN conjunct1, rule_format, of 12345 12346] by auto
qed

end
