(* ===== verification/Json.thy ===== *)
theory Json
  imports Rust_Float Rust_Str
begin

text \<open>
  JSON values as \<open>serde_json::Value\<close> has them. An object is the list of its members; the code
  reads and writes members by key, so their order has no meaning.
\<close>

datatype json =
    JNull
  | JBool bool
  | JInt int
  | JFloat fl
  | JStr string
  | JArr "json list"
  | JObj "(string \<times> json) list"

text \<open>\<open>value.get(key)\<close>, and \<open>value[key] = v\<close> on an object (null becomes one; else a panic).\<close>

fun json_get :: "json \<Rightarrow> string \<Rightarrow> json option" where
  "json_get (JObj ms) k = map_of ms k"
| "json_get _ k = None"

fun members_set :: "(string \<times> json) list \<Rightarrow> string \<Rightarrow> json \<Rightarrow> (string \<times> json) list" where
  "members_set [] k v = [(k, v)]"
| "members_set ((k', v') # ms) k v = (if k' = k then (k, v) # ms else (k', v') # members_set ms k v)"

fun json_set :: "json \<Rightarrow> string \<Rightarrow> json \<Rightarrow> json option" where
  "json_set (JObj ms) k v = Some (JObj (members_set ms k v))"
| "json_set JNull k v = Some (JObj [(k, v)])"
| "json_set _ k v = None"

lemma map_of_members_set [json_simps]: "map_of (members_set ms k v) = (map_of ms)(k \<mapsto> v)"
  by (induction ms) auto

fun opt_json :: "('a \<Rightarrow> json) \<Rightarrow> 'a option \<Rightarrow> json" where
  "opt_json f None = JNull"
| "opt_json f (Some x) = f x"

text \<open>A field with \<open>skip_serializing_if\<close> is a member only when its condition does not hold.\<close>

definition member_unless :: "bool \<Rightarrow> string \<Rightarrow> json \<Rightarrow> (string \<times> json) list" where
  "member_unless skip k v = (if skip then [] else [(k, v)])"

end
