(* ===== verification/Commonfeed.thy ===== *)
theory Commonfeed
  imports Feed_Pipeline Common_Types Json
begin

text \<open>
  The client of \<open>CommonFeed\<close> providers, \<open>crates/sources/src/commonfeed\<close>: the wire types
  (\<open>types.rs\<close>), the request (\<open>mod.rs\<close>), and the sources of posts, links, tags and recommended
  posts with their conversions into candidates. The HTTP exchange is a parameter: it maps a
  request to no response at all, or to a status with the body as the JSON reader parsed it.
\<close>

section \<open>Wire types\<close>

record pagination =
  pg_cursor :: "string option"
  pg_has_more :: bool

record size_variant =
  sv_url :: string
  sv_width :: "int option"
  sv_height :: "int option"
  sv_mime_type :: "string option"

record sizes =
  sz_small :: "size_variant option"
  sz_medium :: "size_variant option"
  sz_large :: size_variant

record image_object =
  im_sizes :: sizes
  im_blurhash :: "string option"

record media_original =
  mo_width :: int
  mo_height :: int

record emoji_result =
  er_shortcode :: string
  er_url :: string
  er_static_url :: "string option"

record engagement_result =
  eg_likes :: "int option"
  eg_reposts :: "int option"
  eg_replies :: "int option"

record author_result =
  ar_name :: string
  ar_handle :: string
  ar_url :: string
  ar_avatar :: "image_object option"
  ar_emojis :: "emoji_result list option"

record media_result =
  mr_media_type :: string
  mr_alt :: "string option"
  mr_image :: "image_object option"
  mr_original :: "media_original option"
  mr_sizes :: "sizes option"
  mr_poster :: "image_object option"

record link_preview_result =
  lp_url :: string
  lp_title :: string
  lp_description :: string
  lp_link_type :: string
  lp_image :: "image_object option"
  lp_provider_name :: "string option"
  lp_author_name :: "string option"
  lp_embed_html :: "string option"
  lp_embed_url :: "string option"

record post_tag_result =
  pt_name :: string

record post_result_data =
  rs_id :: "int option"
  rs_url :: string
  rs_protocol :: string
  rs_identifiers :: "string \<rightharpoonup> string"
  rs_content_type :: string
  rs_content :: string
  rs_text :: string
  rs_author :: author_result
  rs_timestamp :: instant
  rs_language :: "string option"
  rs_sensitive :: "bool option"
  rs_content_warning :: "string option"
  rs_media :: "media_result list option"
  rs_engagement :: "engagement_result option"
  rs_link :: "link_preview_result option"
  rs_tags :: "post_tag_result list option"
  rs_emojis :: "emoji_result list option"
  rs_score :: "fl option"

datatype post_result =
  PostResult (result_of: post_result_data) (result_reply_to: "post_result option")
    (result_quote: "post_result option")

record query_response =
  qr_results :: "post_result list"
  qr_pagination :: pagination

record tag_history_item =
  hi_day :: string
  hi_uses :: int
  hi_accounts :: int

record tag_result =
  tr_name :: string
  tr_post_count :: int
  tr_account_count :: int
  tr_history :: "tag_history_item list option"
  tr_score :: "fl option"

record tag_response =
  tp_results :: "tag_result list"
  tp_pagination :: pagination

record link_result =
  lr_url :: string
  lr_title :: string
  lr_description :: string
  lr_link_type :: string
  lr_image :: "image_object option"
  lr_provider_name :: "string option"
  lr_author_name :: "string option"
  lr_embed_html :: "string option"
  lr_embed_url :: "string option"
  lr_language :: "string option"
  lr_published_at :: "instant option"
  lr_favicon :: "image_object option"
  lr_post_count :: int
  lr_account_count :: int
  lr_score :: "fl option"

record link_response =
  lo_results :: "link_result list"
  lo_pagination :: pagination

record embedding_request =
  em_vector :: "fl list"
  em_model :: string

record query_filters =
  qf_language :: "string list"
  qf_tag :: "string option"
  qf_link :: "string option"

definition query_filters_default :: query_filters where
  "query_filters_default = \<lparr>qf_language = [], qf_tag = None, qf_link = None\<rparr>"

definition for_provider :: "query_filters \<Rightarrow> string list \<Rightarrow> query_filters" where
  "for_provider f supported =
     \<lparr>qf_language = (if list_ex (\<lambda>s. s = ''language'') supported then qf_language f else []),
      qf_tag = (if list_ex (\<lambda>s. s = ''tag'') supported then qf_tag f else None),
      qf_link = (if list_ex (\<lambda>s. s = ''link'') supported then qf_link f else None)\<rparr>"

section \<open>The request\<close>

definition query_filters_json :: "query_filters \<Rightarrow> json" where
  "query_filters_json f = JObj (
     member_unless (qf_language f = []) ''language'' (JArr (map JStr (qf_language f)))
     @ member_unless (qf_tag f = None) ''tag'' (opt_json JStr (qf_tag f))
     @ member_unless (qf_link f = None) ''link'' (opt_json JStr (qf_link f)))"

text \<open>\<open>to_value\<close> writes a float that is not finite as null.\<close>

fun float_json :: "fl \<Rightarrow> json" where
  "float_json (Fin q) = JFloat (Fin q)"
| "float_json _ = JNull"

definition embedding_json :: "embedding_request \<Rightarrow> json" where
  "embedding_json e = JObj [(''vector'', JArr (map float_json (em_vector e))), (''model'', JStr (em_model e))]"

text \<open>The body \<open>fetch_json\<close> sends: members are added to an object, so no update fails.\<close>

definition fetch_body :: "provider \<Rightarrow> query_filters \<Rightarrow> embedding_request option \<Rightarrow> nat \<Rightarrow> json" where
  "fetch_body pv filters embedding limit =
     (let request_limit = min limit (pv_max_results pv);
          body = [(''limit'', JInt (int request_limit)), (''cursor'', JNull)];
          body = (case embedding of Some e \<Rightarrow> members_set body ''embedding'' (embedding_json e) | None \<Rightarrow> body);
          fs = query_filters_json (for_provider filters (pv_supported_filters pv))
      in JObj (if fs \<noteq> JObj [] then members_set body ''filters'' fs else body))"

record http_request =
  hr_url :: string
  hr_bearer :: string
  hr_body :: json

datatype 'r http_response = Send_Failed | Response (status: nat) (parsed: "'r option")

definition fetch_request :: "provider \<Rightarrow> string \<Rightarrow> string \<Rightarrow> query_filters \<Rightarrow> embedding_request option
    \<Rightarrow> nat \<Rightarrow> http_request" where
  "fetch_request pv resource algorithm filters embedding limit =
     \<lparr>hr_url = pv_base_url pv @ ''/'' @ resource @ ''/'' @ algorithm,
      hr_bearer = pv_api_key pv, hr_body = fetch_body pv filters embedding limit\<rparr>"

text \<open>The result with the outcome that \<open>observe::source_fetched\<close> reports.\<close>

definition read_response :: "'r http_response \<Rightarrow> 'r option \<times> string" where
  "read_response resp =
     (case resp of
        Send_Failed \<Rightarrow> (None, ''network_error'')
      | Response st body \<Rightarrow>
          if \<not> (200 \<le> st \<and> st < 300)
          then (None, if 400 \<le> st \<and> st < 500 then ''client_error'' else ''server_error'')
          else (case body of Some r \<Rightarrow> (Some r, ''success'') | None \<Rightarrow> (None, ''parse_error'')))"

definition fetch_json :: "(http_request \<Rightarrow> 'r http_response) \<Rightarrow> provider \<Rightarrow> string \<Rightarrow> string \<Rightarrow> query_filters
    \<Rightarrow> embedding_request option \<Rightarrow> nat \<Rightarrow> 'r option" where
  "fetch_json send pv resource algorithm filters embedding limit =
     fst (read_response (send (fetch_request pv resource algorithm filters embedding limit)))"

end
