(* ===== verification/Commonfeed_Sources.thy ===== *)
theory Commonfeed_Sources
  imports Commonfeed
begin

text \<open>
  The sources of \<open>crates/sources/src/commonfeed\<close>: \<open>posts.rs\<close>, \<open>links.rs\<close>, \<open>tags.rs\<close> and
  \<open>recommended.rs\<close>. Each fetches a response and turns its results into candidates; a failed
  fetch is an empty batch. The JSON reader's conversion of a response body into the wire type is
  part of the exchange \<open>send\<close>.
\<close>

section \<open>Conversions\<close>

definition emoji_from_result :: "emoji_result \<Rightarrow> custom_emoji" where
  "emoji_from_result e =
     \<lparr>ce_shortcode = er_shortcode e, ce_url = er_url e,
      ce_static_url = (case er_static_url e of Some u \<Rightarrow> Some u | None \<Rightarrow> Some (er_url e))\<rparr>"

text \<open>\<open>image.map(..).unwrap_or_default()\<close>: url, width, height and blurhash.\<close>

definition image_parts :: "image_object option \<Rightarrow> string option \<times> int option \<times> int option \<times> string option" where
  "image_parts im =
     (case im of
        Some img \<Rightarrow> (let l = sz_large (im_sizes img)
                     in (Some (sv_url l), sv_width l, sv_height l, im_blurhash img))
      | None \<Rightarrow> (None, None, None, None))"

definition card_from_link_preview :: "link_preview_result \<Rightarrow> card_preview" where
  "card_from_link_preview l =
     (let (image_url, image_width, image_height, blurhash) = image_parts (lp_image l) in
      \<lparr>cp_url = lp_url l, cp_title = lp_title l, cp_description = lp_description l,
       cp_link_type = lp_link_type l, cp_author_name = lp_author_name l,
       cp_provider_name = lp_provider_name l, cp_image_url = image_url,
       cp_image_width = image_width, cp_image_height = image_height, cp_blurhash = blurhash,
       cp_embed_url = lp_embed_url l, cp_embed_html = lp_embed_html l\<rparr>)"

definition media_from_result :: "media_result \<Rightarrow> media option" where
  "media_from_result m =
     map_option
       (\<lambda>(url, mime_type, thumbnail_url, blurhash).
          let (width, height) = (case mr_original m of
                Some og \<Rightarrow> (Some (nat (max (mo_width og) 0)), Some (nat (max (mo_height og) 0)))
              | None \<Rightarrow> (None, None))
          in \<lparr>me_media_type = mr_media_type m, me_url = url, me_alt = mr_alt m,
              me_mime_type = mime_type, me_width = width, me_height = height,
              me_blurhash = blurhash, me_thumbnail_url = thumbnail_url\<rparr>)
       (case (mr_image m, mr_sizes m, mr_poster m) of
          (Some img, _, _) \<Rightarrow>
            Some (sv_url (sz_large (im_sizes img)), sv_mime_type (sz_large (im_sizes img)),
                  map_option sv_url (sz_small (im_sizes img)), im_blurhash img)
        | (None, Some sz, poster) \<Rightarrow>
            (let (thumb, blur) = (case poster of
                   Some p \<Rightarrow> (Some (sv_url (sz_large (im_sizes p))), im_blurhash p)
                 | None \<Rightarrow> (None, None))
             in Some (sv_url (sz_large sz), sv_mime_type (sz_large sz), thumb, blur))
        | _ \<Rightarrow> None)"

text \<open>\<open>unwrap_or(0).max(0).cast_unsigned()\<close> of an optional counter.\<close>

definition count_of :: "(engagement_result \<Rightarrow> int option) \<Rightarrow> engagement_result option \<Rightarrow> nat" where
  "count_of field eg = nat (max (unwrap_or (Option.bind eg field) 0) 0)"

definition author_from_result :: "author_result \<Rightarrow> author" where
  "author_from_result a =
     \<lparr>au_handle = ar_handle a, au_display_name = ar_name a, au_url = ar_url a,
      au_avatar_url = map_option (\<lambda>im. sv_url (sz_large (im_sizes im))) (ar_avatar a),
      au_header_url = None,
      au_emojis = map emoji_from_result (unwrap_or (ar_emojis a) [])\<rparr>"

definition post_data_from_result :: "string \<Rightarrow> post_result_data \<Rightarrow> post_data" where
  "post_data_from_result provider_domain r =
     \<lparr>po_provider_id = rs_id r, po_provider_domain = Some provider_domain, po_url = rs_url r,
      po_uri = rs_identifiers r (rs_protocol r), po_content = rs_content r, po_text = rs_text r,
      po_author = author_from_result (rs_author r), po_published_at = rs_timestamp r,
      po_language = rs_language r, po_sensitive = unwrap_or (rs_sensitive r) False,
      po_content_warning = rs_content_warning r,
      po_media = List.map_filter media_from_result (unwrap_or (rs_media r) []),
      po_engagement = \<lparr>en_replies = count_of eg_replies (rs_engagement r),
                       en_reposts = count_of eg_reposts (rs_engagement r),
                       en_likes = count_of eg_likes (rs_engagement r)\<rparr>,
      po_link = map_option card_from_link_preview (rs_link r),
      po_tags = map pt_name (unwrap_or (rs_tags r) []),
      po_emojis = map emoji_from_result (unwrap_or (rs_emojis r) [])\<rparr>"

fun post_from_result :: "string \<Rightarrow> post_result \<Rightarrow> post" where
  "post_from_result provider_domain (PostResult r rep quo) =
     Post (post_data_from_result provider_domain r)
       (map_option (post_from_result provider_domain) rep)
       (map_option (post_from_result provider_domain) quo)"

definition post_candidate :: "post_result \<Rightarrow> string \<Rightarrow> string \<Rightarrow> post candidate" where
  "post_candidate r provider_domain src =
     (candidate_new (post_from_result provider_domain r) src)
       \<lparr>c_score := unwrap_or (rs_score (result_of r)) (Fin 0)\<rparr>"

definition link_candidate :: "link_result \<Rightarrow> link candidate" where
  "link_candidate r =
     (let (image_url, image_width, image_height, blurhash) = image_parts (lr_image r);
          l = \<lparr>li_url = lr_url r, li_title = lr_title r, li_description = lr_description r,
               li_link_type = lr_link_type r, li_author_name = lr_author_name r,
               li_provider_name = lr_provider_name r, li_image_url = image_url,
               li_image_width = image_width, li_image_height = image_height, li_blurhash = blurhash,
               li_embed_url = lr_embed_url r, li_embed_html = lr_embed_html r,
               li_post_count = lr_post_count r, li_account_count = lr_account_count r\<rparr>
      in (candidate_new l ''commonfeed/links'')\<lparr>c_score := unwrap_or (lr_score r) (Fin 0)\<rparr>)"

definition tag_candidate :: "tag_result \<Rightarrow> tag candidate" where
  "tag_candidate r =
     (let history = map (\<lambda>h. \<lparr>th_day = hi_day h, th_uses = hi_uses h, th_accounts = hi_accounts h\<rparr>)
                      (unwrap_or (tr_history r) []);
          t = \<lparr>tg_name = tr_name r, tg_url = ''/tags/'' @ tr_name r, tg_history = history\<rparr>
      in (candidate_new t ''commonfeed/tags'')\<lparr>c_score := unwrap_or (tr_score r) (Fin 0)\<rparr>)"

section \<open>The sources\<close>

record posts_source =
  ps_algorithm :: string
  ps_provider :: provider
  ps_filters :: query_filters

definition posts_source_new :: "provider \<Rightarrow> string \<Rightarrow> posts_source" where
  "posts_source_new pv alg = \<lparr>ps_algorithm = alg, ps_provider = pv, ps_filters = query_filters_default\<rparr>"

definition posts_with_filters :: "posts_source \<Rightarrow> query_filters \<Rightarrow> posts_source" where
  "posts_with_filters s f = s\<lparr>ps_filters := f\<rparr>"

definition posts_source :: "(http_request \<Rightarrow> query_response http_response) \<Rightarrow> posts_source \<Rightarrow> post source" where
  "posts_source send s =
     \<lparr>s_name = ''commonfeed/posts'',
      s_collect = (\<lambda>limit.
        case fetch_json send (ps_provider s) ''posts'' (ps_algorithm s) (ps_filters s) None limit of
          Some r \<Rightarrow> map (\<lambda>p. post_candidate p (pv_domain (ps_provider s)) ''commonfeed/posts'') (qr_results r)
        | None \<Rightarrow> [])\<rparr>"

text \<open>\<open>LinksSource\<close> and \<open>TagsSource\<close> have the fields of \<open>PostsSource\<close>.\<close>

definition links_source :: "(http_request \<Rightarrow> link_response http_response) \<Rightarrow> posts_source \<Rightarrow> link source" where
  "links_source send s =
     \<lparr>s_name = ''commonfeed/links'',
      s_collect = (\<lambda>limit.
        case fetch_json send (ps_provider s) ''links'' (ps_algorithm s) (ps_filters s) None limit of
          Some r \<Rightarrow> map link_candidate (lo_results r)
        | None \<Rightarrow> [])\<rparr>"

definition tags_source :: "(http_request \<Rightarrow> tag_response http_response) \<Rightarrow> posts_source \<Rightarrow> tag source" where
  "tags_source send s =
     \<lparr>s_name = ''commonfeed/tags'',
      s_collect = (\<lambda>limit.
        case fetch_json send (ps_provider s) ''tags'' (ps_algorithm s) (ps_filters s) None limit of
          Some r \<Rightarrow> map tag_candidate (tp_results r)
        | None \<Rightarrow> [])\<rparr>"

record recommended_source =
  rc_provider :: provider
  rc_algorithm :: string
  rc_filters :: query_filters
  rc_embedding :: embedding_request

definition recommended_source_new :: "provider \<Rightarrow> string \<Rightarrow> fl list \<Rightarrow> string \<Rightarrow> recommended_source" where
  "recommended_source_new pv alg vector model =
     \<lparr>rc_provider = pv, rc_algorithm = alg, rc_filters = query_filters_default,
      rc_embedding = \<lparr>em_vector = vector, em_model = model\<rparr>\<rparr>"

definition recommended_with_filters :: "recommended_source \<Rightarrow> query_filters \<Rightarrow> recommended_source" where
  "recommended_with_filters s f = s\<lparr>rc_filters := f\<rparr>"

definition recommended_source :: "(http_request \<Rightarrow> query_response http_response) \<Rightarrow> recommended_source \<Rightarrow> post source" where
  "recommended_source send s =
     \<lparr>s_name = ''commonfeed/recommended'',
      s_collect = (\<lambda>limit.
        case fetch_json send (rc_provider s) ''posts'' (rc_algorithm s) (rc_filters s)
               (Some (rc_embedding s)) limit of
          Some r \<Rightarrow> map (\<lambda>p. post_candidate p (pv_domain (rc_provider s)) ''commonfeed/recommended'') (qr_results r)
        | None \<Rightarrow> [])\<rparr>"

section \<open>What a provider sees and what a source returns\<close>

text \<open>The members of the filters object, and those of the body.\<close>

lemma filter_members:
  "query_filters_json f = JObj ms \<Longrightarrow> (k, v) \<in> set ms \<Longrightarrow>
   k = ''language'' \<and> qf_language f \<noteq> [] \<or> k = ''tag'' \<and> qf_tag f \<noteq> None \<or> k = ''link'' \<and> qf_link f \<noteq> None"
  by (auto simp: query_filters_json_def member_unless_def split: if_splits)

lemma for_provider_supported:
  "qf_language (for_provider f fs) \<noteq> [] \<Longrightarrow> ''language'' \<in> set fs"
  "qf_tag (for_provider f fs) \<noteq> None \<Longrightarrow> ''tag'' \<in> set fs"
  "qf_link (for_provider f fs) \<noteq> None \<Longrightarrow> ''link'' \<in> set fs"
  by (auto simp: for_provider_def list_ex_iff split: if_splits)

lemma for_provider_idem: "for_provider (for_provider f fs) fs = for_provider f fs"
  by (simp add: for_provider_def)

lemma body_get:
  "json_get (fetch_body pv f e limit) ''limit'' = Some (JInt (int (min limit (pv_max_results pv))))"
  "json_get (fetch_body pv f e limit) ''cursor'' = Some JNull"
  "json_get (fetch_body pv f e limit) ''embedding'' = map_option embedding_json e"
  "json_get (fetch_body pv f e limit) ''filters'' =
     (let fs = query_filters_json (for_provider f (pv_supported_filters pv))
      in if fs = JObj [] then None else Some fs)"
  by (auto simp: fetch_body_def json_simps Let_def split: option.splits)

lemma read_response_Some:
  "fst (read_response resp) = Some r \<longleftrightarrow> (\<exists>st. resp = Response st (Some r) \<and> 200 \<le> st \<and> st < 300)"
  by (auto simp: read_response_def split: http_response.splits option.splits if_splits)

text \<open>Every post of the tree, with what it replies to and what it quotes.\<close>

fun posts_in :: "post \<Rightarrow> post set" where
  "posts_in (Post d rep quo) = insert (Post d rep quo)
     ((case rep of None \<Rightarrow> {} | Some p \<Rightarrow> posts_in p) \<union> (case quo of None \<Rightarrow> {} | Some p \<Rightarrow> posts_in p))"

lemma post_from_result_domain:
  "p \<in> posts_in (post_from_result d r) \<Longrightarrow> po_provider_domain (post_of p) = Some d"
  by (induction d r rule: post_from_result.induct)
    (auto simp: post_data_from_result_def split: option.splits)

section \<open>Properties\<close>

definition a_provider :: provider where
  "a_provider = \<lparr>pv_domain = ''feeds.example'', pv_base_url = ''https://feeds.example/api'',
     pv_api_key = ''key'', pv_max_results = 20, pv_supported_filters = [''language'']\<rparr>"

definition tag_filter :: query_filters where
  "tag_filter = \<lparr>qf_language = [''en''], qf_tag = Some ''rust'', qf_link = None\<rparr>"

text \<open>
  C32: The request to a provider carries its own key, asks for at most the maximum the provider
  announced and for no more than was wanted, contains an embedding only when the caller gave one,
  and filters only by what the provider declared it supports; when no filter is left, the body
  has no filters at all.
\<close>

theorem request_respects_provider:
  "hr_bearer (fetch_request pv res alg f e limit) = pv_api_key pv
    \<and> json_get (hr_body (fetch_request pv res alg f e limit)) ''limit'' = Some (JInt (int (min limit (pv_max_results pv))))
    \<and> json_get (hr_body (fetch_request pv res alg f e limit)) ''embedding'' = map_option embedding_json e
    \<and> (\<forall>ms. json_get (hr_body (fetch_request pv res alg f e limit)) ''filters'' = Some (JObj ms)
         \<longrightarrow> ms \<noteq> [] \<and> fst ` set ms \<subseteq> set (pv_supported_filters pv) \<inter> {''language'', ''tag'', ''link''})"
proof -
  have *: "fst ` set ms \<subseteq> set (pv_supported_filters pv) \<inter> {''language'', ''tag'', ''link''}"
    if "query_filters_json (for_provider f (pv_supported_filters pv)) = JObj ms" for ms
    using filter_members [OF that] for_provider_supported [of f "pv_supported_filters pv"] by fastforce
  then show ?thesis
    by (auto simp: fetch_request_def body_get Let_def split: if_splits)
qed

theorem request_respects_provider_witness:
  "json_get (hr_body (fetch_request a_provider ''posts'' ''trending'' tag_filter None 50)) ''limit'' = Some (JInt 20)
    \<and> json_get (hr_body (fetch_request a_provider ''posts'' ''trending'' tag_filter None 50)) ''filters''
        = Some (JObj [(''language'', JArr [JStr ''en''])])
    \<and> {''language''} \<subseteq> set (pv_supported_filters a_provider)"
proof -
  have f: "json_get (hr_body (fetch_request a_provider ''posts'' ''trending'' tag_filter None 50)) ''filters''
        = Some (JObj [(''language'', JArr [JStr ''en''])])"
    by code_simp
  show ?thesis
    using request_respects_provider [of a_provider "''posts''" "''trending''" tag_filter None 50] f
    by (simp add: a_provider_def)
qed

text \<open>
  A source of posts returns candidates only when the provider answered with a 2xx status and
  a body that parses, and then one candidate for each result in the order of the response, with
  the score of the result (0 without one). Every post in it, the posts it replies to and quotes
  included, is attributed to the provider that was asked and to no other.
\<close>

theorem posts_source_candidates:
  "s_collect (posts_source send s) limit =
     (case send (fetch_request (ps_provider s) ''posts'' (ps_algorithm s) (ps_filters s) None limit) of
        Response st (Some r) \<Rightarrow>
          if 200 \<le> st \<and> st < 300
          then map (\<lambda>p. post_candidate p (pv_domain (ps_provider s)) ''commonfeed/posts'') (qr_results r) else []
      | _ \<Rightarrow> [])
    \<and> (\<forall>c \<in> set (s_collect (posts_source send s) limit). \<forall>p \<in> posts_in (c_item c).
         po_provider_domain (post_of p) = Some (pv_domain (ps_provider s)))
    \<and> map c_score (map (\<lambda>p. post_candidate p d src) rs) = map (\<lambda>p. unwrap_or (rs_score (result_of p)) (Fin 0)) rs"
  by (auto simp: posts_source_def fetch_json_def read_response_def post_candidate_def candidate_new_def
      post_from_result_domain split: http_response.splits option.splits)

definition some_result :: post_result where
  "some_result = PostResult
     \<lparr>rs_id = Some 7, rs_url = ''u'', rs_protocol = ''activitypub'', rs_identifiers = Map.empty,
      rs_content_type = ''post'', rs_content = ''hi'', rs_text = ''hi'',
      rs_author = \<lparr>ar_name = ''A'', ar_handle = ''@a@b.example'', ar_url = ''v'', ar_avatar = None, ar_emojis = None\<rparr>,
      rs_timestamp = 0, rs_language = None, rs_sensitive = None, rs_content_warning = None,
      rs_media = None, rs_engagement = Some \<lparr>eg_likes = Some (- 3), eg_reposts = Some 4, eg_replies = None\<rparr>,
      rs_link = None, rs_tags = None, rs_emojis = None, rs_score = Some (Fin 2)\<rparr> None None"

definition answers :: "http_request \<Rightarrow> query_response http_response" where
  "answers req = Response 200 (Some \<lparr>qr_results = [some_result],
     qr_pagination = \<lparr>pg_cursor = None, pg_has_more = False\<rparr>\<rparr>)"

theorem posts_source_candidates_witness:
  "map (\<lambda>c. po_provider_domain (post_of (c_item c)))
     (s_collect (posts_source answers (posts_source_new a_provider ''trending'')) 5) = [Some ''feeds.example'']"
proof -
  let ?s = "posts_source_new a_provider ''trending''"
  let ?cs = "s_collect (posts_source answers ?s) 5"
  have d: "\<forall>c \<in> set ?cs. \<forall>p \<in> posts_in (c_item c). po_provider_domain (post_of p) = Some ''feeds.example''"
    and l: "length ?cs = 1"
    using posts_source_candidates [of answers ?s 5]
    by (simp_all add: answers_def posts_source_new_def a_provider_def)
  have "c_item c \<in> posts_in (c_item c)" for c :: "post candidate" by (cases "c_item c") simp
  with d l show ?thesis by (cases ?cs) auto
qed

end
