(* ===== verification/Mastodon_Db.thy ===== *)
theory Mastodon_Db
  imports Json Common_Types
begin

text \<open>
  The tables of the Mastodon database the code reads, with the columns it reads, and the parts of
  SQL its queries use: joins, grouping with counts, ordering and limits. A nullable column is an
  option; a comparison with NULL is not true. Where SQL leaves the order of equal rows open the
  model keeps the order of the tables. Instants are those of \<^typ>\<open>instant\<close>.
\<close>

section \<open>Tables\<close>

text \<open>A profile field, an object in the JSON column \<open>fields\<close>.\<close>

record db_field =
  fr_name :: string
  fr_value :: string
  fr_verified_at :: "instant option"

record db_account =
  da_id :: int
  da_username :: string
  da_domain :: "string option"
  da_display_name :: "string option"
  da_url :: "string option"
  da_avatar_file_name :: "string option"
  da_avatar_remote_url :: "string option"
  da_header_file_name :: "string option"
  da_header_remote_url :: "string option"
  da_avatar_version :: "int option"
  da_header_version :: "int option"
  da_suspended_at :: "instant option"
  da_silenced_at :: "instant option"
  da_note :: string
  da_uri :: string
  da_created_at :: instant
  da_discoverable :: "bool option"
  da_indexable :: bool
  da_locked :: bool
  da_actor_type :: "string option"
  da_fields :: "db_field list option"

record db_status =
  ds_id :: int
  ds_account_id :: int
  ds_uri :: string
  ds_url :: "string option"
  ds_text :: string
  ds_spoiler_text :: "string option"
  ds_sensitive :: bool
  ds_language :: "string option"
  ds_created_at :: instant
  ds_visibility :: int
  ds_in_reply_to_id :: "int option"
  ds_in_reply_to_account_id :: "int option"
  ds_reblog_of_id :: "int option"
  ds_deleted_at :: "instant option"
  ds_edited_at :: "instant option"
  ds_media_order :: "int list option"

text \<open>A row of \<open>favourites\<close> or \<open>bookmarks\<close>.\<close>

record db_mark =
  dm_account_id :: int
  dm_status_id :: int
  dm_created_at :: instant

text \<open>A row of \<open>follows\<close>, \<open>blocks\<close> or \<open>mutes\<close>.\<close>

record db_edge =
  de_account_id :: int
  de_target_account_id :: int

record db_mention =
  dn_id :: int
  dn_account_id :: int
  dn_status_id :: int

record db_stats =
  dt_status_id :: int
  dt_favourites :: int
  dt_reblogs :: int
  dt_replies :: int
  dt_quotes :: int

text \<open>A row of \<open>account_stats\<close>.\<close>

record db_account_stats =
  dk_account_id :: int
  dk_statuses :: int
  dk_following :: int
  dk_followers :: int
  dk_last_status_at :: "instant option"

text \<open>A row of \<open>media_attachments\<close>, of \<open>preview_cards\<close>, of \<open>custom_emojis\<close> and of \<open>quotes\<close>.\<close>

record db_media =
  dx_id :: int
  dx_status_id :: "int option"
  dx_type :: int
  dx_description :: "string option"
  dx_remote_url :: string
  dx_blurhash :: "string option"
  dx_file_file_name :: "string option"
  dx_file_meta :: "json option"
  dx_thumbnail_file_name :: "string option"
  dx_version :: "int option"

record db_card =
  dc_id :: int
  dc_url :: string
  dc_title :: string
  dc_description :: string
  dc_type :: int
  dc_html :: string
  dc_author_name :: string
  dc_author_url :: string
  dc_provider_name :: string
  dc_provider_url :: string
  dc_image_file_name :: "string option"
  dc_image_description :: string
  dc_width :: int
  dc_height :: int
  dc_embed_url :: string
  dc_blurhash :: "string option"
  dc_version :: "int option"

record db_emoji =
  dj_id :: int
  dj_shortcode :: string
  dj_domain :: "string option"
  dj_image_file_name :: "string option"
  dj_image_remote_url :: "string option"
  dj_version :: "int option"
  dj_disabled :: bool

record db_quote =
  dq_status_id :: int
  dq_quoted_status_id :: "int option"
  dq_state :: int

record mastodon_db =
  db_accounts :: "db_account list"
  db_statuses :: "db_status list"
  db_favourites :: "db_mark list"
  db_bookmarks :: "db_mark list"
  db_mentions :: "db_mention list"
  db_follows :: "db_edge list"
  db_blocks :: "db_edge list"
  db_mutes :: "db_edge list"
  db_domain_blocks :: "(int \<times> string) list"
  db_stats :: "db_stats list"
  db_tags :: "(int \<times> string) list"
  db_statuses_tags :: "(int \<times> int) list"
  db_account_stats :: "db_account_stats list"
  db_media :: "db_media list"
  db_cards :: "db_card list"
  db_cards_statuses :: "(int \<times> int) list"
  db_emojis :: "db_emoji list"
  db_quotes :: "db_quote list"

section \<open>SQL\<close>

definition left_join :: "('a \<Rightarrow> 'b \<Rightarrow> bool) \<Rightarrow> 'a list \<Rightarrow> 'b list \<Rightarrow> ('a \<times> 'b option) list" where
  "left_join on xs ys =
     concat (map (\<lambda>x. let ms = filter (on x) ys
                      in if ms = [] then [(x, None)] else map (\<lambda>y. (x, Some y)) ms) xs)"

text \<open>\<open>LEFT JOIN .. WHERE right.id IS NULL\<close>\<close>

definition anti_join :: "('a \<Rightarrow> 'b \<Rightarrow> bool) \<Rightarrow> 'a list \<Rightarrow> 'b list \<Rightarrow> 'a list" where
  "anti_join on xs ys = map fst (filter (\<lambda>(x, y). y = None) (left_join on xs ys))"

lemma anti_join_filter: "anti_join on xs ys = filter (\<lambda>x. \<not> list_ex (on x) ys) xs"
proof (induction xs)
  case (Cons x xs)
  have "map fst (filter (\<lambda>(x, y). y = None) (map (\<lambda>y. (x, Some y)) ms)) = []" for ms :: "'b list"
    by (induction ms) auto
  moreover have "filter (on x) ys = [] \<longleftrightarrow> \<not> list_ex (on x) ys"
    by (auto simp: filter_empty_conv list_ex_iff)
  ultimately show ?case using Cons by (auto simp: anti_join_def left_join_def Let_def)
qed (simp add: anti_join_def left_join_def)

text \<open>\<open>ORDER BY f DESC\<close>, \<open>LIMIT n\<close> with \<open>i64::try_from(limit).unwrap_or(i64::MAX)\<close>.\<close>

definition order_desc :: "('a \<Rightarrow> 'k::linordered_ab_group_add) \<Rightarrow> 'a list \<Rightarrow> 'a list" where
  "order_desc f xs = sort_key (\<lambda>x. - f x) xs"

definition limit_i64 :: "nat \<Rightarrow> nat" where
  "limit_i64 n = (if int n \<le> i64_max then n else nat i64_max)"

lemma limit_i64_le: "limit_i64 n \<le> n"
  by (auto simp: limit_i64_def)

text \<open>\<open>SELECT k, count(*) .. GROUP BY k\<close>\<close>

definition group_count :: "'k list \<Rightarrow> ('k \<times> nat) list" where
  "group_count ks = map (\<lambda>k. (k, count_list ks k)) (remdups ks)"

text \<open>\<open>ROW_NUMBER() OVER (PARTITION BY k ORDER BY ..)\<close> of a list in that order.\<close>

fun row_number_from :: "('k \<Rightarrow> nat) \<Rightarrow> ('a \<Rightarrow> 'k) \<Rightarrow> 'a list \<Rightarrow> (nat \<times> 'a) list" where
  "row_number_from n key [] = []"
| "row_number_from n key (x # xs) =
     (n (key x) + 1, x) # row_number_from (n(key x := n (key x) + 1)) key xs"

definition row_number :: "('a \<Rightarrow> 'k) \<Rightarrow> 'a list \<Rightarrow> (nat \<times> 'a) list" where
  "row_number key xs = row_number_from (\<lambda>_. 0) key xs"

lemma set_row_number_from: "snd ` set (row_number_from n key xs) = set xs"
  by (induction xs arbitrary: n) auto

lemma length_row_number_from:
  "length (filter (\<lambda>(i, x). key x = k \<and> i \<le> m) (row_number_from n key xs)) \<le> m - n k"
proof (induction xs arbitrary: n)
  case (Cons x xs)
  have "length (filter (\<lambda>(i, x). key x = k \<and> i \<le> m) (row_number_from (n(key x := n (key x) + 1)) key xs))
      \<le> m - (n(key x := n (key x) + 1)) k"
    by (rule Cons.IH)
  then show ?case by (cases "key x = k") auto
qed simp

lemma length_row_number:
  "length (filter (\<lambda>(i, x). key x = k \<and> i \<le> m) (row_number key xs)) \<le> m"
  using length_row_number_from [of key k m "\<lambda>_. 0" xs] by (simp add: row_number_def)

lemma set_row_number: "snd ` set (row_number key xs) = set xs"
  by (simp add: row_number_def set_row_number_from)

end
