(* ===== verification/Local_Sources.thy ===== *)
theory Local_Sources
  imports Feed_Pipeline Mastodon_Db Paperclip
begin

text \<open>
  The sources that read the instance's own database, \<open>crates/sources/src/mastodon\<close>: \<open>row.rs\<close>
  (rows to posts), \<open>feed_item.rs\<close>, and \<open>posts.rs\<close> (the two tag sources) with their queries over
  the tables of \<open>Mastodon_Db\<close>. A query can fail; then the source returns nothing.
\<close>

section \<open>Rows and posts\<close>

record status_row =
  sr_id :: int
  sr_account_id :: int
  sr_uri :: string
  sr_url :: "string option"
  sr_text :: string
  sr_spoiler_text :: "string option"
  sr_sensitive :: bool
  sr_language :: "string option"
  sr_created_at :: instant
  sr_username :: string
  sr_domain :: "string option"
  sr_display_name :: "string option"
  sr_account_url :: "string option"
  sr_avatar_file_name :: "string option"
  sr_avatar_remote_url :: "string option"
  sr_header_file_name :: "string option"
  sr_header_remote_url :: "string option"
  sr_avatar_version :: "int option"
  sr_header_version :: "int option"

definition row_to_post :: "status_row \<Rightarrow> string \<Rightarrow> media_config \<Rightarrow> post" where
  "row_to_post row instance_domain mcfg =
     (let handle = (case sr_domain row of Some d \<Rightarrow> sr_username row @ ''@'' @ d
                                        | None \<Rightarrow> sr_username row @ ''@'' @ instance_domain);
          author_url = unwrap_or (sr_account_url row) (''https://'' @ instance_domain @ ''/@'' @ sr_username row);
          url = unwrap_or (sr_url row) (sr_uri row);
          content_warning = option_filter (\<lambda>s. s \<noteq> []) (sr_spoiler_text row);
          is_remote = sr_domain row \<noteq> None;
          avatar_cached = (is_remote \<and> 1 \<le> unwrap_or (sr_avatar_version row) 0);
          header_cached = (is_remote \<and> 1 \<le> unwrap_or (sr_header_version row) 0)
      in Post
        \<lparr>po_provider_id = Some (sr_id row), po_provider_domain = Some instance_domain, po_url = url,
         po_uri = Some (sr_uri row), po_content = sr_text row, po_text = sr_text row,
         po_author =
           \<lparr>au_handle = handle, au_display_name = unwrap_or (sr_display_name row) [], au_url = author_url,
            au_avatar_url = Some (avatar_url mcfg (sr_account_id row) (sr_avatar_file_name row)
                              (sr_avatar_remote_url row) avatar_cached),
            au_header_url = Some (header_url mcfg (sr_account_id row) (sr_header_file_name row)
                              (sr_header_remote_url row) header_cached),
            au_emojis = []\<rparr>,
         po_published_at = sr_created_at row, po_language = sr_language row,
         po_sensitive = sr_sensitive row, po_content_warning = content_warning, po_media = [],
         po_engagement = engagement_default, po_link = None, po_tags = [], po_emojis = []\<rparr> None None)"

datatype feed_item = Local (local_id: int) | Remote (remote_post: post)

definition feed_item_from_post :: "post \<Rightarrow> string \<Rightarrow> feed_item" where
  "feed_item_from_post p instance_domain =
     (case (po_provider_domain (post_of p), po_provider_id (post_of p)) of
        (Some d, Some i) \<Rightarrow> if d = instance_domain then Local i else Remote p
      | _ \<Rightarrow> Remote p)"

section \<open>Queries\<close>

text \<open>The column list the three status queries select.\<close>

definition select_status :: "db_status \<Rightarrow> db_account \<Rightarrow> status_row" where
  "select_status s a =
     \<lparr>sr_id = ds_id s, sr_account_id = ds_account_id s, sr_uri = ds_uri s,
      sr_url = Some (unwrap_or (ds_url s) (ds_uri s)), sr_text = ds_text s,
      sr_spoiler_text = ds_spoiler_text s, sr_sensitive = ds_sensitive s, sr_language = ds_language s,
      sr_created_at = ds_created_at s, sr_username = da_username a, sr_domain = da_domain a,
      sr_display_name = da_display_name a, sr_account_url = da_url a,
      sr_avatar_file_name = da_avatar_file_name a, sr_avatar_remote_url = da_avatar_remote_url a,
      sr_header_file_name = da_header_file_name a, sr_header_remote_url = da_header_remote_url a,
      sr_avatar_version = da_avatar_version a, sr_header_version = da_header_version a\<rparr>"

text \<open>\<open>LOWER\<close> of the database is a parameter, as it depends on the collation.\<close>

definition tag_join :: "(string \<Rightarrow> string) \<Rightarrow> mastodon_db \<Rightarrow> string \<Rightarrow> (db_status \<times> db_account) list" where
  "tag_join lower db t =
     [(s, a). s \<leftarrow> db_statuses db, a \<leftarrow> db_accounts db, da_id a = ds_account_id s,
       (sid, tid) \<leftarrow> db_statuses_tags db, sid = ds_id s,
       (i, n) \<leftarrow> db_tags db, i = tid, lower n = lower t,
       ds_visibility s = 0 \<or> ds_visibility s = 1, ds_reblog_of_id s = None]"

definition native_tag_query :: "(string \<Rightarrow> string) \<Rightarrow> mastodon_db \<Rightarrow> string \<Rightarrow> nat \<Rightarrow> status_row list" where
  "native_tag_query lower db t limit =
     take limit (map (\<lambda>(s, a). select_status s a)
       (order_desc (\<lambda>(s, a). ds_created_at s) (filter (\<lambda>(s, a). da_domain a = None) (tag_join lower db t))))"

definition federated_tag_query :: "(string \<Rightarrow> string) \<Rightarrow> mastodon_db \<Rightarrow> string \<Rightarrow> nat \<Rightarrow> status_row list" where
  "federated_tag_query lower db t limit =
     take limit (map (\<lambda>(s, a). select_status s a)
       (order_desc (\<lambda>(s, a). ds_created_at s) (filter (\<lambda>(s, a). da_domain a \<noteq> None) (tag_join lower db t))))"

section \<open>The tag sources\<close>

record tag_source =
  ts_tag :: string
  ts_instance_domain :: string
  ts_media :: media_config

definition rows_candidates :: "tag_source \<Rightarrow> string \<Rightarrow> status_row list option \<Rightarrow> post candidate list" where
  "rows_candidates s name rows =
     (case rows of
        Some rs \<Rightarrow> map (\<lambda>r. candidate_new (row_to_post r (ts_instance_domain s) (ts_media s)) name) rs
      | None \<Rightarrow> [])"

text \<open>\<open>db\<close> is \<open>None\<close> when the query fails.\<close>

definition native_tag_source :: "(string \<Rightarrow> string) \<Rightarrow> mastodon_db option \<Rightarrow> tag_source \<Rightarrow> post source" where
  "native_tag_source lower db s =
     \<lparr>s_name = ''local/tag/native'',
      s_collect = (\<lambda>limit. rows_candidates s ''local/tag/native''
        (map_option (\<lambda>d. native_tag_query lower d (ts_tag s) (limit_i64 limit)) db))\<rparr>"

definition federated_tag_source :: "(string \<Rightarrow> string) \<Rightarrow> mastodon_db option \<Rightarrow> tag_source \<Rightarrow> post source" where
  "federated_tag_source lower db s =
     \<lparr>s_name = ''local/tag/federated'',
      s_collect = (\<lambda>limit. rows_candidates s ''local/tag/federated''
        (map_option (\<lambda>d. federated_tag_query lower d (ts_tag s) (limit_i64 limit)) db))\<rparr>"

section \<open>Lemmas\<close>

lemma row_to_post_sel:
  "po_provider_id (post_of (row_to_post r inst m)) = Some (sr_id r)"
  "po_provider_domain (post_of (row_to_post r inst m)) = Some inst"
  "po_uri (post_of (row_to_post r inst m)) = Some (sr_uri r)"
  "au_handle (po_author (post_of (row_to_post r inst m)))
     = sr_username r @ ''@'' @ unwrap_or (sr_domain r) inst"
  by (simp_all add: row_to_post_def Let_def split: option.splits)

text \<open>A post made of a row of the instance's own database is a local item.\<close>

lemma row_to_post_local: "feed_item_from_post (row_to_post r inst m) inst = Local (sr_id r)"
  by (simp add: feed_item_from_post_def row_to_post_sel)

lemma tag_join_iff:
  "(s, a) \<in> set (tag_join lower db t) \<longleftrightarrow>
     s \<in> set (db_statuses db) \<and> a \<in> set (db_accounts db) \<and> da_id a = ds_account_id s
     \<and> (\<exists>tid n. (ds_id s, tid) \<in> set (db_statuses_tags db) \<and> (tid, n) \<in> set (db_tags db) \<and> lower n = lower t)
     \<and> ds_visibility s \<in> {0, 1} \<and> ds_reblog_of_id s = None"
proof
  show "(s, a) \<in> set (tag_join lower db t) \<Longrightarrow> s \<in> set (db_statuses db) \<and> a \<in> set (db_accounts db) \<and> da_id a = ds_account_id s
     \<and> (\<exists>tid n. (ds_id s, tid) \<in> set (db_statuses_tags db) \<and> (tid, n) \<in> set (db_tags db) \<and> lower n = lower t)
     \<and> ds_visibility s \<in> {0, 1} \<and> ds_reblog_of_id s = None"
    by (auto simp: tag_join_def)
  assume r: "s \<in> set (db_statuses db) \<and> a \<in> set (db_accounts db) \<and> da_id a = ds_account_id s
     \<and> (\<exists>tid n. (ds_id s, tid) \<in> set (db_statuses_tags db) \<and> (tid, n) \<in> set (db_tags db) \<and> lower n = lower t)
     \<and> ds_visibility s \<in> {0, 1} \<and> ds_reblog_of_id s = None"
  then obtain tid n where "(ds_id s, tid) \<in> set (db_statuses_tags db)" "(tid, n) \<in> set (db_tags db)" "lower n = lower t" by blast
  with r show "(s, a) \<in> set (tag_join lower db t)"
    unfolding tag_join_def set_concat set_map image_image UN_iff
    by (intro bexI [of _ s] bexI [of _ a]; simp) (intro bexI [of _ "(ds_id s, tid)"]; force)
qed

lemma set_order_desc [simp]: "set (order_desc f xs) = set xs"
  by (simp add: order_desc_def)

lemma native_rows:
  "r \<in> set (native_tag_query lower db t limit) \<Longrightarrow>
   \<exists>s a. (s, a) \<in> set (tag_join lower db t) \<and> da_domain a = None \<and> r = select_status s a"
  unfolding native_tag_query_def by (drule in_take_map) auto

lemma federated_rows:
  "r \<in> set (federated_tag_query lower db t limit) \<Longrightarrow>
   \<exists>s a. (s, a) \<in> set (tag_join lower db t) \<and> da_domain a \<noteq> None \<and> r = select_status s a"
  unfolding federated_tag_query_def by (drule in_take_map) auto

lemma desc_order_desc: "sorted_wrt (\<lambda>x y. f y \<le> f x) (order_desc f xs)"
proof -
  have "sorted (map (\<lambda>x. - f x) (sort_key (\<lambda>x. - f x) xs))" by (rule sorted_sort_key)
  then show ?thesis by (simp add: order_desc_def sorted_map)
qed

text \<open>
  What both tag sources promise of a query's answer over the rows of the join: it is made of the
  newest of the rows that are kept, as many as asked for or all.
\<close>

definition tag_promise ::
    "(string \<Rightarrow> string) \<Rightarrow> mastodon_db \<Rightarrow> tag_source \<Rightarrow> (db_account \<Rightarrow> bool) \<Rightarrow> nat \<Rightarrow> post candidate list \<Rightarrow> bool" where
  "tag_promise lower db s keep n cs \<longleftrightarrow>
     (\<exists>chosen left. mset (chosen @ left) = mset (filter (\<lambda>(st, a). keep a) (tag_join lower db (ts_tag s)))
        \<and> (length chosen = n \<or> left = [] \<and> length chosen \<le> n)
        \<and> sorted_wrt (\<lambda>(st, a) (st', a'). ds_created_at st' \<le> ds_created_at st) chosen
        \<and> (\<forall>(st, a) \<in> set chosen. \<forall>(st', a') \<in> set left. ds_created_at st' \<le> ds_created_at st)
        \<and> map c_item cs = map (\<lambda>(st, a). row_to_post (select_status st a) (ts_instance_domain s) (ts_media s)) chosen
        \<and> map (\<lambda>c. feed_item_from_post (c_item c) (ts_instance_domain s)) cs = map (\<lambda>(st, a). Local (ds_id st)) chosen)"

lemma row_published [simp]:
  "po_published_at (post_of (row_to_post (select_status st a) inst m)) = ds_created_at st"
  by (simp add: row_to_post_def select_status_def Let_def)

lemma sr_id_select [simp]: "sr_id (select_status st a) = ds_id st"
  by (simp add: select_status_def)

lemma tag_promise_rows:
  "tag_promise lower db s keep n (rows_candidates s name
     (Some (take n (map (\<lambda>(st, a). select_status st a)
        (order_desc (\<lambda>(st, a). ds_created_at st) (filter (\<lambda>(st, a). keep a) (tag_join lower db (ts_tag s))))))))"
proof -
  let ?j = "filter (\<lambda>(st, a). keep a) (tag_join lower db (ts_tag s))"
  let ?o = "order_desc (\<lambda>(st, a). ds_created_at st) ?j"
  let ?f = "\<lambda>(st, a). candidate_new (row_to_post (select_status st a) (ts_instance_domain s) (ts_media s)) name"
  have cs: "rows_candidates s name (Some (take n (map (\<lambda>(st, a). select_status st a) ?o))) = map ?f (take n ?o)"
    by (simp add: rows_candidates_def take_map case_prod_beta)
  have srt: "sorted_wrt (\<lambda>(st, a) (st', a'). ds_created_at st' \<le> ds_created_at st) (take n ?o @ drop n ?o)"
    using desc_order_desc [of "\<lambda>(st, a). ds_created_at st" ?j] by (simp add: case_prod_beta')
  have "mset (take n ?o @ drop n ?o) = mset ?j" by (simp add: order_desc_def)
  moreover have "length (take n ?o) = n \<or> drop n ?o = [] \<and> length (take n ?o) \<le> n" by auto
  moreover have "sorted_wrt (\<lambda>(st, a) (st', a'). ds_created_at st' \<le> ds_created_at st) (take n ?o)"
    "\<forall>(st, a) \<in> set (take n ?o). \<forall>(st', a') \<in> set (drop n ?o). ds_created_at st' \<le> ds_created_at st"
    using srt unfolding sorted_wrt_append by (auto simp: case_prod_beta')
  moreover have "map c_item (map ?f (take n ?o))
      = map (\<lambda>(st, a). row_to_post (select_status st a) (ts_instance_domain s) (ts_media s)) (take n ?o)"
    "map (\<lambda>c. feed_item_from_post (c_item c) (ts_instance_domain s)) (map ?f (take n ?o))
      = map (\<lambda>(st, a). Local (ds_id st)) (take n ?o)"
    by (simp_all add: case_prod_beta' candidate_new_def row_to_post_local)
  ultimately show ?thesis unfolding cs tag_promise_def by blast
qed

text \<open>
  C33: A tag timeline's source over the instance's own database returns the newest of the matching
  rows, as many as it is asked for or all when there are not more, the newest first, each as a post
  that is recognised later as a local item under its own id. The rows that match are those of the
  statuses that are public or unlisted, no reblogs and carry the tag, written by local accounts for
  the native source and by remote accounts for the federated one. When the query fails nothing is
  returned.
\<close>

theorem tag_sources_promise:
  assumes "int n \<le> i64_max"
  shows "tag_promise lower db s (\<lambda>a. da_domain a = None) n (s_collect (native_tag_source lower (Some db) s) n)
    \<and> tag_promise lower db s (\<lambda>a. da_domain a \<noteq> None) n (s_collect (federated_tag_source lower (Some db) s) n)
    \<and> s_collect (native_tag_source lower None s) n = [] \<and> s_collect (federated_tag_source lower None s) n = []
    \<and> ((st, a) \<in> set (tag_join lower db t) \<longleftrightarrow> st \<in> set (db_statuses db) \<and> a \<in> set (db_accounts db)
       \<and> da_id a = ds_account_id st
       \<and> (\<exists>tid name. (ds_id st, tid) \<in> set (db_statuses_tags db) \<and> (tid, name) \<in> set (db_tags db) \<and> lower name = lower t)
       \<and> ds_visibility st \<in> {0, 1} \<and> ds_reblog_of_id st = None)"
proof (intro conjI)
  have l: "limit_i64 n = n" using assms by (simp add: limit_i64_def)
  show "tag_promise lower db s (\<lambda>a. da_domain a = None) n (s_collect (native_tag_source lower (Some db) s) n)"
    using tag_promise_rows [of lower db s "\<lambda>a. da_domain a = None"]
    by (simp add: native_tag_source_def native_tag_query_def l)
  show "tag_promise lower db s (\<lambda>a. da_domain a \<noteq> None) n (s_collect (federated_tag_source lower (Some db) s) n)"
    using tag_promise_rows [of lower db s "\<lambda>a. da_domain a \<noteq> None"]
    by (simp add: federated_tag_source_def federated_tag_query_def l)
qed (simp_all add: native_tag_source_def federated_tag_source_def rows_candidates_def tag_join_iff)

definition tag_account :: db_account where
  "tag_account = \<lparr>da_id = 1, da_username = ''ann'', da_domain = None, da_display_name = None, da_url = None,
     da_avatar_file_name = None, da_avatar_remote_url = None, da_header_file_name = None,
     da_header_remote_url = None, da_avatar_version = None, da_header_version = None,
     da_suspended_at = None, da_silenced_at = None,
     da_note = [], da_uri = [], da_created_at = 0, da_discoverable = None, da_indexable = False,
     da_locked = False, da_actor_type = None, da_fields = None\<rparr>"

definition tag_status :: db_status where
  "tag_status = \<lparr>ds_id = 7, ds_account_id = 1, ds_uri = ''u'', ds_url = None, ds_text = ''hi'',
     ds_spoiler_text = None, ds_sensitive = False, ds_language = None, ds_created_at = 0, ds_visibility = 0,
     ds_in_reply_to_id = None, ds_in_reply_to_account_id = None, ds_reblog_of_id = None, ds_deleted_at = None,
     ds_edited_at = None, ds_media_order = None\<rparr>"

definition tag_db :: mastodon_db where
  "tag_db = \<lparr>db_accounts = [tag_account], db_statuses = [tag_status], db_favourites = [], db_bookmarks = [],
     db_mentions = [], db_follows = [], db_blocks = [], db_mutes = [], db_domain_blocks = [], db_stats = [],
     db_tags = [(3, ''cats'')], db_statuses_tags = [(7, 3)],
     db_account_stats = [], db_media = [], db_cards = [], db_cards_statuses = [], db_emojis = [],
     db_quotes = []\<rparr>"

definition tag_src :: tag_source where
  "tag_src = \<lparr>ts_tag = ''cats'', ts_instance_domain = ''i.test'', ts_media = media_config_new ''i.test'' False\<rparr>"

lemma tag_join_example: "tag_join id tag_db ''cats'' = [(tag_status, tag_account)]"
  by (simp add: tag_join_def tag_db_def tag_status_def tag_account_def)

theorem tag_sources_promise_witness:
  "tag_promise id tag_db tag_src (\<lambda>a. da_domain a = None) 1 (s_collect (native_tag_source id (Some tag_db) tag_src) 1)
   \<and> (tag_status, tag_account) \<in> set (tag_join id tag_db ''cats'')
   \<and> length (s_collect (native_tag_source id (Some tag_db) tag_src) 1) = 1"
proof -
  have i: "int 1 \<le> i64_max" by (simp add: i64_max_def)
  have "length (s_collect (native_tag_source id (Some tag_db) tag_src) 1) = 1"
    using i by (simp add: native_tag_source_def native_tag_query_def rows_candidates_def limit_i64_def tag_src_def
        tag_join_example order_desc_def tag_account_def)
  moreover have "(tag_status, tag_account) \<in> set (tag_join id tag_db ''cats'')" by (simp add: tag_join_example)
  ultimately show ?thesis using tag_sources_promise [OF i, of id tag_db tag_src tag_status tag_account "''cats''"] by blast
qed

end
