(* ===== verification/Network_Source.thy ===== *)
theory Network_Source
  imports Local_Sources
begin

text \<open>
  \<open>crates/sources/src/mastodon/network.rs\<close>: posts of the accounts a user interacts with. Three
  queries give the affinity to authors, their recent posts, and how the user's network engaged
  with these; the score is a weighted sum of the three signals in \<open>f64\<close>. Each query reads its own
  snapshot of the database and can fail. The functions \<open>ln\<close> and \<open>exp\<close> of the platform are
  parameters.
\<close>

section \<open>Queries\<close>

definition hours :: "int \<Rightarrow> instant" where
  "hours n = n * 3600 * 1000000"

definition ninety_days :: instant where
  "ninety_days = hours (90 * 24)"

definition weigh :: "rat \<Rightarrow> int list \<Rightarrow> (int \<times> fl) list" where
  "weigh w authors = map (\<lambda>(k, n). (k, fl_mul binary64 (fl_of_nat binary64 n) (Fin w))) (group_count authors)"

text \<open>The six common table expressions of \<open>AFFINITY_QUERY\<close>, as lists of author ids.\<close>

definition marked_authors :: "db_mark list \<Rightarrow> mastodon_db \<Rightarrow> int \<Rightarrow> instant \<Rightarrow> int list" where
  "marked_authors marks db user now =
     [ds_account_id s. f \<leftarrow> marks, s \<leftarrow> db_statuses db, ds_id s = dm_status_id f,
       dm_account_id f = user, now - ninety_days < dm_created_at f]"

definition reblogged_authors :: "mastodon_db \<Rightarrow> int \<Rightarrow> instant \<Rightarrow> int list" where
  "reblogged_authors db user now =
     [ds_account_id og. r \<leftarrow> db_statuses db, og \<leftarrow> db_statuses db, ds_reblog_of_id r = Some (ds_id og),
       ds_account_id r = user, now - ninety_days < ds_created_at r]"

definition replied_authors :: "mastodon_db \<Rightarrow> int \<Rightarrow> instant \<Rightarrow> int list" where
  "replied_authors db user now =
     List.map_filter (\<lambda>s.
       if ds_account_id s = user \<and> ds_in_reply_to_account_id s \<noteq> Some user
          \<and> now - ninety_days < ds_created_at s
       then ds_in_reply_to_account_id s else None) (db_statuses db)"

definition mentioned_authors :: "bool \<Rightarrow> mastodon_db \<Rightarrow> int \<Rightarrow> instant \<Rightarrow> int list" where
  "mentioned_authors direct db user now =
     [dn_account_id m. m \<leftarrow> db_mentions db, s \<leftarrow> db_statuses db, ds_id s = dn_status_id m,
       ds_account_id s = user, dn_account_id m \<noteq> user, (ds_visibility s = 3) = direct,
       now - ninety_days < ds_created_at s]"

definition affinity_query :: "mastodon_db \<Rightarrow> int \<Rightarrow> instant \<Rightarrow> nat \<Rightarrow> (int \<times> fl) list" where
  "affinity_query db user now limit =
     (let combined = weigh 1 (marked_authors (db_favourites db) db user now)
            @ weigh (3 / 2) (marked_authors (db_bookmarks db) db user now)
            @ weigh 3 (reblogged_authors db user now)
            @ weigh 4 (replied_authors db user now)
            @ weigh (3 / 2) (mentioned_authors False db user now)
            @ weigh 5 (mentioned_authors True db user now);
          totals = map (\<lambda>k. (k, fl_sum binary64 (map snd (filter (\<lambda>(k', v). k' = k) combined))))
                   (remdups (map fst combined))
      in take limit (sort_key (\<lambda>(k, v). fl_neg v) totals))"

text \<open>\<open>CANDIDATE_QUERY\<close>\<close>

definition eligible_statuses :: "mastodon_db \<Rightarrow> int \<Rightarrow> (int \<Rightarrow> bool) \<Rightarrow> instant \<Rightarrow> (db_status \<times> db_account) list" where
  "eligible_statuses db user authors now =
     anti_join (\<lambda>(s, a) (u, d). u = user \<and> da_domain a = Some d)
      (anti_join (\<lambda>(s, a) mu. de_account_id mu = user \<and> de_target_account_id mu = ds_account_id s)
       (anti_join (\<lambda>(s, a) bl. de_account_id bl = user \<and> de_target_account_id bl = ds_account_id s)
         (filter (\<lambda>(s, a). authors (ds_account_id s) \<and> now - hours 48 < ds_created_at s
             \<and> (ds_visibility s = 0 \<or> ds_visibility s = 1)
             \<and> (ds_in_reply_to_id s = None \<or> ds_in_reply_to_account_id s = Some (ds_account_id s))
             \<and> ds_reblog_of_id s = None \<and> ds_deleted_at s = None
             \<and> da_suspended_at a = None \<and> da_silenced_at a = None)
           [(s, a). s \<leftarrow> db_statuses db, a \<leftarrow> db_accounts db, da_id a = ds_account_id s])
         (db_blocks db)) (db_mutes db)) (db_domain_blocks db)"

definition engagement_count :: "db_stats option \<Rightarrow> int" where
  "engagement_count ss = (case ss of Some t \<Rightarrow> dt_favourites t + dt_reblogs t | None \<Rightarrow> 0)"

text \<open>\<open>ranked\<close> with \<open>WHERE rn <= $2\<close>: of every author the best engaged, then the newest.\<close>

definition ranked_statuses :: "mastodon_db \<Rightarrow> int \<Rightarrow> (int \<Rightarrow> bool) \<Rightarrow> instant \<Rightarrow> nat
    \<Rightarrow> ((db_status \<times> db_account) \<times> db_stats option) list" where
  "ranked_statuses db user authors now per_author =
     (let joined = left_join (\<lambda>sa t. dt_status_id t = ds_id (fst sa)) (eligible_statuses db user authors now) (db_stats db);
          ordered = order_desc (\<lambda>x. engagement_count (snd x))
                      (order_desc (\<lambda>x. ds_created_at (fst (fst x))) joined)
      in map snd (filter (\<lambda>(rn, x). rn \<le> per_author) (row_number (\<lambda>x. ds_account_id (fst (fst x))) ordered)))"

definition candidate_query :: "mastodon_db \<Rightarrow> int \<Rightarrow> (int \<Rightarrow> bool) \<Rightarrow> instant \<Rightarrow> nat \<Rightarrow> nat \<Rightarrow> status_row list" where
  "candidate_query db user authors now per_author limit =
     take limit (map (\<lambda>x. select_status (fst (fst x)) (snd (fst x)))
       (order_desc (\<lambda>x. ds_created_at (fst (fst x))) (ranked_statuses db user authors now per_author)))"

text \<open>\<open>NETWORK_ENGAGEMENT_QUERY\<close>\<close>

definition engaged_statuses :: "mastodon_db \<Rightarrow> int \<Rightarrow> int list \<Rightarrow> int list" where
  "engaged_statuses db user ids =
     [dm_status_id f. f \<leftarrow> db_favourites db, fol \<leftarrow> db_follows db,
        de_target_account_id fol = dm_account_id f, de_account_id fol = user, dm_status_id f \<in> set ids]
     @ List.map_filter id
       [ds_reblog_of_id r. r \<leftarrow> db_statuses db, fol \<leftarrow> db_follows db,
         de_target_account_id fol = ds_account_id r, de_account_id fol = user,
         ds_reblog_of_id r \<in> Some ` set ids]"

definition network_engagement_query :: "mastodon_db \<Rightarrow> int \<Rightarrow> int list \<Rightarrow> (int \<times> int) list" where
  "network_engagement_query db user ids =
     map (\<lambda>(k, n). (k, int n)) (group_count (engaged_statuses db user ids))"

section \<open>Scores\<close>

definition top_authors :: nat where "top_authors = 200"
definition posts_per_author :: nat where "posts_per_author = 3"
definition recency_half_life_hours :: fl where "recency_half_life_hours = fl_lit binary64 12"
definition w_affinity :: fl where "w_affinity = fl_lit binary64 (55 / 100)"
definition w_network :: fl where "w_network = fl_lit binary64 (25 / 100)"
definition w_recency :: fl where "w_recency = fl_lit binary64 (20 / 100)"

definition normalize_by :: "fl \<Rightarrow> fl \<Rightarrow> fl" where
  "normalize_by log_max log_v = (if fl_lt (Fin 0) log_max then fl_div binary64 log_v log_max else Fin 0)"

definition log_normalize :: "(fl \<Rightarrow> fl) \<Rightarrow> (int \<times> fl) list \<Rightarrow> int \<rightharpoonup> fl" where
  "log_normalize ln_f rows =
     (let mx = foldl (\<lambda>m (_, v). fl_max m v) (Fin 0) rows;
          log_max = ln_f (fl_add binary64 (Fin 1) mx)
      in hashmap_of (map (\<lambda>(i, v). (i, normalize_by log_max (ln_f (fl_add binary64 (Fin 1) v)))) rows))"

definition net_normalize :: "(fl \<Rightarrow> fl) \<Rightarrow> (int \<times> int) list \<Rightarrow> int \<rightharpoonup> fl" where
  "net_normalize ln_f rows =
     (let log_max_net = (if rows = [] then Fin 0
            else ln_f (fl_add binary64 (Fin 1) (fl_of_int binary64 (Max (set (map snd rows))))))
      in hashmap_of (map (\<lambda>(i, n). (i, normalize_by log_max_net
            (ln_f (fl_add binary64 (Fin 1) (fl_of_int binary64 n))))) rows))"

text \<open>\<open>Duration::num_seconds\<close> truncates towards zero.\<close>

definition num_seconds :: "instant \<Rightarrow> int" where
  "num_seconds d = sgn d * (\<bar>d\<bar> div 1000000)"

definition recency :: "(fl \<Rightarrow> fl) \<Rightarrow> instant \<Rightarrow> instant \<Rightarrow> fl" where
  "recency exp_f now created =
     (let age_hours = fl_div binary64 (fl_of_int binary64 (num_seconds (now - created))) (Fin 3600)
      in exp_f (fl_div binary64 (fl_neg age_hours) recency_half_life_hours))"

definition network_score :: "fl \<Rightarrow> fl \<Rightarrow> fl \<Rightarrow> fl" where
  "network_score affinity_norm net_eng_norm rec =
     fl_add binary64 (fl_add binary64 (fl_mul binary64 w_affinity affinity_norm)
                                      (fl_mul binary64 w_network net_eng_norm))
                     (fl_mul binary64 w_recency rec)"

section \<open>The source\<close>

record network_source =
  ns_user_id :: int
  ns_instance_domain :: string
  ns_media :: media_config

definition network_candidates :: "(fl \<Rightarrow> fl) \<Rightarrow> instant \<Rightarrow> network_source \<Rightarrow> (int \<rightharpoonup> fl) \<Rightarrow> (int \<rightharpoonup> fl)
    \<Rightarrow> status_row list \<Rightarrow> post candidate list" where
  "network_candidates exp_f now src affinity net_eng rows =
     map (\<lambda>row.
       (candidate_new (row_to_post row (ns_instance_domain src) (ns_media src)) ''local/network'')
         \<lparr>c_score := network_score
            (unwrap_or (affinity (sr_account_id row)) (Fin 0))
            (unwrap_or (net_eng (sr_id row)) (Fin 0))
            (recency exp_f now (sr_created_at row))\<rparr>) rows"

definition network_collect :: "(fl \<Rightarrow> fl) \<Rightarrow> (fl \<Rightarrow> fl) \<Rightarrow> instant \<Rightarrow> mastodon_db option \<Rightarrow> mastodon_db option
    \<Rightarrow> mastodon_db option \<Rightarrow> network_source \<Rightarrow> nat \<Rightarrow> post candidate list" where
  "network_collect ln_f exp_f now db1 db2 db3 src limit =
     (case map_option (\<lambda>db. affinity_query db (ns_user_id src) now top_authors) db1 of
        None \<Rightarrow> []
      | Some affinity_rows \<Rightarrow>
          if affinity_rows = [] then []
          else let affinity = log_normalize ln_f affinity_rows in
            (case map_option (\<lambda>db. candidate_query db (ns_user_id src) (\<lambda>k. affinity k \<noteq> None) now
                     posts_per_author (limit_i64 limit)) db2 of
               None \<Rightarrow> []
             | Some candidate_rows \<Rightarrow>
                 let net_eng_rows = (case db3 of
                       Some db \<Rightarrow> network_engagement_query db (ns_user_id src) (map sr_id candidate_rows)
                     | None \<Rightarrow> [])
                 in network_candidates exp_f now src affinity (net_normalize ln_f net_eng_rows) candidate_rows))"

definition network_source :: "(fl \<Rightarrow> fl) \<Rightarrow> (fl \<Rightarrow> fl) \<Rightarrow> instant \<Rightarrow> mastodon_db option \<Rightarrow> mastodon_db option
    \<Rightarrow> mastodon_db option \<Rightarrow> network_source \<Rightarrow> post source" where
  "network_source ln_f exp_f now db1 db2 db3 src =
     \<lparr>s_name = ''local/network'', s_collect = network_collect ln_f exp_f now db1 db2 db3 src\<rparr>"

section \<open>What the candidate query returns\<close>

lemma eligible_sound:
  assumes "(s, a) \<in> set (eligible_statuses db user authors now)"
  shows "s \<in> set (db_statuses db) \<and> a \<in> set (db_accounts db) \<and> da_id a = ds_account_id s
    \<and> authors (ds_account_id s)
    \<and> (ds_visibility s = 0 \<or> ds_visibility s = 1) \<and> ds_reblog_of_id s = None \<and> ds_deleted_at s = None
    \<and> da_suspended_at a = None \<and> da_silenced_at a = None
    \<and> (\<forall>e \<in> set (db_blocks db) \<union> set (db_mutes db).
         \<not> (de_account_id e = user \<and> de_target_account_id e = ds_account_id s))
    \<and> (\<forall>d. (user, d) \<in> set (db_domain_blocks db) \<longrightarrow> da_domain a \<noteq> Some d)
    \<and> now - hours 48 < ds_created_at s
    \<and> (ds_in_reply_to_id s = None \<or> ds_in_reply_to_account_id s = Some (ds_account_id s))"
  using assms by (auto simp: eligible_statuses_def anti_join_filter list_ex_iff)

lemma set_left_join: "fst ` set (left_join on xs ys) \<subseteq> set xs"
  by (auto simp: left_join_def Let_def split: if_splits)

lemma ranked_sound: "fst ` set (ranked_statuses db user authors now k) \<subseteq> set (eligible_statuses db user authors now)"
proof -
  have "set (map snd (filter P (row_number key xs))) \<subseteq> set xs" for P and key :: "'a \<Rightarrow> 'k" and xs
    using set_row_number [of key xs] by auto
  then show ?thesis unfolding ranked_statuses_def Let_def
    by (rule order_trans [OF image_mono]) (simp add: set_left_join)
qed

lemma candidate_rows:
  assumes "r \<in> set (candidate_query db user authors now k limit)"
  shows "\<exists>s a. (s, a) \<in> set (eligible_statuses db user authors now) \<and> r = select_status s a"
proof -
  obtain x where x: "x \<in> set (ranked_statuses db user authors now k)" "r = select_status (fst (fst x)) (snd (fst x))"
    using in_take_map [OF assms [unfolded candidate_query_def]] by auto
  then have "(fst (fst x), snd (fst x)) \<in> set (eligible_statuses db user authors now)"
    using ranked_sound by fastforce
  with x(2) show ?thesis by blast
qed

lemma candidate_query_length: "length (candidate_query db user authors now k limit) \<le> limit"
  by (simp add: candidate_query_def)

lemma ranked_per_author:
  "length (filter (\<lambda>y. ds_account_id (fst (fst y)) = x) (ranked_statuses db user authors now k)) \<le> k"
proof -
  have "length (filter (\<lambda>y. key y = x) (map snd (filter (\<lambda>(rn, x). rn \<le> k) (row_number key ys)))) \<le> k"
    for key :: "'a \<Rightarrow> int" and ys
  proof -
    have "filter (\<lambda>y. key y = x) (map snd (filter (\<lambda>(rn, x). rn \<le> k) (row_number key ys)))
        = map snd (filter (\<lambda>(i, y). key y = x \<and> i \<le> k) (row_number key ys))"
      by (simp add: filter_map comp_def case_prod_beta' conj_commute)
    then show ?thesis using length_row_number [of key x k ys] by simp
  qed
  then show ?thesis unfolding ranked_statuses_def Let_def .
qed

lemma candidate_query_per_author:
  "length (filter (\<lambda>r. sr_account_id r = x) (candidate_query db user authors now k limit)) \<le> k"
proof -
  have "length (filter (\<lambda>r. sr_account_id r = x) (candidate_query db user authors now k limit))
      \<le> length (filter (\<lambda>y. ds_account_id (fst (fst y)) = x)
          (order_desc (\<lambda>x. ds_created_at (fst (fst x))) (ranked_statuses db user authors now k)))"
    unfolding candidate_query_def
    by (rule order_trans [OF length_filter_take]) (simp add: filter_map comp_def select_status_def)
  also have "\<dots> \<le> k" using ranked_per_author by (simp add: order_desc_def)
  finally show ?thesis .
qed

section \<open>The candidates of the source\<close>

definition affinity_of :: "(fl \<Rightarrow> fl) \<Rightarrow> mastodon_db option \<Rightarrow> network_source \<Rightarrow> instant \<Rightarrow> int \<rightharpoonup> fl" where
  "affinity_of ln_f db1 src now = log_normalize ln_f (affinity_query (the db1) (ns_user_id src) now top_authors)"

lemma network_collect_cases:
  assumes "c \<in> set (network_collect ln_f exp_f now db1 db2 db3 src limit)"
  obtains db r rows where "db2 = Some db"
    "r \<in> set (candidate_query db (ns_user_id src) (\<lambda>k. affinity_of ln_f db1 src now k \<noteq> None) now
        posts_per_author (limit_i64 limit))"
    "c_item c = row_to_post r (ns_instance_domain src) (ns_media src)"
    "c_score c = network_score (unwrap_or (affinity_of ln_f db1 src now (sr_account_id r)) (Fin 0))
        (unwrap_or (net_normalize ln_f rows (sr_id r)) (Fin 0)) (recency exp_f now (sr_created_at r))"
    "rows = [] \<or> (\<exists>db ids. db3 = Some db \<and> rows = network_engagement_query db (ns_user_id src) ids)"
proof -
  obtain d1 d2 where d: "db1 = Some d1" "db2 = Some d2"
    using assms by (cases db1; cases db2) (auto simp: network_collect_def Let_def split: if_splits)
  let ?aff = "affinity_of ln_f db1 src now"
  let ?cs = "candidate_query d2 (ns_user_id src) (\<lambda>k. ?aff k \<noteq> None) now posts_per_author (limit_i64 limit)"
  let ?rows = "case db3 of Some db \<Rightarrow> network_engagement_query db (ns_user_id src) (map sr_id ?cs) | None \<Rightarrow> []"
  have "c \<in> set (network_candidates exp_f now src ?aff (net_normalize ln_f ?rows) ?cs)"
    using assms unfolding d affinity_of_def option.sel
    by (auto simp: network_collect_def Let_def simp del: not_None_eq split: if_splits)
  then obtain r where r: "r \<in> set ?cs" "c = (candidate_new (row_to_post r (ns_instance_domain src) (ns_media src)) ''local/network'')
      \<lparr>c_score := network_score (unwrap_or (?aff (sr_account_id r)) (Fin 0))
         (unwrap_or (net_normalize ln_f ?rows (sr_id r)) (Fin 0)) (recency exp_f now (sr_created_at r))\<rparr>"
    unfolding network_candidates_def set_map by (rule imageE)
  show thesis
  proof (rule that [OF d(2) r(1), of ?rows])
    show "c_item c = row_to_post r (ns_instance_domain src) (ns_media src)"
      unfolding r(2) by (simp add: candidate_new_def)
    show "c_score c = network_score (unwrap_or (?aff (sr_account_id r)) (Fin 0))
        (unwrap_or (net_normalize ln_f ?rows (sr_id r)) (Fin 0)) (recency exp_f now (sr_created_at r))"
      unfolding r(2) by simp
    show "?rows = [] \<or> (\<exists>db ids. db3 = Some db \<and> ?rows = network_engagement_query db (ns_user_id src) ids)"
      by (cases db3) auto
  qed
qed

lemma network_collect_length: "length (network_collect ln_f exp_f now db1 db2 db3 src limit) \<le> limit"
  using order_trans [OF candidate_query_length limit_i64_le]
  by (auto simp: network_collect_def network_candidates_def Let_def split: option.splits)

section \<open>Bounds of the scores\<close>

text \<open>
  What the code relies on of \<open>ln\<close> and \<open>exp\<close>: from 1 on \<open>ln\<close> is finite, not negative and
  monotonic, and at or below 0 \<open>exp\<close> is finite and between 0 and 1.
\<close>

definition log_like :: "(fl \<Rightarrow> fl) \<Rightarrow> bool" where
  "log_like f \<longleftrightarrow> (\<forall>a b. 1 \<le> a \<and> a \<le> b \<longrightarrow> (\<exists>l m. f (Fin a) = Fin l \<and> f (Fin b) = Fin m \<and> 0 \<le> l \<and> l \<le> m))"

definition exp_like :: "(fl \<Rightarrow> fl) \<Rightarrow> bool" where
  "exp_like f \<longleftrightarrow> (\<forall>a. a \<le> 0 \<longrightarrow> (\<exists>e. f (Fin a) = Fin e \<and> 0 \<le> e \<and> e \<le> 1))"

definition in_unit :: "fl \<Rightarrow> bool" where
  "in_unit x \<longleftrightarrow> (\<exists>q. x = Fin q \<and> 0 \<le> q \<and> q \<le> 1)"

lemma in_unit_0 [simp]: "in_unit (Fin 0)"
  by (simp add: in_unit_def)

lemma normalize_unit:
  assumes "log_like f" "1 \<le> a" "a \<le> b" shows "in_unit (normalize_by (f (Fin b)) (f (Fin a)))"
proof -
  obtain l m where lm: "f (Fin a) = Fin l" "f (Fin b) = Fin m" "0 \<le> l" "l \<le> m"
    using assms unfolding log_like_def by blast
  show ?thesis
  proof (cases "0 < m")
    case True
    have "\<exists>z. rnd binary64 (l / m) = Fin z \<and> 0 \<le> z \<and> z \<le> 1"
      using lm True representable_int [of 1] by (intro rnd_between) auto
    then show ?thesis using True lm by (auto simp: normalize_by_def in_unit_def fl_lt_iff)
  qed (use lm in \<open>simp add: normalize_by_def fl_lt_iff\<close>)
qed

text \<open>One plus a bounded non-negative value, rounded, is at least 1 and keeps the order.\<close>

lemma add_one:
  assumes "0 \<le> v" "v \<le> 2 ^ 50"
  shows "\<exists>z. fl_add binary64 (Fin 1) (Fin v) = Fin z \<and> 1 \<le> z"
proof -
  have "\<exists>z. rnd binary64 (1 + v) = Fin z \<and> 1 \<le> z \<and> z \<le> of_int (2 ^ 51)"
    using assms representable_int [of 1] representable_int [of "2 ^ 51"] by (intro rnd_between) auto
  then show ?thesis by auto
qed

lemma add_one_mono:
  assumes "0 \<le> v" "v \<le> w" "w \<le> 2 ^ 50"
  shows "\<exists>a b. fl_add binary64 (Fin 1) (Fin v) = Fin a \<and> fl_add binary64 (Fin 1) (Fin w) = Fin b
    \<and> 1 \<le> a \<and> a \<le> b"
proof -
  obtain a b where ab: "rnd binary64 (1 + v) = Fin a" "rnd binary64 (1 + w) = Fin b" "1 \<le> a"
    using add_one [of v] add_one [of w] assms by auto
  moreover have "rnd binary64 (1 + v) \<le> rnd binary64 (1 + w)" using assms(2) by (intro rnd_mono) auto
  ultimately show ?thesis by simp
qed

text \<open>Rows whose values are finite, not negative and bounded.\<close>

definition bounded_row :: "int \<times> fl \<Rightarrow> bool" where
  "bounded_row r \<longleftrightarrow> (\<exists>q. snd r = Fin q \<and> 0 \<le> q \<and> q \<le> 2 ^ 50)"

lemma fold_fl_max:
  assumes "\<forall>r \<in> set rows. bounded_row r" "0 \<le> m" "m \<le> 2 ^ 50"
  shows "\<exists>M. foldl (\<lambda>m (_, v). fl_max m v) (Fin m) rows = Fin M \<and> m \<le> M \<and> M \<le> 2 ^ 50
    \<and> (\<forall>q. Fin q \<in> snd ` set rows \<longrightarrow> q \<le> M)"
  using assms
proof (induction rows arbitrary: m)
  case (Cons r rows)
  obtain q where q: "snd r = Fin q" "0 \<le> q" "q \<le> 2 ^ 50" using Cons.prems by (auto simp: bounded_row_def)
  have mx: "fl_max (Fin m) (Fin q) = Fin (max m q)" by (simp add: fl_max_max max_def)
  have "\<exists>M. foldl (\<lambda>m (_, v). fl_max m v) (Fin (max m q)) rows = Fin M \<and> max m q \<le> M \<and> M \<le> 2 ^ 50
    \<and> (\<forall>q. Fin q \<in> snd ` set rows \<longrightarrow> q \<le> M)"
    by (rule Cons.IH) (use Cons.prems q in auto)
  then show ?case using q by (auto simp: case_prod_beta' mx)
qed auto

lemma log_normalize_unit:
  assumes "log_like f" "\<forall>r \<in> set rows. bounded_row r"
  shows "in_unit (unwrap_or (log_normalize f rows k) (Fin 0))"
proof (cases "log_normalize f rows k")
  case (Some x)
  obtain M where M: "foldl (\<lambda>m (_, v). fl_max m v) (Fin 0) rows = Fin M" "0 \<le> M" "M \<le> 2 ^ 50"
      "\<forall>q. Fin q \<in> snd ` set rows \<longrightarrow> q \<le> M"
    using fold_fl_max [OF assms(2), of 0] by auto
  obtain i v where iv: "(i, v) \<in> set rows"
      "x = normalize_by (f (fl_add binary64 (Fin 1) (Fin M))) (f (fl_add binary64 (Fin 1) v))"
    using Some hashmap_of_Some unfolding log_normalize_def M Let_def by fastforce
  then obtain q where q: "v = Fin q" "0 \<le> q" using assms(2) by (fastforce simp: bounded_row_def)
  then have "q \<le> M" using M(4) iv(1) by force
  then obtain a b where ab: "fl_add binary64 (Fin 1) (Fin q) = Fin a" "fl_add binary64 (Fin 1) (Fin M) = Fin b"
      "1 \<le> a" "a \<le> b"
    using add_one_mono [of q M] q M(3) by blast
  then have "in_unit x" using normalize_unit [OF assms(1), of a b] by (simp only: iv(2) q(1) ab)
  then show ?thesis by (simp add: Some)
qed simp

lemma net_normalize_unit:
  assumes "log_like f" "\<forall>r \<in> set rows. 0 \<le> snd r \<and> snd r \<le> 2 ^ 50"
  shows "in_unit (unwrap_or (net_normalize f rows k) (Fin 0))"
proof (cases "net_normalize f rows k")
  case (Some x)
  then have ne: "rows \<noteq> []" by (auto simp: net_normalize_def hashmap_of_def)
  let ?M = "Max (set (map snd rows))"
  have ex: "fl_of_int binary64 n = Fin (of_int n)" if "0 \<le> n" "n \<le> 2 ^ 50" for n
    using that representable_int [of n] by (simp add: fl_of_int_def representable_def)
  have "?M \<in> set (map snd rows)" using ne by (intro Max_in) auto
  then have M: "0 \<le> ?M" "?M \<le> 2 ^ 50" using assms(2) by auto
  obtain i n where n: "(i, n) \<in> set rows"
      "x = normalize_by (f (fl_add binary64 (Fin 1) (fl_of_int binary64 ?M)))
             (f (fl_add binary64 (Fin 1) (fl_of_int binary64 n)))"
    using Some ne hashmap_of_Some unfolding net_normalize_def Let_def by fastforce
  have n': "0 \<le> n" "n \<le> 2 ^ 50" using assms(2) n(1) by auto
  have "n \<le> ?M" using n(1) by (intro Max_ge) force+
  then have le: "(of_int n :: rat) \<le> of_int ?M" by (simp only: of_int_le_iff)
  have "(of_int ?M :: rat) \<le> of_int (2 ^ 50)" using M(2) by (simp only: of_int_le_iff)
  then obtain a b where ab: "fl_add binary64 (Fin 1) (Fin (of_int n)) = Fin a"
      "fl_add binary64 (Fin 1) (Fin (of_int ?M)) = Fin b" "1 \<le> a" "a \<le> b"
    using add_one_mono [of "of_int n" "of_int ?M"] le n' by auto
  have "in_unit x"
    using normalize_unit [OF assms(1) ab(3,4)] unfolding n(2) ex [OF n'] ex [OF M] ab(1,2) .
  then show ?thesis by (simp add: Some)
qed simp

lemma half_life_12 [simp]: "recency_half_life_hours = Fin 12"
  using rnd_int_pos [of 12] by (simp add: recency_half_life_hours_def fl_lit_def)

lemma recency_unit:
  assumes "exp_like f" "created \<le> now" "now - created \<le> 2 ^ 50"
  shows "in_unit (recency f now created)"
proof -
  let ?n = "num_seconds (now - created)"
  have n: "0 \<le> ?n" "?n \<le> 2 ^ 50" using assms(2,3) by (auto simp: num_seconds_def sgn_if)
  have N: "fl_of_int binary64 ?n = Fin (of_int ?n)"
    using representable_int [of ?n] n by (simp add: fl_of_int_def representable_def)
  have "(of_int ?n :: rat) \<le> of_int (2 ^ 50)" using n(2) by (simp only: of_int_le_iff)
  then have "\<exists>z. rnd binary64 (of_int ?n / 3600) = Fin z \<and> 0 \<le> z \<and> z \<le> of_int (2 ^ 50)"
    using n representable_int [of "2 ^ 50"] by (intro rnd_between) auto
  then obtain h where h: "rnd binary64 (of_int ?n / 3600) = Fin h" "0 \<le> h" "h \<le> 2 ^ 50" by auto
  have "\<exists>z. rnd binary64 (- h / 12) = Fin z \<and> of_int (- (2 ^ 50)) \<le> z \<and> z \<le> 0"
    using h representable_int [of "- (2 ^ 50)"] by (intro rnd_between) auto
  then show ?thesis
    using assms(1) h N by (auto simp: recency_def Let_def exp_like_def in_unit_def)
qed

lemma weights:
  "w_affinity = Fin (4953959590107546 / 2 ^ 53)" "w_network = Fin (1 / 4)" "w_recency = Fin (3602879701896397 / 2 ^ 54)"
  by code_simp+

lemma top_score: "network_score (Fin 1) (Fin 1) (Fin 1) = Fin 1"
  by code_simp

lemma rnd_mono_Fin:
  "x \<le> y \<Longrightarrow> rnd binary64 y = Fin b \<Longrightarrow> 0 \<le> x \<Longrightarrow> \<exists>z. rnd binary64 x = Fin z \<and> 0 \<le> z \<and> z \<le> b"
  using rnd_mono [of x y binary64] rnd_mono [of 0 x binary64] by (cases "rnd binary64 x") auto

lemma network_score_unit:
  assumes "in_unit a" "in_unit n" "in_unit r" shows "in_unit (network_score a n r)"
proof -
  obtain a' n' r' where q: "a = Fin a'" "n = Fin n'" "r = Fin r'" "0 \<le> a'" "0 \<le> n'" "0 \<le> r'"
      "a' \<le> 1" "n' \<le> 1" "r' \<le> 1"
    using assms by (auto simp: in_unit_def)
  obtain wa wn wr where w: "w_affinity = Fin wa" "w_network = Fin wn" "w_recency = Fin wr" "0 \<le> wa" "0 \<le> wn" "0 \<le> wr"
    by (rule that [OF weights]) simp_all
  have fin: "\<exists>t. x = Fin t" if "fl_add binary64 x y = Fin b" for x y b
    using that by (cases x; cases y) (auto split: if_splits)
  have fin': "\<exists>t. y = Fin t" if "fl_add binary64 x y = Fin b" for x y b
    using that by (cases x; cases y) (auto split: if_splits)
  have top: "fl_add binary64 (fl_add binary64 (rnd binary64 wa) (rnd binary64 wn)) (rnd binary64 wr) = Fin 1"
    using top_score by (simp add: network_score_def w)
  obtain s1 t3 where s: "fl_add binary64 (rnd binary64 wa) (rnd binary64 wn) = Fin s1" "rnd binary64 wr = Fin t3"
    using fin [OF top] fin' [OF top] by blast
  obtain t1 t2 where t12: "rnd binary64 wa = Fin t1" "rnd binary64 wn = Fin t2"
    using fin [OF s(1)] fin' [OF s(1)] by blast
  have t: "rnd binary64 wa = Fin t1" "rnd binary64 wn = Fin t2" "rnd binary64 wr = Fin t3"
      "rnd binary64 (t1 + t2) = Fin s1" "rnd binary64 (s1 + t3) = Fin 1"
    using t12 s top by simp_all
  obtain x1 where x1: "rnd binary64 (wa * a') = Fin x1" "0 \<le> x1" "x1 \<le> t1"
    using rnd_mono_Fin [OF _ t(1), of "wa * a'"] w q by (auto simp: mult_left_le)
  obtain x2 where x2: "rnd binary64 (wn * n') = Fin x2" "0 \<le> x2" "x2 \<le> t2"
    using rnd_mono_Fin [OF _ t(2), of "wn * n'"] w q by (auto simp: mult_left_le)
  obtain x3 where x3: "rnd binary64 (wr * r') = Fin x3" "0 \<le> x3" "x3 \<le> t3"
    using rnd_mono_Fin [OF _ t(3), of "wr * r'"] w q by (auto simp: mult_left_le)
  obtain y where y: "rnd binary64 (x1 + x2) = Fin y" "0 \<le> y" "y \<le> s1"
    using rnd_mono_Fin [OF _ t(4), of "x1 + x2"] x1 x2 by auto
  obtain z where "rnd binary64 (y + x3) = Fin z" "0 \<le> z" "z \<le> 1"
    using rnd_mono_Fin [OF _ t(5), of "y + x3"] y x3 by auto
  then show ?thesis by (simp add: network_score_def w q x1(1) x2(1) x3(1) y(1) in_unit_def)
qed

text \<open>The sums of the affinity query are bounded when there are at most \<open>2 ^ 40\<close> marks of a kind.\<close>

definition affinity_lists :: "mastodon_db \<Rightarrow> int \<Rightarrow> instant \<Rightarrow> (rat \<times> int list) list" where
  "affinity_lists db user now =
     [(1, marked_authors (db_favourites db) db user now), (3 / 2, marked_authors (db_bookmarks db) db user now),
      (3, reblogged_authors db user now), (4, replied_authors db user now),
      (3 / 2, mentioned_authors False db user now), (5, mentioned_authors True db user now)]"

definition few_marks :: "mastodon_db \<Rightarrow> int \<Rightarrow> instant \<Rightarrow> bool" where
  "few_marks db user now \<longleftrightarrow> (\<forall>wl \<in> set (affinity_lists db user now). length (snd wl) \<le> 2 ^ 40)"

lemma weigh_bounded:
  assumes "length ks \<le> 2 ^ 40" "0 \<le> w" "w \<le> 5" "(k, v) \<in> set (weigh w ks)"
  shows "\<exists>q. v = Fin q \<and> 0 \<le> q \<and> q \<le> of_int (2 ^ 43)"
proof -
  obtain n where n: "v = fl_mul binary64 (fl_of_nat binary64 n) (Fin w)" "n = count_list ks k"
    using assms(4) by (auto simp: weigh_def group_count_def)
  have "n \<le> 2 ^ 40" using n(2) count_le_length [of ks k] assms(1) by linarith
  then have e: "fl_of_nat binary64 n = Fin (of_nat n)" by (intro fl_of_nat_exact) simp
  have "(of_nat n :: rat) \<le> of_nat (2 ^ 40)" using \<open>n \<le> 2 ^ 40\<close> by (simp only: of_nat_le_iff)
  then have "of_nat n * w \<le> of_nat (2 ^ 40) * 5" using assms(2,3) by (intro mult_mono) auto
  then have "of_nat n * w \<le> of_int (2 ^ 43)" by simp
  then have "\<exists>z. rnd binary64 (of_nat n * w) = Fin z \<and> 0 \<le> z \<and> z \<le> of_int (2 ^ 43)"
    using assms(2) representable_int [of "2 ^ 43"] by (intro rnd_between) auto
  then show ?thesis by (auto simp: n(1) e)
qed

lemma fl_sum_bounded:
  assumes "\<forall>v \<in> set vs. \<exists>q. v = Fin q \<and> 0 \<le> q \<and> q \<le> of_int (2 ^ 43)"
    "0 \<le> a" "a \<le> of_int (int j * 2 ^ 43)" "j + length vs \<le> 100"
  shows "\<exists>s. foldl (fl_add binary64) (Fin a) vs = Fin s \<and> 0 \<le> s \<and> s \<le> of_int (int (j + length vs) * 2 ^ 43)"
  using assms
proof (induction vs arbitrary: a j)
  case (Cons v vs)
  obtain q where q: "v = Fin q" "0 \<le> q" "q \<le> of_int (2 ^ 43)" using Cons.prems(1) by auto
  have "a + q \<le> of_int (int (Suc j) * 2 ^ 43)" using Cons.prems(3) q by (simp add: algebra_simps)
  then have "\<exists>z. rnd binary64 (a + q) = Fin z \<and> 0 \<le> z \<and> z \<le> of_int (int (Suc j) * 2 ^ 43)"
    using Cons.prems(2,4) q representable_int [of "int (Suc j) * 2 ^ 43"] by (intro rnd_between) auto
  then obtain z where z: "rnd binary64 (a + q) = Fin z" "0 \<le> z" "z \<le> of_int (int (Suc j) * 2 ^ 43)" by blast
  have "\<exists>s. foldl (fl_add binary64) (Fin z) vs = Fin s \<and> 0 \<le> s \<and> s \<le> of_int (int (Suc j + length vs) * 2 ^ 43)"
    by (rule Cons.IH) (use Cons.prems z in auto)
  then show ?case by (simp add: q(1) z(1))
qed auto

lemma distinct_key_filter:
  "distinct (map fst kvs) \<Longrightarrow> length (filter (\<lambda>(k', v). k' = k) kvs) \<le> 1"
  by (induction kvs) (auto simp: filter_empty_conv, force)

lemma weigh_keys: "distinct (map fst (weigh w ks))"
  by (simp add: weigh_def group_count_def comp_def case_prod_beta')

lemma affinity_bounded:
  assumes "few_marks db user now" "r \<in> set (affinity_query db user now limit)"
  shows "bounded_row r"
proof -
  define comb where "comb = concat (map (\<lambda>(w, ks). weigh w ks) (affinity_lists db user now))"
  have q: "affinity_query db user now limit = take limit (sort_key (\<lambda>(k, v). fl_neg v)
      (map (\<lambda>k. (k, fl_sum binary64 (map snd (filter (\<lambda>(k', v). k' = k) comb)))) (remdups (map fst comb))))"
    by (simp add: affinity_query_def affinity_lists_def comb_def)
  obtain k where r: "r = (k, fl_sum binary64 (map snd (filter (\<lambda>(k', v). k' = k) comb)))"
    using in_set_takeD [OF assms(2) [unfolded q]] by auto
  let ?f = "filter (\<lambda>(k', v). k' = k) comb"
  have "\<exists>x. v = Fin x \<and> 0 \<le> x \<and> x \<le> of_int (2 ^ 43)" if v: "v \<in> snd ` set ?f" for v
  proof -
    obtain w ks where w: "(w, ks) \<in> set (affinity_lists db user now)" "(k, v) \<in> set (weigh w ks)"
      using v by (auto simp: comb_def)
    then have "0 \<le> w" "w \<le> 5" by (auto simp: affinity_lists_def)
    then show ?thesis using w assms(1) by (intro weigh_bounded) (force simp: few_marks_def)+
  qed
  moreover have len: "length ?f \<le> 6"
  proof -
    have "length ?f \<le> length (affinity_lists db user now)"
      unfolding comb_def using distinct_key_filter [OF weigh_keys, of k]
      by (intro length_filter_concat_le) auto
    then show ?thesis by (simp add: affinity_lists_def)
  qed
  ultimately obtain s where s: "foldl (fl_add binary64) (Fin 0) (map snd ?f) = Fin s" "0 \<le> s"
      "s \<le> of_int (int (length ?f) * 2 ^ 43)"
    using fl_sum_bounded [of "map snd ?f" 0 0] by auto
  have "int (length ?f) * 2 ^ 43 \<le> 6 * 2 ^ 43" using len by simp
  then have "(of_int (int (length ?f) * 2 ^ 43) :: rat) \<le> of_int (6 * 2 ^ 43)" by (simp only: of_int_le_iff)
  then have "s \<le> 2 ^ 50" using s(3) by simp
  then show ?thesis using s by (simp add: r bounded_row_def fl_sum_def)
qed

text \<open>Engagement counts are bounded by the size of the tables.\<close>

definition few_engagements :: "mastodon_db \<Rightarrow> bool" where
  "few_engagements db \<longleftrightarrow>
     (length (db_favourites db) + length (db_statuses db)) * length (db_follows db) \<le> 2 ^ 50"

lemma length_engaged:
  "length (engaged_statuses db user ids)
     \<le> (length (db_favourites db) + length (db_statuses db)) * length (db_follows db)"
proof -
  let ?fav = "[dm_status_id f. f \<leftarrow> db_favourites db, fol \<leftarrow> db_follows db,
      de_target_account_id fol = dm_account_id f, de_account_id fol = user, dm_status_id f \<in> set ids]"
  let ?reb = "[ds_reblog_of_id r. r \<leftarrow> db_statuses db, fol \<leftarrow> db_follows db,
      de_target_account_id fol = ds_account_id r, de_account_id fol = user,
      ds_reblog_of_id r \<in> Some ` set ids]"
  have "length ?fav \<le> length (db_favourites db) * (length (db_follows db) * 1)"
    by (intro length_concat_map_le) auto
  moreover have "length ?reb \<le> length (db_statuses db) * (length (db_follows db) * 1)"
    by (intro length_concat_map_le) auto
  moreover have "length (List.map_filter id ?reb) \<le> length ?reb" by (rule length_map_filter_le)
  ultimately show ?thesis unfolding engaged_statuses_def length_append add_mult_distrib by linarith
qed

lemma engagement_bounded:
  assumes "few_engagements db" "r \<in> set (network_engagement_query db user ids)"
  shows "0 \<le> snd r \<and> snd r \<le> 2 ^ 50"
proof -
  let ?es = "engaged_statuses db user ids"
  obtain k where k: "snd r = int (count_list ?es k)"
    using assms(2) by (auto simp: network_engagement_query_def group_count_def)
  have "count_list ?es k \<le> 2 ^ 50"
    using count_le_length [of ?es k] length_engaged [of db user ids] assms(1)
    unfolding few_engagements_def by linarith
  then have "int (count_list ?es k) \<le> int (2 ^ 50)" by (simp only: of_nat_le_iff)
  then show ?thesis by (simp add: k)
qed

section \<open>Properties\<close>

text \<open>A small database: user 1 favourited a post of account 2, and account 3 is blocked.\<close>

definition an_account :: "int \<Rightarrow> db_account" where
  "an_account i = \<lparr>da_id = i, da_username = show_int i, da_domain = None, da_display_name = None,
     da_url = None, da_avatar_file_name = None, da_avatar_remote_url = None, da_header_file_name = None,
     da_header_remote_url = None, da_avatar_version = None, da_header_version = None,
     da_suspended_at = None, da_silenced_at = None,
     da_note = [], da_uri = [], da_created_at = 0, da_discoverable = None, da_indexable = False,
     da_locked = False, da_actor_type = None, da_fields = None\<rparr>"

definition a_status :: "int \<Rightarrow> int \<Rightarrow> int \<Rightarrow> db_status" where
  "a_status i acc vis = \<lparr>ds_id = i, ds_account_id = acc, ds_uri = ''uri'', ds_url = None, ds_text = ''t'',
     ds_spoiler_text = None, ds_sensitive = False, ds_language = None, ds_created_at = 0,
     ds_visibility = vis, ds_in_reply_to_id = None, ds_in_reply_to_account_id = None,
     ds_reblog_of_id = None, ds_deleted_at = None,
     ds_edited_at = None, ds_media_order = None\<rparr>"

definition small_db :: mastodon_db where
  "small_db = \<lparr>db_accounts = map an_account [1, 2, 3],
     db_statuses = [a_status 10 2 0, a_status 11 2 3, a_status 12 3 0],
     db_favourites = [\<lparr>dm_account_id = 1, dm_status_id = 10, dm_created_at = 0\<rparr>,
                      \<lparr>dm_account_id = 1, dm_status_id = 12, dm_created_at = 0\<rparr>],
     db_bookmarks = [], db_mentions = [], db_follows = [],
     db_blocks = [\<lparr>de_account_id = 1, de_target_account_id = 3\<rparr>], db_mutes = [],
     db_domain_blocks = [], db_stats = [], db_tags = [(5, ''rust'')], db_statuses_tags = [(10, 5)],
     db_account_stats = [], db_media = [], db_cards = [], db_cards_statuses = [], db_emojis = [],
     db_quotes = []\<rparr>"

definition a_network :: network_source where
  "a_network = \<lparr>ns_user_id = 1, ns_instance_domain = ''a.test'',
     ns_media = media_config_new ''a.test'' False\<rparr>"

fun minus_one :: "fl \<Rightarrow> fl" where
  "minus_one (Fin q) = Fin (q - 1)"
| "minus_one x = x"

lemma minus_one_log_like: "log_like minus_one"
  by (simp add: log_like_def)

lemma const_one_exp_like: "exp_like (\<lambda>_. Fin 1)"
  by (simp add: exp_like_def)

lemma hashmap_of_dom: "hashmap_of kvs k \<noteq> None \<longleftrightarrow> k \<in> fst ` set kvs"
proof -
  have "foldl (\<lambda>m (k, v). m(k \<mapsto> v)) m kvs k \<noteq> None \<longleftrightarrow> m k \<noteq> None \<or> k \<in> fst ` set kvs" for m
    by (induction kvs arbitrary: m) auto
  then show ?thesis by (simp add: hashmap_of_def)
qed

lemma log_normalize_dom: "log_normalize f rows k \<noteq> None \<longleftrightarrow> k \<in> fst ` set rows"
  unfolding log_normalize_def Let_def by (rule trans [OF hashmap_of_dom]) force

lemma small_affinity: "affinity_query small_db 1 5 top_authors = [(2, Fin 1), (3, Fin 1)]"
  by code_simp

lemma small_candidates:
  "candidate_query small_db 1 (\<lambda>k. k \<in> {2, 3}) 5 posts_per_author 40
    = [select_status (a_status 10 2 0) (an_account 2)]"
  by code_simp

lemma small_collect:
  "map c_item (network_collect f g 5 (Some small_db) (Some small_db) db3 a_network 40)
    = [row_to_post (select_status (a_status 10 2 0) (an_account 2)) ''a.test'' (media_config_new ''a.test'' False)]"
proof -
  have u: "ns_user_id a_network = 1" "limit_i64 40 = 40" by (simp_all add: a_network_def limit_i64_def i64_max_def)
  have "(\<lambda>k. log_normalize f [(2, Fin 1), (3, Fin 1)] k \<noteq> None) = (\<lambda>k. k \<in> {2, 3})"
    by (simp only: fun_eq_iff log_normalize_dom) simp
  then show ?thesis
    using small_candidates
    by (simp add: network_collect_def network_candidates_def u small_affinity Let_def candidate_new_def a_network_def)
qed

lemma candidate_query_pairs:
  "\<exists>rows. candidate_query db user authors now k limit = map (\<lambda>(s, a). select_status s a) rows
    \<and> set rows \<subseteq> set (eligible_statuses db user authors now)"
proof -
  let ?xs = "take limit (order_desc (\<lambda>x. ds_created_at (fst (fst x))) (ranked_statuses db user authors now k))"
  have "set ?xs \<subseteq> set (ranked_statuses db user authors now k)" using set_take_subset by fastforce
  then have "set (map fst ?xs) \<subseteq> set (eligible_statuses db user authors now)"
    using ranked_sound [of db user authors now k] by (simp only: set_map) blast
  moreover have "candidate_query db user authors now k limit = map (\<lambda>(s, a). select_status s a) (map fst ?xs)"
    by (simp add: candidate_query_def take_map case_prod_beta')
  ultimately show ?thesis by blast
qed

text \<open>The items the source puts forward, with the rows of the database they are made of.\<close>

lemma network_collect_rows:
  "\<exists>rows. map c_item (network_collect ln_f exp_f now db1 (Some db) db3 src limit)
      = map (\<lambda>(s, a). row_to_post (select_status s a) (ns_instance_domain src) (ns_media src)) rows
    \<and> length rows \<le> limit \<and> (\<forall>x. length (filter (\<lambda>(s, a). ds_account_id s = x) rows) \<le> posts_per_author)
    \<and> (rows = [] \<or> (\<exists>d1. db1 = Some d1 \<and> set rows \<subseteq> set (eligible_statuses db (ns_user_id src)
         (\<lambda>k. k \<in> fst ` set (affinity_query d1 (ns_user_id src) now top_authors)) now)))"
proof (cases "\<exists>d1. db1 = Some d1 \<and> affinity_query d1 (ns_user_id src) now top_authors \<noteq> []")
  case True
  then obtain d1 where d1: "db1 = Some d1" "affinity_query d1 (ns_user_id src) now top_authors \<noteq> []" by blast
  let ?A = "\<lambda>k. k \<in> fst ` set (affinity_query d1 (ns_user_id src) now top_authors)"
  let ?q = "candidate_query db (ns_user_id src) ?A now posts_per_author (limit_i64 limit)"
  obtain rows where rows: "?q = map (\<lambda>(s, a). select_status s a) rows"
      "set rows \<subseteq> set (eligible_statuses db (ns_user_id src) ?A now)"
    using candidate_query_pairs by blast
  have A: "(\<lambda>k. log_normalize ln_f (affinity_query d1 (ns_user_id src) now top_authors) k \<noteq> None) = ?A"
    by (rule ext) (rule log_normalize_dom)
  have "map c_item (network_collect ln_f exp_f now db1 (Some db) db3 src limit)
      = map (\<lambda>r. row_to_post r (ns_instance_domain src) (ns_media src)) ?q"
    using d1(2) by (simp add: network_collect_def d1(1) Let_def A network_candidates_def candidate_new_def del: not_None_eq)
  then have "map c_item (network_collect ln_f exp_f now db1 (Some db) db3 src limit)
      = map (\<lambda>(s, a). row_to_post (select_status s a) (ns_instance_domain src) (ns_media src)) rows"
    by (simp add: rows(1) case_prod_beta')
  moreover have "length rows \<le> limit"
    using candidate_query_length [of db "ns_user_id src" ?A now posts_per_author "limit_i64 limit"] limit_i64_le [of limit]
    unfolding rows(1) by simp
  moreover have "length (filter (\<lambda>(s, a). ds_account_id s = x) rows) \<le> posts_per_author" for x
    using candidate_query_per_author [of x db "ns_user_id src" ?A now posts_per_author "limit_i64 limit"]
    unfolding rows(1) by (simp add: filter_map comp_def case_prod_beta' select_status_def)
  ultimately show ?thesis using rows(2) d1(1) by blast
next
  case False
  then have "network_collect ln_f exp_f now db1 (Some db) db3 src limit = []"
    by (auto simp: network_collect_def Let_def split: option.splits)
  then show ?thesis by (intro exI [of _ "[]"]) simp
qed

text \<open>
  C20: What the network source puts forward are posts the user may see and wants to see. They are
  at most as many as were asked for and at most three of one author; each is public or unlisted,
  younger than 48 hours, not a reblog, not deleted and not a reply to somebody else; its author is
  one of the 200 accounts the user interacts with most, neither suspended nor silenced, and
  the user neither blocked nor muted the author nor blocked the author's domain.
\<close>

theorem network_source_safe:
  "\<exists>rows. map c_item (network_collect ln_f exp_f now db1 (Some db) db3 src limit)
      = map (\<lambda>(s, a). row_to_post (select_status s a) (ns_instance_domain src) (ns_media src)) rows
    \<and> length rows \<le> limit \<and> (\<forall>x. length (filter (\<lambda>(s, a). ds_account_id s = x) rows) \<le> 3)
    \<and> (\<forall>(s, a) \<in> set rows.
        s \<in> set (db_statuses db) \<and> a \<in> set (db_accounts db) \<and> da_id a = ds_account_id s
        \<and> (ds_visibility s = 0 \<or> ds_visibility s = 1) \<and> ds_reblog_of_id s = None \<and> ds_deleted_at s = None
        \<and> now - hours 48 < ds_created_at s
        \<and> (ds_in_reply_to_id s = None \<or> ds_in_reply_to_account_id s = Some (ds_account_id s))
        \<and> (\<exists>d1. db1 = Some d1 \<and> ds_account_id s \<in> fst ` set (affinity_query d1 (ns_user_id src) now 200))
        \<and> da_suspended_at a = None \<and> da_silenced_at a = None
        \<and> (\<forall>e \<in> set (db_blocks db) \<union> set (db_mutes db).
             \<not> (de_account_id e = ns_user_id src \<and> de_target_account_id e = ds_account_id s))
        \<and> (\<forall>d. (ns_user_id src, d) \<in> set (db_domain_blocks db) \<longrightarrow> da_domain a \<noteq> Some d))"
proof -
  obtain rows where r: "map c_item (network_collect ln_f exp_f now db1 (Some db) db3 src limit)
      = map (\<lambda>(s, a). row_to_post (select_status s a) (ns_instance_domain src) (ns_media src)) rows"
    "length rows \<le> limit" "\<forall>x. length (filter (\<lambda>(s, a). ds_account_id s = x) rows) \<le> posts_per_author"
    "rows = [] \<or> (\<exists>d1. db1 = Some d1 \<and> set rows \<subseteq> set (eligible_statuses db (ns_user_id src)
         (\<lambda>k. k \<in> fst ` set (affinity_query d1 (ns_user_id src) now top_authors)) now))"
    using network_collect_rows by blast
  show ?thesis
  proof (intro exI [of _ rows] conjI ballI)
    show "\<forall>x. length (filter (\<lambda>(s, a). ds_account_id s = x) rows) \<le> 3" using r(3) by (simp add: posts_per_author_def)
    fix x assume x: "x \<in> set rows"
    then obtain d1 where d1: "db1 = Some d1" "x \<in> set (eligible_statuses db (ns_user_id src)
         (\<lambda>k. k \<in> fst ` set (affinity_query d1 (ns_user_id src) now top_authors)) now)"
      using r(4) by auto
    obtain s a where sa: "x = (s, a)" by (cases x)
    note e = eligible_sound [OF d1(2) [unfolded sa]]
    show "case x of (s, a) \<Rightarrow>
        s \<in> set (db_statuses db) \<and> a \<in> set (db_accounts db) \<and> da_id a = ds_account_id s
        \<and> (ds_visibility s = 0 \<or> ds_visibility s = 1) \<and> ds_reblog_of_id s = None \<and> ds_deleted_at s = None
        \<and> now - hours 48 < ds_created_at s
        \<and> (ds_in_reply_to_id s = None \<or> ds_in_reply_to_account_id s = Some (ds_account_id s))
        \<and> (\<exists>d1. db1 = Some d1 \<and> ds_account_id s \<in> fst ` set (affinity_query d1 (ns_user_id src) now 200))
        \<and> da_suspended_at a = None \<and> da_silenced_at a = None
        \<and> (\<forall>e \<in> set (db_blocks db) \<union> set (db_mutes db).
             \<not> (de_account_id e = ns_user_id src \<and> de_target_account_id e = ds_account_id s))
        \<and> (\<forall>d. (ns_user_id src, d) \<in> set (db_domain_blocks db) \<longrightarrow> da_domain a \<noteq> Some d)"
      using e d1(1) unfolding sa top_authors_def prod.case by blast
  qed (rule r(1), rule r(2))
qed

theorem network_source_safe_witness:
  "\<exists>s a. map c_item (network_collect minus_one (\<lambda>_. Fin 1) 5 (Some small_db) (Some small_db) None a_network 40)
      = [row_to_post (select_status s a) ''a.test'' (media_config_new ''a.test'' False)]
    \<and> ds_visibility s \<in> {0, 1} \<and> da_silenced_at a = None"
proof -
  obtain rows where r: "map c_item (network_collect minus_one (\<lambda>_. Fin 1) 5 (Some small_db) (Some small_db) None a_network 40)
      = map (\<lambda>(s, a). row_to_post (select_status s a) (ns_instance_domain a_network) (ns_media a_network)) rows"
    "\<And>s a. (s, a) \<in> set rows \<Longrightarrow> (ds_visibility s = 0 \<or> ds_visibility s = 1) \<and> da_silenced_at a = None"
    using network_source_safe [of minus_one "\<lambda>_. Fin 1" 5 "Some small_db" small_db None a_network 40]
    by (elim exE conjE) (rule that, assumption, fast)
  have "length rows = 1"
    using arg_cong [OF r(1), of length] small_collect [of minus_one "\<lambda>_. Fin 1" None, THEN arg_cong, of length] by simp
  then obtain s a where rows: "rows = [(s, a)]" by (cases rows) auto
  show ?thesis
    using r(1) r(2) [of s a] unfolding rows by (intro exI [of _ s] exI [of _ a]) (auto simp: a_network_def)
qed

text \<open>
  C34: When no post is dated in the future, the score of every candidate of the network source lies
  between 0 and 1, exactly, with all roundings of \<open>f64\<close>: given a logarithm and an exponential that
  are monotonic and bounded as real ones are, and tables of a realistic size. (The query does not
  exclude posts dated in the future, and their recency is above 1.)
\<close>

theorem network_scores_bounded:
  assumes "log_like ln_f" "exp_like exp_f" "few_marks db1 (ns_user_id src) now" "few_engagements db3"
    and "\<forall>s \<in> set (db_statuses db2). ds_created_at s \<le> now"
    and "c \<in> set (network_collect ln_f exp_f now (Some db1) (Some db2) (Some db3) src limit)"
  shows "in_unit (c_score c)"
proof -
  let ?aff = "affinity_of ln_f (Some db1) src now"
  obtain r rows where *:
    "r \<in> set (candidate_query db2 (ns_user_id src) (\<lambda>k. ?aff k \<noteq> None) now posts_per_author (limit_i64 limit))"
    "c_score c = network_score (unwrap_or (?aff (sr_account_id r)) (Fin 0))
        (unwrap_or (net_normalize ln_f rows (sr_id r)) (Fin 0)) (recency exp_f now (sr_created_at r))"
    "rows = [] \<or> (\<exists>db ids. Some db3 = Some db \<and> rows = network_engagement_query db (ns_user_id src) ids)"
    by (rule network_collect_cases [OF assms(6)]) (drule option.inject [THEN iffD1], hypsubst, blast)
  have a: "in_unit (unwrap_or (?aff (sr_account_id r)) (Fin 0))"
    unfolding affinity_of_def option.sel
    by (rule log_normalize_unit [OF assms(1)]) (blast intro: affinity_bounded [OF assms(3)])
  have n: "in_unit (unwrap_or (net_normalize ln_f rows (sr_id r)) (Fin 0))"
    by (rule net_normalize_unit [OF assms(1)]) (use assms(4) *(3) engagement_bounded in auto)
  obtain s ac where s: "(s, ac) \<in> set (eligible_statuses db2 (ns_user_id src) (\<lambda>k. ?aff k \<noteq> None) now)"
      "r = select_status s ac" using candidate_rows [OF *(1)] by blast
  have "s \<in> set (db_statuses db2)" using eligible_sound [OF s(1)] by blast
  then have "ds_created_at s \<le> now" using assms(5) by blast
  moreover have "now - hours 48 < ds_created_at s"
    using s(1) by (auto simp: eligible_statuses_def anti_join_filter)
  ultimately have "in_unit (recency exp_f now (sr_created_at r))"
    using assms(2) unfolding s(2) by (intro recency_unit) (auto simp: select_status_def hours_def)
  then show ?thesis unfolding *(2) using a n by (intro network_score_unit)
qed

theorem network_scores_bounded_witness:
  "\<exists>c q. network_collect minus_one (\<lambda>_. Fin 1) 5 (Some small_db) (Some small_db) (Some small_db) a_network 40 = [c]
    \<and> c_score c = Fin q \<and> 0 \<le> q \<and> q \<le> 1"
proof -
  let ?cs = "network_collect minus_one (\<lambda>_. Fin 1) 5 (Some small_db) (Some small_db) (Some small_db) a_network 40"
  obtain c where c: "?cs = [c]" using small_collect [of minus_one "\<lambda>_. Fin 1" "Some small_db"] by auto
  have "\<forall>wl \<in> set (affinity_lists small_db (ns_user_id a_network) 5). length (snd wl) \<le> 2" by code_simp
  moreover have "(2 :: nat) \<le> 2 ^ 40" by simp
  ultimately have "few_marks small_db (ns_user_id a_network) 5"
    unfolding few_marks_def using order_trans by blast
  moreover have "few_engagements small_db" by (simp add: few_engagements_def small_db_def)
  moreover have "\<forall>s \<in> set (db_statuses small_db). ds_created_at s \<le> 5"
    by (simp add: small_db_def a_status_def)
  ultimately have "in_unit (c_score c)"
    using network_scores_bounded [OF minus_one_log_like const_one_exp_like] c by (metis list.set_intros(1))
  then show ?thesis using c by (auto simp: in_unit_def)
qed

end
