(* ===== verification/Cache.thy ===== *)
theory Cache
  imports Json
begin

text \<open>
  The cache of \<open>crates/state/src/cache.rs\<close>: a Redis, in-memory or disabled backend behind a
  circuit breaker. Text stored in the cache is the JSON value it encodes. A call happens at a
  time and, where it sends a command to Redis, ends at a later one with or without a reply; both
  times and the reply are parameters. Redis drops an entry when its time to live is over; the
  connection keeps the commands it was sent, so that the load on Redis can be stated.
\<close>

section \<open>The circuit breaker\<close>

record circuit =
  consecutive_failures :: nat
  skip_until_unix :: int

definition circuit_default :: circuit where
  "circuit_default = \<lparr>consecutive_failures = 0, skip_until_unix = 0\<rparr>"

definition failure_threshold :: nat where "failure_threshold = 5"
definition cooldown :: int where "cooldown = 30"

definition is_open :: "int \<Rightarrow> circuit \<Rightarrow> bool" where
  "is_open now c \<longleftrightarrow> skip_until_unix c > now"

definition record_success :: "circuit \<Rightarrow> circuit" where
  "record_success c = c\<lparr>consecutive_failures := 0\<rparr>"

text \<open>\<open>fetch_add\<close> and \<open>prev + 1\<close> are in \<open>u32\<close>.\<close>

definition record_failure :: "int \<Rightarrow> circuit \<Rightarrow> circuit" where
  "record_failure now c =
     (let prev = consecutive_failures c;
          c1 = c\<lparr>consecutive_failures := (prev + 1) mod 2 ^ 32\<rparr>
      in if (prev + 1) mod 2 ^ 32 \<ge> failure_threshold
         then c1\<lparr>skip_until_unix := now + cooldown\<rparr> else c1)"

section \<open>The cache\<close>

datatype redis_command = GET string | SET string json int

record redis =
  rd_store :: "string \<rightharpoonup> json \<times> int"
  rd_sent :: "redis_command list"

definition redis_send :: "redis_command \<Rightarrow> redis \<Rightarrow> redis" where
  "redis_send cmd r = r\<lparr>rd_sent := rd_sent r @ [cmd]\<rparr>"

datatype backend = Redis redis | Memory "string \<rightharpoonup> json" | Disabled

record cache =
  ca_backend :: backend
  ca_prefix :: string
  ca_breaker :: circuit

definition cache_new :: "redis \<Rightarrow> string \<Rightarrow> cache" where
  "cache_new conn p = \<lparr>ca_backend = Redis conn, ca_prefix = p, ca_breaker = circuit_default\<rparr>"

definition cache_disabled :: cache where
  "cache_disabled = \<lparr>ca_backend = Disabled, ca_prefix = [], ca_breaker = circuit_default\<rparr>"

definition cache_in_memory :: cache where
  "cache_in_memory = \<lparr>ca_backend = Memory Map.empty, ca_prefix = [], ca_breaker = circuit_default\<rparr>"

definition full_key :: "cache \<Rightarrow> string \<Rightarrow> string" where
  "full_key c k = ca_prefix c @ '':'' @ k"

text \<open>When a call starts, when its command ends, and whether Redis answers it.\<close>

record call =
  started :: int
  ended :: int
  answered :: bool

definition redis_get :: "int \<Rightarrow> redis \<Rightarrow> string \<Rightarrow> json option" where
  "redis_get now r k = Option.bind (rd_store r k) (\<lambda>(v, expiry). if now < expiry then Some v else None)"

definition cache_get :: "(json \<Rightarrow> 'v option) \<Rightarrow> call \<Rightarrow> string \<Rightarrow> cache \<Rightarrow> 'v option \<times> cache" where
  "cache_get de e k c =
     (let key = full_key c k in
      case ca_backend c of
        Disabled \<Rightarrow> (None, c)
      | Memory st \<Rightarrow> (Option.bind (st key) de, c)
      | Redis conn \<Rightarrow>
          if is_open (started e) (ca_breaker c) then (None, c)
          else let conn1 = redis_send (GET key) conn; c1 = c\<lparr>ca_backend := Redis conn1\<rparr> in
               if answered e
               then (Option.bind (redis_get (ended e) conn1 key) de, c1\<lparr>ca_breaker := record_success (ca_breaker c)\<rparr>)
               else (None, c1\<lparr>ca_breaker := record_failure (ended e) (ca_breaker c)\<rparr>))"

definition cache_set :: "('v \<Rightarrow> json option) \<Rightarrow> call \<Rightarrow> string \<Rightarrow> 'v \<Rightarrow> int \<Rightarrow> cache \<Rightarrow> cache" where
  "cache_set ser e k v ttl c =
     (let key = full_key c k in
      case ser v of
        None \<Rightarrow> c
      | Some j \<Rightarrow>
         (case ca_backend c of
            Disabled \<Rightarrow> c
          | Memory st \<Rightarrow> c\<lparr>ca_backend := Memory (st(key \<mapsto> j))\<rparr>
          | Redis conn \<Rightarrow>
              if is_open (started e) (ca_breaker c) then c
              else let ttl_secs = max ttl 1; conn1 = redis_send (SET key j ttl_secs) conn in
                   if answered e
                   then c\<lparr>ca_backend := Redis (conn1\<lparr>rd_store := (rd_store conn1)(key \<mapsto> (j, ended e + ttl_secs))\<rparr>),
                          ca_breaker := record_success (ca_breaker c)\<rparr>
                   else c\<lparr>ca_backend := Redis conn1, ca_breaker := record_failure (ended e) (ca_breaker c)\<rparr>))"

section \<open>What a client of the cache relies on\<close>

text \<open>
  The contract of a store that works: in a good state what was written under a key is what is
  read there, reading changes nothing that can be read, and the state stays good.
\<close>

locale kv_store =
  fixes get :: "string \<Rightarrow> 's \<Rightarrow> 'v option \<times> 's"
    and put :: "string \<Rightarrow> 'v \<Rightarrow> 's \<Rightarrow> 's"
    and good :: "'s \<Rightarrow> bool"
  assumes good_get: "good s \<Longrightarrow> good (snd (get k s))"
    and good_put: "good s \<Longrightarrow> good (put k v s)"
    and get_get: "good s \<Longrightarrow> fst (get k' (snd (get k s))) = fst (get k' s)"
    and get_put: "good s \<Longrightarrow> fst (get k' (put k v s)) = (if k' = k then Some v else fst (get k' s))"
begin

text \<open>Reading, changing and writing back a value.\<close>

definition modify :: "string \<Rightarrow> ('v option \<Rightarrow> 'v) \<Rightarrow> 's \<Rightarrow> 's" where
  "modify k f s = (let (v, s1) = get k s in put k (f v) s1)"

lemma good_modify: "good s \<Longrightarrow> good (modify k f s)"
  by (simp add: modify_def good_get good_put split: prod.split) (metis good_get good_put snd_conv)

lemma get_modify:
  "good s \<Longrightarrow> fst (get k' (modify k f s)) = (if k' = k then Some (f (fst (get k s))) else fst (get k' s))"
  by (cases "get k s") (metis fst_conv good_get get_get get_put modify_def snd_conv split_conv)

end

text \<open>
  The code's cache is such a store as long as calls fall into one moment in which Redis answers
  and the breaker is closed, and values survive their encoding; the in-memory cache always is.
\<close>

definition working :: "call \<Rightarrow> cache \<Rightarrow> bool" where
  "working e c \<longleftrightarrow>
     (case ca_backend c of
        Disabled \<Rightarrow> False
      | Memory st \<Rightarrow> True
      | Redis conn \<Rightarrow> answered e \<and> \<not> is_open (started e) (ca_breaker c))"

lemma full_key_inject [simp]: "full_key c k = full_key c k' \<longleftrightarrow> k = k'"
  by (simp add: full_key_def)

lemma is_open_record_success [simp]: "is_open t (record_success b) = is_open t b"
  by (simp add: is_open_def record_success_def)

lemma cache_kv_store:
  assumes "\<And>v. \<exists>j. ser v = Some j \<and> de j = Some v"
  shows "kv_store (cache_get de e) (\<lambda>k v. cache_set ser e k v ttl) (working e)"
proof
  fix s :: cache and k k' and v
  obtain j where j: "ser v = Some j" "de j = Some v" using assms by blast
  assume *: "working e s"
  show "working e (snd (cache_get de e k s))"
    using * by (cases "ca_backend s") (auto simp: working_def cache_get_def Let_def)
  show "working e (cache_set ser e k v ttl s)"
    using * j by (cases "ca_backend s") (auto simp: working_def cache_set_def Let_def)
  show "fst (cache_get de e k' (snd (cache_get de e k s))) = fst (cache_get de e k' s)"
    using * by (cases "ca_backend s") (auto simp: working_def cache_get_def Let_def full_key_def redis_get_def redis_send_def)
  show "fst (cache_get de e k' (cache_set ser e k v ttl s)) = (if k' = k then Some v else fst (cache_get de e k' s))"
    using * j
    by (cases "ca_backend s")
      (auto simp: working_def cache_get_def cache_set_def Let_def full_key_def redis_get_def redis_send_def)
qed

text \<open>Lists of strings, as the seen list is stored.\<close>

definition strings_json :: "string list \<Rightarrow> json option" where
  "strings_json ss = Some (JArr (map JStr ss))"

fun json_string :: "json \<Rightarrow> string option" where
  "json_string (JStr s) = Some s"
| "json_string _ = None"

fun json_strings :: "json \<Rightarrow> string list option" where
  "json_strings (JArr js) = those (map json_string js)"
| "json_strings _ = None"

lemma json_strings_round_trip: "\<exists>j. strings_json ss = Some j \<and> json_strings j = Some ss"
  by (induction ss) (auto simp: strings_json_def)

interpretation string_cache: kv_store "cache_get json_strings e" "\<lambda>k v. cache_set strings_json e k v ttl"
    "working e" for e ttl
  by (rule cache_kv_store) (rule json_strings_round_trip)

section \<open>How often a failing Redis is tried\<close>

text \<open>How often the breaker lets through a sequence of calls none of which is answered.\<close>

fun probes :: "(int \<times> int) list \<Rightarrow> circuit \<Rightarrow> nat" where
  "probes [] c = 0"
| "probes ((t0, t1) # ts) c =
     (if is_open t0 c then probes ts c else Suc (probes ts (record_failure t1 c)))"

text \<open>Calls one after the other, none before \<open>t\<close>.\<close>

fun sequential :: "int \<Rightarrow> (int \<times> int) list \<Rightarrow> bool" where
  "sequential t [] = True"
| "sequential t ((t0, t1) # ts) = (t \<le> t0 \<and> t0 \<le> t1 \<and> sequential t1 ts)"

lemma sequential_mono: "sequential t ts \<Longrightarrow> t' \<le> t \<Longrightarrow> sequential t' ts"
  by (cases ts) auto

lemma sequential_last: "sequential t ts \<Longrightarrow> ts \<noteq> [] \<Longrightarrow> t \<le> snd (last ts)"
proof (induction ts arbitrary: t)
  case (Cons x ts)
  obtain t0 t1 where x: "x = (t0, t1)" by (cases x)
  show ?case using Cons x by (cases ts) (auto dest: Cons.IH)
qed simp

text \<open>Once the threshold is reached, two commands are at least a cooldown apart.\<close>

lemma probes_open:
  assumes "sequential t ts" "4 \<le> consecutive_failures c"
    "consecutive_failures c + length ts < 2 ^ 32" "probes ts c \<noteq> 0"
  shows "cooldown * (int (probes ts c) - 1) \<le> snd (last ts) - max t (skip_until_unix c)"
  using assms
proof (induction ts arbitrary: t c)
  case (Cons x ts)
  obtain t0 t1 where x: "x = (t0, t1)" by (cases x)
  have seq: "t \<le> t0" "t0 \<le> t1" "sequential t1 ts" using Cons.prems(1) x by auto
  show ?case
  proof (cases "is_open t0 c")
    case True
    then have ne: "probes ts c \<noteq> 0" "ts \<noteq> []" using Cons.prems(4) x by auto
    have "cooldown * (int (probes ts c) - 1) \<le> snd (last ts) - max t1 (skip_until_unix c)"
      by (rule Cons.IH) (use seq ne Cons.prems(2,3) in auto)
    then show ?thesis using True x seq ne by simp
  next
    case False
    let ?c = "record_failure t1 c"
    have c: "consecutive_failures ?c = consecutive_failures c + 1" "skip_until_unix ?c = t1 + cooldown"
      using Cons.prems(2,3) by (simp_all add: record_failure_def Let_def failure_threshold_def)
    have skip: "skip_until_unix c \<le> t0" using False by (simp add: is_open_def)
    show ?thesis
    proof (cases "probes ts ?c = 0")
      case True
      have "t1 \<le> snd (last (x # ts))" using sequential_last [OF seq(3)] x by (cases ts) auto
      then show ?thesis using False True x seq skip by simp
    next
      case m: False
      then have ne: "ts \<noteq> []" by auto
      have "cooldown * (int (probes ts ?c) - 1) \<le> snd (last ts) - max t1 (skip_until_unix ?c)"
        by (rule Cons.IH) (use seq m Cons.prems(2,3) c in auto)
      then have "cooldown * int (probes ts ?c) \<le> snd (last ts) - t1"
        by (simp add: c cooldown_def)
      then show ?thesis using False x seq skip ne by simp
    qed
  qed
qed simp

lemma probes_bound:
  assumes "sequential t ts" "ts \<noteq> []" "consecutive_failures c + length ts < 2 ^ 32"
  shows "cooldown * (int (probes ts c) - (5 - int (min 4 (consecutive_failures c)))) \<le> snd (last ts) - t"
  using assms
proof (induction ts arbitrary: t c)
  case (Cons x ts)
  obtain t0 t1 where x: "x = (t0, t1)" by (cases x)
  have seq: "t \<le> t0" "t0 \<le> t1" "sequential t1 ts" using Cons.prems(1) x by auto
  show ?case
  proof (cases "4 \<le> consecutive_failures c")
    case True
    have "0 \<le> snd (last (x # ts)) - t" using sequential_last [OF Cons.prems(1)] by simp
    then show ?thesis
      using probes_open [OF Cons.prems(1) True Cons.prems(3)] True
      by (cases "probes (x # ts) c = 0") (auto simp: cooldown_def)
  next
    case few: False
    show ?thesis
    proof (cases "ts = []")
      case True
      then show ?thesis using x seq few by (simp add: cooldown_def)
    next
      case ne: False
      have IH: "cooldown * (int (probes ts c') - (5 - int (min 4 (consecutive_failures c')))) \<le> snd (last ts) - t1"
        if "consecutive_failures c' \<le> consecutive_failures c + 1" for c'
        by (rule Cons.IH) (use seq ne Cons.prems(3) that in auto)
      have c: "consecutive_failures (record_failure t1 c) = consecutive_failures c + 1"
        using Cons.prems(3) by (simp add: record_failure_def Let_def)
      show ?thesis
        using IH [of c] IH [of "record_failure t1 c"] x seq ne few c
        by (auto simp: cooldown_def algebra_simps)
    qed
  qed
qed simp

text \<open>Calls of the cache's clients, of values of any type: a value that cannot be encoded is \<open>None\<close>.\<close>

datatype cache_op = Get_Op string | Set_Op string "json option" int

definition cache_do :: "call \<times> cache_op \<Rightarrow> cache \<Rightarrow> json option \<times> cache" where
  "cache_do x c =
     (case x of
        (e, Get_Op k) \<Rightarrow> cache_get Some e k c
      | (e, Set_Op k v ttl) \<Rightarrow> (None, cache_set id e k v ttl c))"

fun cache_run :: "(call \<times> cache_op) list \<Rightarrow> cache \<Rightarrow> json option list \<times> cache" where
  "cache_run [] c = ([], c)"
| "cache_run (x # xs) c = (let (v, c1) = cache_do x c; (vs, c2) = cache_run xs c1 in (v # vs, c2))"

fun call_times :: "call \<times> cache_op \<Rightarrow> int \<times> int" where
  "call_times (e, op) = (started e, ended e)"

definition commands :: "cache \<Rightarrow> redis_command list" where
  "commands c = (case ca_backend c of Redis conn \<Rightarrow> rd_sent conn | _ \<Rightarrow> [])"

definition encodable :: "call \<times> cache_op \<Rightarrow> bool" where
  "encodable x = (case snd x of Set_Op k None ttl \<Rightarrow> False | _ \<Rightarrow> True)"

text \<open>An unanswered call reads nothing and changes no entry; it sends a command unless the breaker is open.\<close>

lemma cache_do_unanswered:
  assumes "ca_backend c = Redis conn" "\<not> answered (fst x)"
  shows "fst (cache_do x c) = None
    \<and> (\<exists>conn'. ca_backend (snd (cache_do x c)) = Redis conn' \<and> rd_store conn' = rd_store conn)
    \<and> (if encodable x \<and> \<not> is_open (started (fst x)) (ca_breaker c)
       then length (commands (snd (cache_do x c))) = Suc (length (commands c))
            \<and> ca_breaker (snd (cache_do x c)) = record_failure (ended (fst x)) (ca_breaker c)
       else snd (cache_do x c) = c)"
  using assms
  by (auto simp: cache_do_def cache_get_def cache_set_def encodable_def commands_def redis_send_def Let_def
      split: prod.splits cache_op.splits option.splits)

lemma cache_run_unanswered:
  assumes "ca_backend c = Redis conn" "\<forall>x \<in> set xs. \<not> answered (fst x)"
  shows "\<exists>conn'. ca_backend (snd (cache_run xs c)) = Redis conn' \<and> rd_store conn' = rd_store conn
    \<and> fst (cache_run xs c) = replicate (length xs) None
    \<and> length (commands (snd (cache_run xs c)))
      = length (commands c) + probes (map call_times (filter encodable xs)) (ca_breaker c)"
  using assms
proof (induction xs arbitrary: c conn)
  case (Cons x xs)
  note do = cache_do_unanswered [OF Cons.prems(1), of x]
  obtain v c1 where x: "cache_do x c = (v, c1)" by (cases "cache_do x c")
  obtain conn1 where c1: "ca_backend c1 = Redis conn1" "rd_store conn1 = rd_store conn" "v = None"
    using do Cons.prems(2) x by auto
  obtain vs c2 where xs: "cache_run xs c1 = (vs, c2)" by (cases "cache_run xs c1")
  from Cons.IH [OF c1(1)] Cons.prems(2) xs obtain conn2 where
    c2: "ca_backend c2 = Redis conn2" "rd_store conn2 = rd_store conn" "vs = replicate (length xs) None"
      "length (commands c2) = length (commands c1) + probes (map call_times (filter encodable xs)) (ca_breaker c1)"
    using c1(2) by auto
  obtain e op where e: "x = (e, op)" by (cases x)
  show ?case using do Cons.prems(2) c1 c2 by (auto simp: x [unfolded e] xs e split: if_splits)
qed simp

lemma sequential_filter: "sequential t (map call_times xs) \<Longrightarrow> sequential t (map call_times (filter P xs))"
proof (induction xs arbitrary: t)
  case (Cons x xs)
  then show ?case using sequential_mono by (cases x) fastforce
qed simp

lemma last_filter_le:
  "sequential t (map call_times xs) \<Longrightarrow> filter P xs \<noteq> [] \<Longrightarrow>
     ended (fst (last (filter P xs))) \<le> ended (fst (last xs))"
proof (induction xs arbitrary: t)
  case (Cons x xs)
  obtain e op where x: "x = (e, op)" by (cases x)
  have seq: "sequential (ended e) (map call_times xs)" using Cons.prems(1) by (simp add: x)
  show ?case
  proof (cases "filter P xs = []")
    case True
    then have l: "last (filter P (x # xs)) = x" using Cons.prems(2) by (auto split: if_splits)
    have "xs \<noteq> [] \<Longrightarrow> ended e \<le> snd (call_times (last xs))" using sequential_last [OF seq] by (simp add: last_map)
    then show ?thesis unfolding l by (cases "last xs") (auto simp: x)
  next
    case False
    then have "xs \<noteq> []" by auto
    then show ?thesis using Cons.IH [OF seq False] False by simp
  qed
qed simp

section \<open>Entries over time\<close>

text \<open>
  An entry with the time until which it can be read (without end in memory), and lists kept in
  the cache: what a client reads before \<open>t'\<close> as long as Redis answers and the breaker stays closed.
\<close>

definition entry :: "cache \<Rightarrow> string \<Rightarrow> (json \<times> int option) option" where
  "entry c k =
     (case ca_backend c of
        Disabled \<Rightarrow> None
      | Memory st \<Rightarrow> map_option (\<lambda>j. (j, None)) (st (full_key c k))
      | Redis conn \<Rightarrow> map_option (\<lambda>(j, x). (j, Some x)) (rd_store conn (full_key c k)))"

definition healthy :: "int \<Rightarrow> cache \<Rightarrow> bool" where
  "healthy t c \<longleftrightarrow> (case ca_backend c of Disabled \<Rightarrow> False | Memory st \<Rightarrow> True
     | Redis conn \<Rightarrow> skip_until_unix (ca_breaker c) \<le> t)"

definition in_window :: "int \<Rightarrow> int \<Rightarrow> call \<Rightarrow> bool" where
  "in_window t t' e \<longleftrightarrow> answered e \<and> t \<le> started e \<and> started e \<le> ended e \<and> ended e < t'"

definition lasts :: "int \<Rightarrow> int option \<Rightarrow> bool" where
  "lasts t' x = (case x of None \<Rightarrow> True | Some y \<Rightarrow> t' \<le> y)"

definition keeps_list :: "(json \<Rightarrow> 'v list option) \<Rightarrow> int \<Rightarrow> cache \<Rightarrow> string \<Rightarrow> 'v list \<Rightarrow> bool" where
  "keeps_list de t' c k xs \<longleftrightarrow>
     (case entry c k of None \<Rightarrow> xs = [] | Some (j, x) \<Rightarrow> lasts t' x \<and> de j = Some xs)"

lemma get_frame [simp]:
  assumes "healthy t c" "in_window t t' e"
  shows "healthy t (snd (cache_get de e k c))" "entry (snd (cache_get de e k c)) = entry c"
  using assms
  by (auto simp: healthy_def cache_get_def entry_def in_window_def is_open_def record_success_def Let_def full_key_def redis_send_def
      fun_eq_iff split: backend.splits)

lemma set_frame [simp]:
  assumes "healthy t c" "in_window t t' e"
  shows "healthy t (cache_set ser e k v ttl c)"
    and "k' \<noteq> k \<Longrightarrow> entry (cache_set ser e k v ttl c) k' = entry c k'"
  using assms
  by (auto simp: healthy_def cache_set_def entry_def in_window_def is_open_def record_success_def Let_def full_key_def redis_send_def
      split: backend.splits option.splits)

lemma get_keeps_list:
  assumes "healthy t c" "in_window t t' e" "keeps_list de t' c k xs"
  shows "unwrap_or (fst (cache_get de e k c)) [] = xs"
    and "keeps_list de t' (snd (cache_get de' e k' c)) k xs"
  using assms
  by (auto simp: keeps_list_def healthy_def cache_get_def entry_def in_window_def is_open_def Let_def redis_get_def
      lasts_def full_key_def redis_send_def split: backend.splits option.splits)

lemma set_keeps_list:
  assumes "healthy t c" "in_window t t' e" "ser xs = Some j" "de j = Some xs" "t' \<le> t + ttl"
  shows "keeps_list de t' (cache_set ser e k xs ttl c) k xs"
  using assms
  by (auto simp: keeps_list_def healthy_def cache_set_def entry_def in_window_def is_open_def Let_def
      lasts_def full_key_def redis_send_def split: backend.splits)

lemma set_keeps_other:
  assumes "healthy t c" "in_window t t' e" "k' \<noteq> k" "keeps_list de t' c k' xs"
  shows "keeps_list de t' (cache_set ser e k v ttl c) k' xs"
  using assms by (simp add: keeps_list_def)

end
