(* ===== verification/Seen.thy ===== *)
theory Seen
  imports Cache
begin

text \<open>
  \<open>apps/server/src/feeds/seen.rs\<close>: what a user has been shown, kept in the cache as the last
  500 identifiers. Reading and extending are two calls of the cache each with its own time.
\<close>

definition seen_ttl :: int where "seen_ttl = 60 * 60"
definition seen_cap :: nat where "seen_cap = 500"

definition seen_key :: "int \<Rightarrow> string" where
  "seen_key user_id = ''home_seen:'' @ show_int user_id"

definition seen_load :: "call \<Rightarrow> cache \<Rightarrow> int \<Rightarrow> string set \<times> cache" where
  "seen_load e c user_id =
     (let (v, c1) = cache_get json_strings e (seen_key user_id) c in (set (unwrap_or v []), c1))"

definition cap_urls :: "string list \<Rightarrow> string list" where
  "cap_urls urls = (if length urls > seen_cap then drop (length urls - seen_cap) urls else urls)"

definition seen_extend :: "call \<Rightarrow> call \<Rightarrow> cache \<Rightarrow> int \<Rightarrow> string list \<Rightarrow> cache" where
  "seen_extend e1 e2 c user_id new =
     (if new = [] then c
      else let k = seen_key user_id;
               (v, c1) = cache_get json_strings e1 k c;
               urls = cap_urls (unwrap_or v [] @ new)
           in cache_set strings_json e2 k urls seen_ttl c1)"

section \<open>Lemmas\<close>

lemma cap_urls_suffix: "suffix (cap_urls urls) urls"
  by (simp add: cap_urls_def suffix_drop)

lemma length_cap_urls: "length (cap_urls urls) = min (length urls) seen_cap"
  by (simp add: cap_urls_def)

lemma cap_urls_append:
  assumes "length new \<le> seen_cap"
  shows "\<exists>old'. suffix old' old \<and> cap_urls (old @ new) = old' @ new"
proof (cases "length (old @ new) > seen_cap")
  case True
  then have "cap_urls (old @ new) = drop (length (old @ new) - seen_cap) old @ new"
    using assms by (simp add: cap_urls_def)
  then show ?thesis using suffix_drop by blast
next
  case False
  then show ?thesis by (auto simp: cap_urls_def)
qed

lemma seen_key_inject [simp]: "seen_key u = seen_key u' \<longleftrightarrow> u = u'"
  by (simp add: seen_key_def)

text \<open>Extending is the contract's read-modify-write.\<close>

lemma seen_extend_modify:
  "new \<noteq> [] \<Longrightarrow> seen_extend e e c u new
     = string_cache.modify e seen_ttl (seen_key u) (\<lambda>v. cap_urls (unwrap_or v [] @ new)) c"
  by (simp add: seen_extend_def string_cache.modify_def Let_def split: prod.split)

lemma working_seen_extend: "working e c \<Longrightarrow> working e (seen_extend e e c u new)"
  by (cases "new = []") (simp add: seen_extend_def, simp add: seen_extend_modify string_cache.good_modify)

lemma seen_stored:
  assumes "working e c" "new \<noteq> []"
  shows "fst (cache_get json_strings e (seen_key u') (seen_extend e e c u new)) =
    (if u' = u then Some (cap_urls (unwrap_or (fst (cache_get json_strings e (seen_key u) c)) [] @ new))
     else fst (cache_get json_strings e (seen_key u') c))"
  using string_cache.get_modify [OF assms(1), of "seen_key u'" seen_ttl "seen_key u"]
  by (simp add: seen_extend_modify [OF assms(2)])

lemma fst_seen_load:
  "fst (seen_load e c u) = set (unwrap_or (fst (cache_get json_strings e (seen_key u) c)) [])"
  by (simp add: seen_load_def split: prod.split)

section \<open>Properties\<close>

definition now_call :: call where
  "now_call = \<lparr>started = 100, ended = 100, answered = True\<rparr>"

text \<open>
  C27: With a cache that works, extending the seen list of a user stores the list that was there
  with the new items behind it, less its oldest entries so that 500 are left; so nothing new is
  dropped before something older, what was just served is recognised as seen, and the list of no
  other user changes.
\<close>

theorem seen_extend_keeps_newest:
  assumes "working e c" "new \<noteq> []" "length new \<le> 500"
    and "old = unwrap_or (fst (cache_get json_strings e (seen_key u) c)) []"
  shows "fst (cache_get json_strings e (seen_key u) (seen_extend e e c u new))
      = Some (drop (length old + length new - 500) old @ new)
    \<and> fst (seen_load e (seen_extend e e c u new) u) = set (drop (length old + length new - 500) old) \<union> set new
    \<and> fst (seen_load e c u) = set old
    \<and> (u' = u \<or> fst (seen_load e (seen_extend e e c u new) u') = fst (seen_load e c u'))"
proof -
  have cap: "cap_urls (old @ new) = drop (length old + length new - 500) old @ new"
    using assms(3) by (simp add: cap_urls_def seen_cap_def)
  have "fst (cache_get json_strings e (seen_key u) (seen_extend e e c u new))
      = Some (drop (length old + length new - 500) old @ new)"
    using seen_stored [OF assms(1,2), of u u] cap assms(4) by simp
  moreover have "u' = u \<or> fst (seen_load e (seen_extend e e c u new) u') = fst (seen_load e c u')"
    using seen_stored [OF assms(1,2), of u' u] by (auto simp: fst_seen_load)
  ultimately show ?thesis using assms(4) by (simp add: fst_seen_load)
qed

definition no_redis :: redis where
  "no_redis = \<lparr>rd_store = Map.empty, rd_sent = []\<rparr>"

theorem seen_extend_keeps_newest_witness:
  "fst (cache_get json_strings now_call (seen_key 7)
      (seen_extend now_call now_call (cache_new no_redis ''f'') 7 [''a'', ''b''])) = Some [''a'', ''b'']"
proof -
  have w: "working now_call (cache_new no_redis ''f'')"
    by (simp add: working_def cache_new_def now_call_def is_open_def circuit_default_def)
  have "fst (cache_get json_strings now_call (seen_key 7) (cache_new no_redis ''f'')) = None" by code_simp
  then show ?thesis using seen_extend_keeps_newest [OF w, of "[''a'', ''b'']" "[]" 7 7] by simp
qed

text \<open>
  C35: While Redis does not answer, the circuit breaker keeps the load off it: however many calls
  of the cache are made one after the other, to read or to write and with whatever keys and values,
  the commands sent to Redis beyond the first five take at least 30 seconds each. The calls read
  nothing and no entry changes.
\<close>

theorem breaker_limits_probes:
  assumes "sequential t (map call_times xs)" "xs \<noteq> []" "length xs < 2 ^ 32" "\<forall>x \<in> set xs. \<not> answered (fst x)"
    and "cache_run xs (cache_new \<lparr>rd_store = st, rd_sent = []\<rparr> p) = (vs, c)"
  shows "30 * (int (length (commands c)) - 5) \<le> ended (fst (last xs)) - t
    \<and> set vs \<subseteq> {None} \<and> (\<exists>sent. ca_backend c = Redis \<lparr>rd_store = st, rd_sent = sent\<rparr>)"
proof -
  let ?c = "cache_new \<lparr>rd_store = st, rd_sent = []\<rparr> p" and ?ts = "map call_times (filter encodable xs)"
  obtain conn where r: "ca_backend c = Redis conn" "rd_store conn = st" "vs = replicate (length xs) None"
      "length (commands c) = probes ?ts circuit_default"
    using cache_run_unanswered [of ?c _ xs] assms(4,5) by (auto simp: cache_new_def commands_def)
  have "30 * (int (probes ?ts circuit_default) - 5) \<le> ended (fst (last xs)) - t"
  proof (cases "filter encodable xs = []")
    case True
    have "t \<le> ended (fst (last xs))"
      using sequential_last [OF assms(1)] assms(2) by (cases "last xs") (simp add: last_map)
    then show ?thesis by (simp add: True)
  next
    case False
    have "length ?ts < 2 ^ 32" using assms(3) length_filter_le [of encodable xs] by (simp only: length_map)
    then have "30 * (int (probes ?ts circuit_default) - 5) \<le> snd (last ?ts) - t"
      using probes_bound [OF sequential_filter [OF assms(1)], of encodable circuit_default] False
      by (simp add: circuit_default_def cooldown_def)
    then show ?thesis using last_filter_le [OF assms(1) False] False
      by (cases "last (filter encodable xs)") (simp add: last_map)
  qed
  moreover have "\<exists>sent. conn = \<lparr>rd_store = st, rd_sent = sent\<rparr>" using r(2) by (cases conn) simp
  moreover have "set vs \<subseteq> {None}" using r(3) by auto
  ultimately show ?thesis using r(1,4) by simp
qed

definition lost_call :: call where
  "lost_call = \<lparr>started = 100, ended = 100, answered = False\<rparr>"

definition seven_calls :: "(call \<times> cache_op) list" where
  "seven_calls = [(lost_call, Get_Op ''k''), (lost_call, Get_Op ''k''), (lost_call, Get_Op ''k''),
     (lost_call, Set_Op ''k'' (Some JNull) 60), (lost_call, Get_Op ''k''), (lost_call, Get_Op ''k''),
     (lost_call, Set_Op ''k'' (Some JNull) 60)]"

theorem breaker_limits_probes_witness:
  "\<exists>vs c. cache_run seven_calls (cache_new no_redis ''f'') = (vs, c)
    \<and> commands c = [GET ''f:k'', GET ''f:k'', GET ''f:k'', SET ''f:k'' JNull 60, GET ''f:k'']
    \<and> 30 * (int (length (commands c)) - 5) \<le> 0"
proof -
  obtain vs c where r: "cache_run seven_calls (cache_new no_redis ''f'') = (vs, c)"
    by (cases "cache_run seven_calls (cache_new no_redis ''f'')")
  have "commands (snd (cache_run seven_calls (cache_new no_redis ''f'')))
      = [GET ''f:k'', GET ''f:k'', GET ''f:k'', SET ''f:k'' JNull 60, GET ''f:k'']"
    by (simp add: seven_calls_def cache_do_def cache_get_def cache_set_def cache_new_def no_redis_def lost_call_def
        is_open_def circuit_default_def record_failure_def failure_threshold_def cooldown_def redis_send_def full_key_def
        commands_def Let_def)
  moreover have "sequential 100 (map call_times seven_calls)" "seven_calls \<noteq> []" "length seven_calls < 2 ^ 32"
      "\<forall>x \<in> set seven_calls. \<not> answered (fst x)" "ended (fst (last seven_calls)) = 100"
    by (simp_all add: seven_calls_def lost_call_def)
  ultimately show ?thesis
    using breaker_limits_probes [of 100 seven_calls Map.empty "''f''" vs c] r by (simp add: no_redis_def)
qed

end
