(* ===== verification/Sanitize.thy ===== *)
theory Sanitize
  imports Rust_Str
begin

text \<open>
  \<open>crates/mastodon/src/sanitize.rs\<close>: how the HTML cleaner \<open>ammonia\<close> is set up. The cleaner
  itself is a parameter: it maps the calls made on a fresh \<open>Builder\<close> and a text to the cleaned
  text. The regular-expression engine of the formatter is a parameter as well: it replaces all
  matches of a pattern, and finds the matches of a pattern as byte ranges.
\<close>

datatype builder_call =
    Tags "string set"
  | Add_Tag_Attributes string "string list"
  | Link_Rel "string option"
  | Url_Schemes "string set"

record html_env =
  clean :: "builder_call list \<Rightarrow> string \<Rightarrow> string"
  replace_all :: "string \<Rightarrow> string \<Rightarrow> string \<Rightarrow> string"
  find_iter :: "string \<Rightarrow> string \<Rightarrow> (nat \<times> nat) list"

definition allowed_tags :: "string set" where
  "allowed_tags = {''p'', ''br'', ''span'', ''a'', ''del'', ''s'', ''pre'', ''blockquote'', ''code'',
     ''b'', ''strong'', ''u'', ''i'', ''em'', ''h1'', ''h2'', ''h3'', ''h4'', ''h5'', ''ul'',
     ''ol'', ''li'', ''ruby'', ''rt'', ''rp''}"

definition strict_calls :: "builder_call list" where
  "strict_calls =
     [Tags allowed_tags,
      Add_Tag_Attributes ''a'' [''href'', ''class'', ''translate''],
      Add_Tag_Attributes ''span'' [''class'', ''translate''],
      Add_Tag_Attributes ''p'' [''class''],
      Add_Tag_Attributes ''ol'' [''start'', ''reversed''],
      Add_Tag_Attributes ''li'' [''value''],
      Link_Rel (Some ''nofollow noopener''),
      Url_Schemes {''http'', ''https'', ''dat'', ''dweb'', ''ipfs'', ''ipns'', ''ssb'', ''gopher'',
        ''xmpp'', ''magnet'', ''gemini''}]"

definition sanitize_html :: "html_env \<Rightarrow> string \<Rightarrow> string" where
  "sanitize_html env html = clean env strict_calls html"

text \<open>For text that must contain no HTML at all.\<close>

definition sanitize_text :: "html_env \<Rightarrow> string \<Rightarrow> string" where
  "sanitize_text env txt = clean env [Tags {}] txt"

section \<open>What the cleaner is asked for\<close>

text \<open>
  Settings of the cleaner under which nothing active comes through: the tags it keeps are named
  once and none loads or runs anything, no attribute handles events or styles, and links cannot
  have a scheme that runs a script or holds data.
\<close>

definition active_tags :: "string set" where
  "active_tags = {''script'', ''style'', ''iframe'', ''object'', ''embed'', ''applet'', ''form'', ''input'', ''button'',
     ''img'', ''svg'', ''math'', ''video'', ''audio'', ''link'', ''meta'', ''base'', ''template''}"

definition strict :: "builder_call list \<Rightarrow> bool" where
  "strict calls \<longleftrightarrow> (\<exists>ts. filter (\<lambda>c. case c of Tags _ \<Rightarrow> True | _ \<Rightarrow> False) calls = [Tags ts] \<and> ts \<inter> active_tags = {})
     \<and> (\<exists>us. filter (\<lambda>c. case c of Url_Schemes _ \<Rightarrow> True | _ \<Rightarrow> False) calls = [Url_Schemes us]
          \<and> us \<inter> {''javascript'', ''vbscript'', ''data'', ''file''} = {})
     \<and> (\<forall>t as a. Add_Tag_Attributes t as \<in> set calls \<longrightarrow> a \<in> set as \<longrightarrow> a \<noteq> ''style'' \<and> \<not> starts_with ''on'' a)"

lemma strict_strict_calls: "strict strict_calls"
  by (auto simp: strict_def strict_calls_def allowed_tags_def active_tags_def starts_with_def)

text \<open>HTML so cleaned, and text from which every tag is removed.\<close>

definition clean_html :: "html_env \<Rightarrow> string \<Rightarrow> bool" where
  "clean_html env x \<longleftrightarrow> (\<exists>calls t. strict calls \<and> x = clean env calls t)"

definition clean_text :: "html_env \<Rightarrow> string \<Rightarrow> bool" where
  "clean_text env x \<longleftrightarrow> (\<exists>t. x = clean env [Tags {}] t)"

lemma clean_outputs [simp]: "clean_html env (sanitize_html env t)" "clean_text env (sanitize_text env t)"
  using strict_strict_calls by (auto simp: clean_html_def clean_text_def sanitize_html_def sanitize_text_def)

end
