(* ===== verification/Formatter.thy ===== *)
theory Formatter
  imports Sanitize
begin

text \<open>
  \<open>crates/mastodon/src/formatter.rs\<close>: HTML for the text of a status. Text is UTF-8 bytes; a slice
  panics when it is out of range or cuts a character, so the functions that slice return an
  option. Which characters are alphanumeric is a parameter, a predicate on the bytes of one
  character. Mention and tag are the entities of \<open>mention.rs\<close> and \<open>tag.rs\<close>.
\<close>

section \<open>Characters in UTF-8\<close>

definition continuation :: "char \<Rightarrow> bool" where
  "continuation c \<longleftrightarrow> 128 \<le> (of_char c :: nat) \<and> (of_char c :: nat) < 192"

definition boundary :: "string \<Rightarrow> nat \<Rightarrow> bool" where
  "boundary s i \<longleftrightarrow> i \<le> length s \<and> (i = length s \<or> \<not> continuation (s ! i))"

text \<open>\<open>&s[i..j]\<close>\<close>

definition slice :: "string \<Rightarrow> nat \<Rightarrow> nat \<Rightarrow> string option" where
  "slice s i j = (if i \<le> j \<and> boundary s i \<and> boundary s j then Some (take (j - i) (drop i s)) else None)"

text \<open>The first and the last character, as bytes: \<open>chars().next()\<close> and \<open>chars().next_back()\<close>.\<close>

fun first_char :: "string \<Rightarrow> string option" where
  "first_char [] = None"
| "first_char (c # cs) = Some (c # takeWhile continuation cs)"

definition last_char :: "string \<Rightarrow> string option" where
  "last_char s =
     (if s = [] then None
      else Some (case dropWhile continuation (rev s) of
                   [] \<Rightarrow> s
                 | c # _ \<Rightarrow> c # rev (takeWhile continuation (rev s))))"

section \<open>Escaping\<close>

definition escape_text_char :: "char \<Rightarrow> string" where
  "escape_text_char c =
     (if c = CHR ''&'' then ''&amp;'' else if c = CHR ''<'' then ''&lt;''
      else if c = CHR ''>'' then ''&gt;'' else [c])"

definition escape_text :: "string \<Rightarrow> string" where
  "escape_text s = concat (map escape_text_char s)"

definition escape_attr_char :: "char \<Rightarrow> string" where
  "escape_attr_char c = (if c = CHR 0x22 then ''&quot;'' else escape_text_char c)"

definition escape_attr :: "string \<Rightarrow> string" where
  "escape_attr s = concat (map escape_attr_char s)"

section \<open>Anchors\<close>

record mention =
  mn_id :: string
  mn_username :: string
  mn_url :: string
  mn_acct :: string

record entity_tag_history =
  eh_day :: string
  eh_uses :: string
  eh_accounts :: string

record entity_tag =
  et_name :: string
  et_url :: string
  et_history :: "entity_tag_history list"

definition dq :: string where "dq = [CHR 0x22]"

text \<open>An attribute with its value in double quotes.\<close>

definition attr :: "string \<Rightarrow> string \<Rightarrow> string" where
  "attr name val = name @ ''='' @ dq @ val @ dq"

definition link_display_max :: nat where "link_display_max = 30"

definition shortened_link :: "string \<Rightarrow> string option" where
  "shortened_link url =
     (let scheme_end = (case find_str ''://'' url of Some i \<Rightarrow> i + 3 | None \<Rightarrow> 0);
          after_scheme = drop scheme_end url;
          www = (if starts_with ''www.'' after_scheme then 4 else 0);
          prefix = take (scheme_end + www) url;
          rest = drop (scheme_end + www) url
      in map_option (\<lambda>(display, suffix, cls).
           ''<a '' @ attr ''href'' (escape_attr url) @ '' '' @ attr ''target'' ''_blank'' @ '' ''
             @ attr ''rel'' ''nofollow noopener noreferrer'' @ '' '' @ attr ''translate'' ''no'' @ ''>''
           @ ''<span '' @ attr ''class'' ''invisible'' @ ''>'' @ escape_text prefix @ ''</span>''
           @ ''<span '' @ attr ''class'' cls @ ''>'' @ escape_text display @ ''</span>''
           @ ''<span '' @ attr ''class'' ''invisible'' @ ''>'' @ escape_text suffix @ ''</span>''
           @ ''</a>'')
         (if length rest > link_display_max
          then (case (slice rest 0 link_display_max, slice rest link_display_max (length rest)) of
                  (Some d, Some x) \<Rightarrow> Some (d, x, ''ellipsis'')
                | _ \<Rightarrow> None)
          else Some (rest, [], [])))"

definition mention_html :: "mention \<Rightarrow> string" where
  "mention_html m =
     ''<span '' @ attr ''class'' ''h-card'' @ '' '' @ attr ''translate'' ''no'' @ ''>''
     @ ''<a '' @ attr ''href'' (escape_attr (mn_url m)) @ '' '' @ attr ''class'' ''u-url mention'' @ ''>@<span>''
     @ escape_text (mn_acct m) @ ''</span></a>'' @ ''</span>''"

definition tag_html :: "entity_tag \<Rightarrow> string \<Rightarrow> string" where
  "tag_html t instance_domain =
     ''<a '' @ attr ''href'' (''https://'' @ instance_domain @ ''/tags/'' @ escape_attr (et_name t)) @ '' ''
     @ attr ''class'' ''mention hashtag'' @ '' '' @ attr ''rel'' ''tag'' @ ''>#<span>''
     @ escape_text (et_name t) @ ''</span></a>''"

section \<open>Spans\<close>

type_synonym span = "nat \<times> nat \<times> string"

text \<open>
  The loop of \<open>push_word_matches\<close>; \<open>src\<close> is the whole text and \<open>pos\<close> the place the search goes on.
\<close>

function word_matches :: "(string \<Rightarrow> bool) \<Rightarrow> string \<Rightarrow> string \<Rightarrow> string \<Rightarrow> nat \<Rightarrow> span list" where
  "word_matches alnum src needle html pos =
     (if needle = [] then []
      else case find_str needle (drop pos src) of
        None \<Rightarrow> []
      | Some rel \<Rightarrow>
         (let start = pos + rel; stop = start + length needle;
              preceded = (start > 0 \<and> (case last_char (take start src) of
                  Some c \<Rightarrow> alnum c \<or> c \<in> {''_'', ''@'', ''#''} | None \<Rightarrow> False));
              followed = (case first_char (drop stop src) of
                  Some c \<Rightarrow> alnum c \<or> c \<in> {''_'', ''@''} | None \<Rightarrow> False)
          in (if \<not> preceded \<and> \<not> followed then [(start, stop, html)] else [])
             @ word_matches alnum src needle html stop))"
  by pat_completeness auto
termination
proof (relation "measure (\<lambda>(alnum, src, needle, html, pos). length src - pos)")
  show "wf (measure (\<lambda>(alnum, src, needle, html, pos). length src - pos))" by simp
qed (auto simp: Suc_le_eq length_greater_0_conv [symmetric] simp del: length_greater_0_conv dest!: find_str_Some)

declare word_matches.simps [simp del]

definition push_word_matches :: "(string \<Rightarrow> bool) \<Rightarrow> string \<Rightarrow> string \<Rightarrow> string \<Rightarrow> span list \<Rightarrow> span list" where
  "push_word_matches alnum src needle html spans =
     (if length needle < 2 then spans else spans @ word_matches alnum src needle html 0)"

text \<open>\<open>split('@').nth(1)\<close>\<close>

definition acct_domain :: "string \<Rightarrow> string option" where
  "acct_domain a = (case split_char CHR ''@'' a of _ # d # _ \<Rightarrow> Some d | _ \<Rightarrow> None)"

definition mention_spans :: "(string \<Rightarrow> bool) \<Rightarrow> string \<Rightarrow> mention list \<Rightarrow> span list \<Rightarrow> span list" where
  "mention_spans alnum src ms spans =
     foldl (\<lambda>spans m.
        let anchor = mention_html m;
            spans1 = (case acct_domain (mn_acct m) of
               Some d \<Rightarrow> push_word_matches alnum src (''@'' @ mn_username m @ ''@'' @ d) anchor spans
             | None \<Rightarrow> spans)
        in push_word_matches alnum src (''@'' @ mn_username m) anchor spans1) spans ms"

definition tag_spans :: "(string \<Rightarrow> bool) \<Rightarrow> string \<Rightarrow> entity_tag list \<Rightarrow> string \<Rightarrow> span list \<Rightarrow> span list" where
  "tag_spans alnum src ts instance_domain spans =
     foldl (\<lambda>spans t. push_word_matches alnum src (''#'' @ et_name t) (tag_html t instance_domain) spans) spans ts"

text \<open>\<open>sort_by_key(|(start, end, _)| (start, Reverse(end)))\<close>, then the first of overlapping spans.\<close>

definition sort_spans :: "span list \<Rightarrow> span list" where
  "sort_spans spans = sort_key (\<lambda>(a, b, _). int a) (sort_key (\<lambda>(a, b, _). - int b) spans)"

fun non_overlapping :: "nat option \<Rightarrow> span list \<Rightarrow> span list" where
  "non_overlapping prev [] = []"
| "non_overlapping prev ((a, b, h) # spans) =
     (if (case prev of None \<Rightarrow> True | Some e \<Rightarrow> e \<le> a)
      then (a, b, h) # non_overlapping (Some b) spans
      else non_overlapping prev spans)"

fun render :: "string \<Rightarrow> nat \<Rightarrow> span list \<Rightarrow> string option" where
  "render src cursor [] = map_option escape_text (slice src cursor (length src))"
| "render src cursor ((a, b, h) # spans) =
     (case slice src cursor a of
        None \<Rightarrow> None
      | Some s \<Rightarrow> map_option (\<lambda>r. escape_text s @ h @ r) (render src b spans))"

section \<open>Paragraphs\<close>

text \<open>\<open>split("\n\n")\<close>\<close>

fun split_blank :: "string \<Rightarrow> string list" where
  "split_blank [] = [[]]"
| "split_blank [c] = [[c]]"
| "split_blank (c # d # cs) =
     (if c = CHR 0x0A \<and> d = CHR 0x0A then [] # split_blank cs
      else case split_blank (d # cs) of [] \<Rightarrow> [[c]] | p # ps \<Rightarrow> (c # p) # ps)"

definition newline_br :: "string \<Rightarrow> string" where
  "newline_br p = concat (map (\<lambda>c. if c = CHR 0x0A then ''<br />'' else [c]) p)"

definition paragraphs :: "string \<Rightarrow> string" where
  "paragraphs out =
     (let ps = map (\<lambda>p. ''<p>'' @ newline_br p @ ''</p>'') (filter (\<lambda>p. p \<noteq> []) (split_blank out))
      in if ps = [] then ''<p></p>'' else concat ps)"

definition url_pattern :: string where
  "url_pattern = ''https?://[^'' @ [CHR 0x5C] @ ''s<>'' @ [CHR 0x5C] @ ''x22'' @ [CHR 0x5C] @ '']]+''"

text \<open>\<open>format_local\<close>; \<open>None\<close> when a slice panics.\<close>

definition format_local :: "html_env \<Rightarrow> (string \<Rightarrow> bool) \<Rightarrow> string \<Rightarrow> mention list \<Rightarrow> entity_tag list \<Rightarrow> string
    \<Rightarrow> string option" where
  "format_local env alnum src ms ts instance_domain =
     (case those (map (\<lambda>(a, b). map_option (\<lambda>h. (a, b, h)) (shortened_link (take (b - a) (drop a src))))
             (find_iter env url_pattern src)) of
        None \<Rightarrow> None
      | Some urls \<Rightarrow>
          map_option paragraphs
            (render src 0 (non_overlapping None
              (sort_spans (tag_spans alnum src ts instance_domain (mention_spans alnum src ms urls))))))"

section \<open>Remote HTML\<close>

text \<open>\<open>str::replace\<close> with a pattern that is not empty.\<close>

function replace_str :: "string \<Rightarrow> string \<Rightarrow> string \<Rightarrow> string" where
  "replace_str pat to s =
     (if pat = [] then s
      else case find_str pat s of
        None \<Rightarrow> s
      | Some i \<Rightarrow> take i s @ to @ replace_str pat to (drop (i + length pat) s))"
  by pat_completeness auto
termination
proof (relation "measure (\<lambda>(pat, to, s). length s)", simp)
  fix pat to s :: string and i
  assume *: "pat \<noteq> []" "find_str pat s = Some i"
  then have "i + length pat \<le> length s" using find_str_Some by blast
  moreover have "0 < length pat" using * by simp
  ultimately have "length s - (i + length pat) < length s" by linarith
  then show "((pat, to, drop (i + length pat) s), pat, to, s) \<in> measure (\<lambda>(pat, to, s). length s)"
    by simp
qed

declare replace_str.simps [simp del]

definition heading_open :: string where "heading_open = ''<h[1-6][^>]*>''"
definition heading_close :: string where "heading_close = ''</h[1-6]>''"

definition format_remote :: "html_env \<Rightarrow> string \<Rightarrow> string" where
  "format_remote env html =
     (let p1 = replace_all env heading_open ''<p><strong>'' html;
          p2 = replace_all env heading_close ''</strong></p>'' p1
      in replace_str ''<a '' (''<a '' @ attr ''target'' ''_blank'' @ '' '') (sanitize_html env p2))"

text \<open>Cleaned HTML whose links open in a tab of their own.\<close>

definition clean_remote :: "html_env \<Rightarrow> string \<Rightarrow> bool" where
  "clean_remote env x \<longleftrightarrow> (\<exists>y. clean_html env y \<and> x = replace_str ''<a '' (''<a '' @ attr ''target'' ''_blank'' @ '' '') y)"

lemma clean_remote_format [simp]: "clean_remote env (format_remote env html)"
  using clean_outputs(1) unfolding clean_remote_def format_remote_def Let_def by blast

section \<open>Escaped text\<close>

lemma escape_text_Nil [simp]: "escape_text [] = []"
  by (simp add: escape_text_def)

lemma escape_text_Cons: "escape_text (c # s) = escape_text_char c @ escape_text s"
  by (simp add: escape_text_def)

lemma escape_text_safe: "CHR ''<'' \<notin> set (escape_text s)" "CHR ''>'' \<notin> set (escape_text s)"
  by (induction s) (auto simp: escape_text_Cons escape_text_char_def)

lemma escape_attr_safe:
  "CHR ''<'' \<notin> set (escape_attr s)" "CHR ''>'' \<notin> set (escape_attr s)" "CHR 0x22 \<notin> set (escape_attr s)"
  by (induction s) (auto simp: escape_attr_def escape_attr_char_def escape_text_char_def)

text \<open>Escaping loses nothing.\<close>

lemma escape_text_char_prefix:
  assumes "escape_text_char a @ x = escape_text_char b @ y" shows "a = b \<and> x = y"
proof -
  have amp: "a = CHR ''&''" if "escape_text_char a @ x = CHR ''&'' # z" "a \<noteq> CHR ''<''" "a \<noteq> CHR ''>''" for a x z
    using that by (auto simp: escape_text_char_def split: if_splits)
  show ?thesis
    using assms by (auto simp: escape_text_char_def split: if_splits)
qed

lemma escape_text_inj: "escape_text s = escape_text t \<longleftrightarrow> s = t"
proof
  have ne: "escape_text_char c \<noteq> []" for c by (simp add: escape_text_char_def)
  show "escape_text s = escape_text t \<Longrightarrow> s = t"
  proof (induction s arbitrary: t)
    case Nil
    then show ?case using ne by (cases t) (auto simp: escape_text_Cons)
  next
    case (Cons c s)
    then obtain d t' where t: "t = d # t'" using ne by (cases t) (auto simp: escape_text_Cons)
    then have "c = d \<and> escape_text s = escape_text t'"
      using Cons.prems escape_text_char_prefix by (metis escape_text_Cons)
    with Cons.IH t show ?case by blast
  qed
qed simp

section \<open>What the output is made of\<close>

definition ascii :: "string \<Rightarrow> bool" where
  "ascii s \<longleftrightarrow> (\<forall>c \<in> set s. (of_char c :: nat) < 128)"

lemma ascii_boundary: "ascii s \<Longrightarrow> boundary s i \<longleftrightarrow> i \<le> length s"
proof -
  assume "ascii s"
  then have "(of_char (s ! i) :: nat) < 128" if "i < length s" using that nth_mem by (auto simp: ascii_def)
  then show "boundary s i \<longleftrightarrow> i \<le> length s" by (force simp: boundary_def continuation_def)
qed

lemma ascii_slice: "ascii s \<Longrightarrow> i \<le> j \<Longrightarrow> j \<le> length s \<Longrightarrow> slice s i j = Some (take (j - i) (drop i s))"
  by (simp add: slice_def ascii_boundary)

lemma ascii_take: "ascii s \<Longrightarrow> ascii (take n (drop m s))"
  by (auto simp: ascii_def dest: in_set_takeD in_set_dropD)

lemma ascii_drop: "ascii s \<Longrightarrow> ascii (drop m s)"
  by (auto simp: ascii_def dest: in_set_dropD)

lemma shortened_link_ascii: "ascii url \<Longrightarrow> \<exists>h. shortened_link url = Some h"
  by (simp add: shortened_link_def Let_def ascii_slice ascii_drop)

definition span_ok :: "string \<Rightarrow> span \<Rightarrow> bool" where
  "span_ok src s \<longleftrightarrow> fst s \<le> fst (snd s) \<and> fst (snd s) \<le> length src"

definition covered :: "string \<Rightarrow> span \<Rightarrow> string" where
  "covered src s = take (fst (snd s) - fst s) (drop (fst s) src)"

lemma word_matches_ok:
  "s \<in> set (word_matches alnum src needle html pos) \<Longrightarrow>
   span_ok src s \<and> covered src s = needle \<and> snd (snd s) = html"
proof (induction alnum src needle html pos rule: word_matches.induct)
  case (1 alnum src needle html pos)
  have ne: "needle \<noteq> []" using 1(2) by (subst (asm) word_matches.simps) (auto split: if_splits)
  obtain rel where rel: "needle \<noteq> []" "find_str needle (drop pos src) = Some rel"
    using 1(2) ne by (cases "find_str needle (drop pos src)") (auto simp: word_matches.simps)
  have len: "rel + length needle \<le> length (drop pos src)"
      "take (length needle) (drop rel (drop pos src)) = needle"
    using find_str_Some [OF rel(2)] by auto
  let ?a = "pos + rel" and ?b = "pos + rel + length needle"
  have "s = (?a, ?b, html) \<or> s \<in> set (word_matches alnum src needle html ?b)"
    using 1(2) rel by (subst (asm) word_matches.simps) (auto simp: Let_def split: if_splits)
  then show ?case
  proof
    assume s: "s = (?a, ?b, html)"
    have "?b \<le> length src" using len(1) rel(1) by (cases "pos \<le> length src") auto
    then show ?thesis using len(2) s by (simp add: span_ok_def covered_def add.commute)
  next
    assume "s \<in> set (word_matches alnum src needle html ?b)"
    then show ?thesis using 1(1) [OF rel(1) rel(2) refl refl refl refl] by simp
  qed
qed

lemma push_word_matches_set:
  "set (push_word_matches alnum src needle html spans) \<subseteq> set spans \<union> set (word_matches alnum src needle html 0)"
  by (auto simp: push_word_matches_def)

text \<open>The anchors the formatter may insert.\<close>

definition anchor_of :: "mention list \<Rightarrow> entity_tag list \<Rightarrow> string \<Rightarrow> string \<Rightarrow> string \<Rightarrow> bool" where
  "anchor_of ms ts inst cov h \<longleftrightarrow>
     shortened_link cov = Some h
     \<or> (\<exists>m \<in> set ms. h = mention_html m \<and> (cov = ''@'' @ mn_username m
          \<or> (\<exists>d. acct_domain (mn_acct m) = Some d \<and> cov = ''@'' @ mn_username m @ ''@'' @ d)))
     \<or> (\<exists>t \<in> set ts. h = tag_html t inst \<and> cov = ''#'' @ et_name t)"

definition span_fine :: "mention list \<Rightarrow> entity_tag list \<Rightarrow> string \<Rightarrow> string \<Rightarrow> span \<Rightarrow> bool" where
  "span_fine ms ts inst src s \<longleftrightarrow> span_ok src s \<and> anchor_of ms ts inst (covered src s) (snd (snd s))"

lemma push_fine:
  assumes "\<forall>s \<in> set spans. span_fine ms ts inst src s" "anchor_of ms ts inst needle h"
  shows "\<forall>s \<in> set (push_word_matches alnum src needle h spans). span_fine ms ts inst src s"
  using assms push_word_matches_set word_matches_ok unfolding span_fine_def by blast

lemma mention_spans_fine:
  assumes "\<forall>s \<in> set spans. span_fine ms ts inst src s" "set ms' \<subseteq> set ms"
  shows "\<forall>s \<in> set (mention_spans alnum src ms' spans). span_fine ms ts inst src s"
  using assms
proof (induction ms' arbitrary: spans)
  case (Cons m ms')
  have m: "m \<in> set ms" "set ms' \<subseteq> set ms" using Cons.prems by auto
  let ?s1 = "case acct_domain (mn_acct m) of
     Some d \<Rightarrow> push_word_matches alnum src (''@'' @ mn_username m @ ''@'' @ d) (mention_html m) spans
   | None \<Rightarrow> spans"
  have a: "anchor_of ms ts inst (''@'' @ mn_username m) (mention_html m)"
      "acct_domain (mn_acct m) = Some d \<Longrightarrow> anchor_of ms ts inst (''@'' @ mn_username m @ ''@'' @ d) (mention_html m)" for d
    using m(1) unfolding anchor_of_def by blast+
  have "\<forall>s \<in> set ?s1. span_fine ms ts inst src s"
    using Cons.prems(1) push_fine [OF Cons.prems(1) a(2)] by (cases "acct_domain (mn_acct m)") auto
  then have "\<forall>s \<in> set (push_word_matches alnum src (''@'' @ mn_username m) (mention_html m) ?s1). span_fine ms ts inst src s"
    using a(1) by (rule push_fine)
  from Cons.IH [OF this m(2)] show ?case by (simp add: mention_spans_def Let_def)
qed (simp add: mention_spans_def)

lemma tag_spans_fine:
  assumes "\<forall>s \<in> set spans. span_fine ms ts inst src s" "set ts' \<subseteq> set ts"
  shows "\<forall>s \<in> set (tag_spans alnum src ts' inst spans). span_fine ms ts inst src s"
  using assms
proof (induction ts' arbitrary: spans)
  case (Cons t ts')
  have t: "t \<in> set ts" "set ts' \<subseteq> set ts" using Cons.prems by auto
  have "anchor_of ms ts inst (''#'' @ et_name t) (tag_html t inst)"
    using t(1) unfolding anchor_of_def by blast
  from Cons.IH [OF push_fine [OF Cons.prems(1) this] t(2)] show ?case by (simp add: tag_spans_def)
qed (simp add: tag_spans_def)

section \<open>Rendering\<close>

fun chained :: "nat \<Rightarrow> span list \<Rightarrow> bool" where
  "chained c [] = True"
| "chained c ((a, b, h) # spans) = (c \<le> a \<and> chained b spans)"

lemma non_overlapping_chained:
  "\<forall>s \<in> set spans. span_ok src s \<Longrightarrow>
   chained (case prev of None \<Rightarrow> 0 | Some e \<Rightarrow> e) (non_overlapping prev spans)"
  by (induction prev spans rule: non_overlapping.induct) (auto split: option.splits)

lemma set_non_overlapping: "set (non_overlapping prev spans) \<subseteq> set spans"
  by (induction prev spans rule: non_overlapping.induct) auto

text \<open>Pieces of text with something between any two of them.\<close>

fun weave :: "string list \<Rightarrow> string list \<Rightarrow> string" where
  "weave (p # ps) (h # hs) = p @ h @ weave ps hs"
| "weave ps [] = concat ps"
| "weave [] hs = concat hs"

lemma render_weave:
  assumes "ascii src" "chained c spans" "\<forall>s \<in> set spans. span_ok src s" "c \<le> length src"
  shows "\<exists>pieces. length pieces = Suc (length spans)
    \<and> render src c spans = Some (weave (map escape_text pieces) (map (\<lambda>s. snd (snd s)) spans))
    \<and> drop c src = weave pieces (map (covered src) spans)"
  using assms(2-)
proof (induction spans arbitrary: c)
  case Nil
  then have "render src c [] = Some (weave (map escape_text [drop c src]) [])"
    using ascii_slice [OF assms(1), of c "length src"] by simp
  then show ?case by (intro exI [of _ "[drop c src]"]) simp
next
  case (Cons s spans)
  obtain a b h where s: "s = (a, b, h)" by (cases s)
  have ok: "c \<le> a" "chained b spans" "a \<le> b" "b \<le> length src"
    using Cons.prems s by (auto simp: span_ok_def)
  obtain ps where ps: "length ps = Suc (length spans)"
      "render src b spans = Some (weave (map escape_text ps) (map (\<lambda>s. snd (snd s)) spans))"
      "drop b src = weave ps (map (covered src) spans)"
    using Cons.IH [OF ok(2) _ ok(4)] Cons.prems(2) by auto
  let ?p = "take (a - c) (drop c src)"
  have "slice src c a = Some ?p" using ok by (intro ascii_slice [OF assms(1)]) auto
  then have "render src c (s # spans) = Some (weave (map escape_text (?p # ps)) (map (\<lambda>s. snd (snd s)) (s # spans)))"
    by (simp add: s ps(2))
  moreover have "drop c src = weave (?p # ps) (map (covered src) (s # spans))"
  proof -
    have "drop c src = ?p @ drop a src" using ok(1) by (metis append_take_drop_id drop_drop le_add_diff_inverse2)
    also have "drop a src = covered src s @ drop b src"
      using ok(3) by (simp add: s covered_def) (metis append_take_drop_id drop_drop le_add_diff_inverse2)
    finally show ?thesis by (simp add: ps(3))
  qed
  ultimately show ?case using ps(1) by (intro exI [of _ "?p # ps"]) simp
qed

lemma set_sort_spans [simp]: "set (sort_spans spans) = set spans"
  by (simp add: sort_spans_def)

lemma url_spans:
  assumes "ascii src" "\<forall>(a, b) \<in> set ms'. a \<le> b \<and> b \<le> length src"
  shows "\<exists>urls. those (map (\<lambda>(a, b). map_option (\<lambda>h. (a, b, h)) (shortened_link (take (b - a) (drop a src)))) ms') = Some urls
    \<and> (\<forall>s \<in> set urls. span_fine ms ts inst src s)"
  using assms(2)
proof (induction ms')
  case (Cons m ms')
  obtain a b where m: "m = (a, b)" by (cases m)
  obtain h where h: "shortened_link (take (b - a) (drop a src)) = Some h"
    using shortened_link_ascii [OF ascii_take [OF assms(1)]] by blast
  have "span_fine ms ts inst src (a, b, h)"
    using h Cons.prems m by (auto simp: span_fine_def span_ok_def covered_def anchor_of_def)
  then show ?case using Cons m h by auto
qed simp

section \<open>What a reader sees\<close>

text \<open>The text of a piece of HTML: tags left out, the entities of \<open>escape_text\<close> read back.\<close>

fun strip_tags :: "bool \<Rightarrow> string \<Rightarrow> string" where
  "strip_tags inside [] = []"
| "strip_tags True (c # s) = strip_tags (c \<noteq> CHR ''>'') s"
| "strip_tags False (c # s) = (if c = CHR ''<'' then strip_tags True s else c # strip_tags False s)"

function unescape :: "string \<Rightarrow> string" where
  "unescape s =
     (case strip_prefix ''&amp;'' s of Some r \<Rightarrow> CHR ''&'' # unescape r | None \<Rightarrow>
      case strip_prefix ''&lt;'' s of Some r \<Rightarrow> CHR ''<'' # unescape r | None \<Rightarrow>
      case strip_prefix ''&gt;'' s of Some r \<Rightarrow> CHR ''>'' # unescape r | None \<Rightarrow>
      case s of [] \<Rightarrow> [] | c # r \<Rightarrow> c # unescape r)"
  by pat_completeness auto
termination by (relation "measure length") (auto simp: strip_prefix_Some)

declare unescape.simps [simp del]

definition visible :: "string \<Rightarrow> string" where
  "visible h = unescape (strip_tags False h)"

lemma unescape_char: "unescape (escape_text_char c @ s) = c # unescape s"
  by (subst unescape.simps) (auto simp: escape_text_char_def)

lemma unescape_escape_text [simp]: "unescape (escape_text s) = s"
proof (induction s)
  case Nil
  show ?case by (subst unescape.simps) simp
qed (simp add: escape_text_Cons unescape_char)

lemma strip_text: "CHR ''<'' \<notin> set x \<Longrightarrow> strip_tags False (x @ y) = x @ strip_tags False y"
  by (induction x) auto

lemma strip_attr: "CHR ''>'' \<notin> set x \<Longrightarrow> strip_tags True (x @ y) = strip_tags True y"
  by (induction x) auto

lemma escape_text_append: "escape_text (x @ y) = escape_text x @ escape_text y"
  by (simp add: escape_text_def)

lemma visible_escape_text [simp]: "visible (escape_text s) = s"
  using strip_text [of "escape_text s" "[]"] by (simp add: visible_def escape_text_safe)

lemmas strip_simps = strip_text strip_attr escape_text_safe escape_attr_safe attr_def dq_def

lemma visible_mention: "visible (mention_html m) = ''@'' @ mn_acct m"
proof -
  have "strip_tags False (mention_html m) = escape_text (''@'' @ mn_acct m)"
    by (simp add: mention_html_def strip_simps escape_text_Cons escape_text_char_def)
  then show ?thesis by (simp add: visible_def)
qed

lemma visible_tag: "CHR ''>'' \<notin> set inst \<Longrightarrow> visible (tag_html t inst) = ''#'' @ et_name t"
proof -
  assume "CHR ''>'' \<notin> set inst"
  then have "strip_tags False (tag_html t inst) = escape_text (''#'' @ et_name t)"
    by (simp add: tag_html_def strip_simps escape_text_Cons escape_text_char_def)
  then show ?thesis by (simp add: visible_def)
qed

lemma slice_split: "slice s 0 n = Some d \<Longrightarrow> slice s n (length s) = Some x \<Longrightarrow> d @ x = s"
  by (auto simp: slice_def split: if_splits)

definition link_html :: "string \<Rightarrow> string \<Rightarrow> string \<Rightarrow> string \<Rightarrow> string \<Rightarrow> string" where
  "link_html url pre dsp suf cls =
     ''<a '' @ attr ''href'' (escape_attr url) @ '' '' @ attr ''target'' ''_blank'' @ '' ''
       @ attr ''rel'' ''nofollow noopener noreferrer'' @ '' '' @ attr ''translate'' ''no'' @ ''>''
     @ ''<span '' @ attr ''class'' ''invisible'' @ ''>'' @ escape_text pre @ ''</span>''
     @ ''<span '' @ attr ''class'' cls @ ''>'' @ escape_text dsp @ ''</span>''
     @ ''<span '' @ attr ''class'' ''invisible'' @ ''>'' @ escape_text suf @ ''</span>''
     @ ''</a>''"

lemma strip_link_html:
  "CHR ''>'' \<notin> set cls \<Longrightarrow> strip_tags False (link_html url p d x cls) = escape_text (p @ d @ x)"
  unfolding link_html_def by (simp add: strip_simps escape_text_append)

lemma shortened_link_parts:
  assumes "shortened_link url = Some h"
  shows "\<exists>p d x cls. p @ d @ x = url \<and> cls \<in> {[], ''ellipsis''} \<and> h = link_html url p d x cls"
proof -
  define n where "n = (let scheme_end = (case find_str ''://'' url of Some i \<Rightarrow> i + 3 | None \<Rightarrow> 0)
     in scheme_end + (if starts_with ''www.'' (drop scheme_end url) then 4 else 0))"
  let ?rest = "drop n url"
  let ?parts = "if length ?rest > link_display_max
     then (case (slice ?rest 0 link_display_max, slice ?rest link_display_max (length ?rest)) of
             (Some d, Some x) \<Rightarrow> Some (d, x, ''ellipsis'') | _ \<Rightarrow> None)
     else Some (?rest, [], [])"
  have "shortened_link url = map_option (\<lambda>(d, x, cls). link_html url (take n url) d x cls) ?parts"
    unfolding shortened_link_def link_html_def n_def Let_def by (rule refl)
  with assms have "map_option (\<lambda>(d, x, cls). link_html url (take n url) d x cls) ?parts = Some h" by (simp only:)
  then obtain q where "?parts = Some q" "h = (\<lambda>(d, x, cls). link_html url (take n url) d x cls) q"
    unfolding map_option_eq_Some by blast
  then obtain d x cls where p: "?parts = Some (d, x, cls)" "h = link_html url (take n url) d x cls"
    by (cases q) auto
  have "d @ x = ?rest \<and> cls \<in> {[], ''ellipsis''}"
    using p(1) slice_split [of ?rest link_display_max]
    by (cases "length ?rest > link_display_max") (auto split: option.splits)
  then show ?thesis using p(2) by (metis append_take_drop_id)
qed

lemma visible_link: "shortened_link url = Some h \<Longrightarrow> visible h = url"
  using strip_link_html by (auto dest!: shortened_link_parts simp: visible_def)

text \<open>An anchor shows the text it stands for; a mention shows the full name of the account.\<close>

definition anchor_shows :: "mention list \<Rightarrow> string \<Rightarrow> string \<Rightarrow> bool" where
  "anchor_shows ms cov h \<longleftrightarrow> visible h = cov
     \<or> (\<exists>m \<in> set ms. h = mention_html m \<and> visible h = ''@'' @ mn_acct m \<and> starts_with (''@'' @ mn_username m) cov)"

lemma anchor_of_shows:
  assumes "anchor_of ms ts inst cov h" "CHR ''>'' \<notin> set inst" shows "anchor_shows ms cov h"
  using assms visible_mention visible_tag visible_link
  by (auto simp: anchor_of_def anchor_shows_def starts_with_iff)

lemma join_split_blank: "join [CHR 0x0A, CHR 0x0A] (split_blank s) = s \<and> split_blank s \<noteq> []"
proof (induction s rule: split_blank.induct)
  case (3 c d cs)
  then show ?case
    by (cases "split_blank cs"; cases "split_blank (d # cs)"; cases "tl (split_blank (d # cs))") auto
qed simp_all

fun no_blank_line :: "string \<Rightarrow> bool" where
  "no_blank_line (c # d # s) \<longleftrightarrow> \<not> (c = CHR 0x0A \<and> d = CHR 0x0A) \<and> no_blank_line (d # s)"
| "no_blank_line s \<longleftrightarrow> True"

lemma split_blank_first: "split_blank (d # cs) = p # ps \<Longrightarrow> p = [] \<or> hd p = d"
  by (cases cs) (auto split: if_splits list.splits)

lemma split_blank_parts: "\<forall>p \<in> set (split_blank s). no_blank_line p"
proof (induction s rule: split_blank.induct)
  case (3 c d cs)
  show ?case
  proof (cases "c = CHR 0x0A \<and> d = CHR 0x0A")
    case True
    then show ?thesis using "3.IH"(1) by simp
  next
    case False
    obtain p ps where p: "split_blank (d # cs) = p # ps" using join_split_blank [of "d # cs"] by (cases "split_blank (d # cs)") auto
    have "no_blank_line (c # p)"
      using split_blank_first [OF p] "3.IH"(2) [OF False] p False by (cases p) auto
    then show ?thesis using "3.IH"(2) [OF False] p False by auto
  qed
qed simp_all

section \<open>Properties\<close>

text \<open>
  C36: Formatting ASCII text always succeeds, and the text comes through whole. There are pieces
  of text with links, mentions and tags between them which put together are the text; the pieces
  escaped, with the anchors of the links, mentions and tags between them, are cut at blank lines,
  and the output is what is not empty of this, each in a paragraph with its line ends as breaks. A
  reader sees every piece as it was, every link and tag as it was, and for a mention the full name
  of the account; no piece brings a tag of its own. The URL matcher is assumed to report ranges of the text
  and the instance's domain to have no angle bracket.
\<close>

theorem format_local_preserves_text:
  assumes "ascii src" "\<forall>(a, b) \<in> set (find_iter env url_pattern src). a \<le> b \<and> b \<le> length src"
    and "CHR ''>'' \<notin> set inst"
  shows "\<exists>pieces spans parts. length pieces = Suc (length spans)
    \<and> src = weave pieces (map (covered src) spans)
    \<and> join [CHR 0x0A, CHR 0x0A] parts = weave (map escape_text pieces) (map (\<lambda>s. snd (snd s)) spans)
    \<and> (\<forall>p \<in> set parts. no_blank_line p)
    \<and> format_local env alnum src ms ts inst
        = Some (if \<forall>p \<in> set parts. p = [] then ''<p></p>''
                else concat (map (\<lambda>p. ''<p>'' @ concat (map (\<lambda>c. if c = CHR 0x0A then ''<br />'' else [c]) p) @ ''</p>'')
                       (filter (\<lambda>p. p \<noteq> []) parts)))
    \<and> (\<forall>s \<in> set spans. anchor_of ms ts inst (covered src s) (snd (snd s)) \<and> anchor_shows ms (covered src s) (snd (snd s)))
    \<and> (\<forall>p \<in> set pieces. visible (escape_text p) = p \<and> CHR ''<'' \<notin> set (escape_text p) \<and> CHR ''>'' \<notin> set (escape_text p))"
proof -
  obtain urls where u: "those (map (\<lambda>(a, b). map_option (\<lambda>h. (a, b, h)) (shortened_link (take (b - a) (drop a src))))
      (find_iter env url_pattern src)) = Some urls" "\<forall>s \<in> set urls. span_fine ms ts inst src s"
    using url_spans [OF assms(1,2)] by blast
  let ?all = "sort_spans (tag_spans alnum src ts inst (mention_spans alnum src ms urls))"
  let ?spans = "non_overlapping None ?all"
  have all: "\<forall>s \<in> set ?all. span_fine ms ts inst src s"
    using tag_spans_fine [OF mention_spans_fine [OF u(2) subset_refl] subset_refl] by simp
  then have "\<forall>s \<in> set ?all. span_ok src s" by (simp add: span_fine_def)
  then have ch: "chained 0 ?spans" using non_overlapping_chained [of ?all src None] by simp
  have fine: "\<forall>s \<in> set ?spans. span_fine ms ts inst src s" using all set_non_overlapping by blast
  then have ok: "\<forall>s \<in> set ?spans. span_ok src s" by (simp add: span_fine_def)
  obtain ps where ps: "length ps = Suc (length ?spans)"
      "render src 0 ?spans = Some (weave (map escape_text ps) (map (\<lambda>s. snd (snd s)) ?spans))"
      "src = weave ps (map (covered src) ?spans)"
    using render_weave [OF assms(1) ch ok] by auto
  let ?parts = "split_blank (weave (map escape_text ps) (map (\<lambda>s. snd (snd s)) ?spans))"
  have f: "format_local env alnum src ms ts inst
      = Some (if \<forall>p \<in> set ?parts. p = [] then ''<p></p>''
              else concat (map (\<lambda>p. ''<p>'' @ concat (map (\<lambda>c. if c = CHR 0x0A then ''<br />'' else [c]) p) @ ''</p>'')
                     (filter (\<lambda>p. p \<noteq> []) ?parts)))"
    by (simp add: format_local_def u(1) ps(2) paragraphs_def newline_br_def Let_def filter_empty_conv)
  have a: "\<forall>s \<in> set ?spans. anchor_of ms ts inst (covered src s) (snd (snd s)) \<and> anchor_shows ms (covered src s) (snd (snd s))"
    using fine anchor_of_shows assms(3) by (auto simp: span_fine_def)
  show ?thesis
    by (rule exI [of _ ps], rule exI [of _ ?spans], rule exI [of _ ?parts])
      (use ps(1,3) f a escape_text_safe join_split_blank split_blank_parts in \<open>simp del: split_blank.simps\<close>)
qed

definition no_urls :: html_env where
  "no_urls = \<lparr>clean = (\<lambda>_ s. s), replace_all = (\<lambda>_ _ s. s), find_iter = (\<lambda>_ _. [])\<rparr>"

theorem format_local_preserves_text_witness:
  "\<exists>out. format_local no_urls (\<lambda>_. True) ''a < b'' [] [] ''i.test'' = Some out"
proof -
  have "ascii ''a < b''" "\<forall>(a, b) \<in> set (find_iter no_urls url_pattern ''a < b''). a \<le> b \<and> b \<le> length ''a < b''"
    "CHR ''>'' \<notin> set ''i.test''"
    by (simp_all add: ascii_def no_urls_def)
  from format_local_preserves_text [OF this, of "\<lambda>_. True" "[]" "[]"] show ?thesis by blast
qed

text \<open>
  A link whose visible part is longer than 30 bytes and has a character of more than one byte
  across byte 30 makes the formatter panic: it cuts at a byte, not at a character. Here the link
  is \<open>http://\<close>, 29 letters, and a two-byte character.
\<close>

theorem shortened_link_panics:
  "shortened_link (''http://'' @ replicate 29 CHR ''a'' @ [CHR 0xC3, CHR 0xA9]) = None"
proof -
  let ?rest = "replicate 29 CHR ''a'' @ [CHR 0xC3, CHR 0xA9]"
  have "continuation CHR 0xA9" by (simp add: continuation_def)
  then have "\<not> boundary ?rest 30" by (simp add: boundary_def nth_append)
  moreover have "find_str ''://'' (''http://'' @ ?rest) = Some 4" by (simp add: starts_with_def)
  moreover have "\<not> starts_with ''www.'' ?rest"
    by (simp add: starts_with_def numeral_eq_Suc)
  ultimately show ?thesis
    by (simp add: shortened_link_def Let_def link_display_max_def slice_def)
qed

end
