(* ===== verification/Entities.thy ===== *)
theory Entities
  imports Formatter Common_Types Rust_Float
begin

text \<open>
  The Mastodon API entities of \<open>crates/mastodon\<close> (\<open>status.rs\<close>, \<open>account.rs\<close>,
  \<open>media_attachment.rs\<close>, \<open>preview_card.rs\<close>, \<open>quote.rs\<close>, \<open>tag.rs\<close>) and their conversions from the
  shared types. A status holds statuses (the reblogged one, the quoted one), so it is a datatype
  around the record of its other fields. The HTML cleaner is that of \<open>html_env\<close>; the derived JSON
  instances are in \<open>Wire\<close>.
\<close>

section \<open>Entities\<close>

record emoji_entity =
  ee_shortcode :: string
  ee_url :: string
  ee_static_url :: string
  ee_visible_in_picker :: bool

record field_entity =
  fd_name :: string
  fd_value :: string
  fd_verified_at :: "instant option"

record account_entity =
  ac_id :: string
  ac_username :: string
  ac_acct :: string
  ac_url :: string
  ac_uri :: string
  ac_display_name :: string
  ac_note :: string
  ac_avatar :: string
  ac_avatar_static :: string
  ac_header :: string
  ac_header_static :: string
  ac_locked :: bool
  ac_bot :: bool
  ac_group :: bool
  ac_discoverable :: "bool option"
  ac_indexable :: bool
  ac_statuses_count :: nat
  ac_followers_count :: nat
  ac_following_count :: nat
  ac_created_at :: instant
  ac_fields :: "field_entity list"
  ac_emojis :: "emoji_entity list"
  ac_last_status_at :: "string option"

record media_dimensions =
  md_width :: nat
  md_height :: nat
  md_aspect :: fl

record media_meta =
  mm_original :: "media_dimensions option"
  mm_small :: "media_dimensions option"

record media_attachment =
  ma_id :: string
  ma_media_type :: string
  ma_url :: "string option"
  ma_preview_url :: "string option"
  ma_remote_url :: "string option"
  ma_meta :: "media_meta option"
  ma_description :: "string option"
  ma_blurhash :: "string option"

record card_author =
  ca_name :: string
  ca_url :: string

record card_history =
  ch_day :: string
  ch_accounts :: string
  ch_uses :: string

record card_entity =
  cd_url :: string
  cd_title :: string
  cd_description :: string
  cd_card_type :: string
  cd_authors :: "card_author list"
  cd_author_name :: string
  cd_author_url :: string
  cd_provider_name :: string
  cd_provider_url :: string
  cd_html :: string
  cd_width :: int
  cd_height :: int
  cd_image :: "string option"
  cd_image_description :: string
  cd_embed_url :: "string option"
  cd_blurhash :: "string option"
  cd_history :: "card_history list"

record quote_approval =
  qa_automatic :: "string list"
  qa_manual :: "string list"
  qa_current_user :: string

definition quote_approval_public :: quote_approval where
  "quote_approval_public = \<lparr>qa_automatic = [''public''], qa_manual = [], qa_current_user = ''automatic''\<rparr>"

text \<open>\<open>poll\<close> and \<open>filtered\<close> have no value but the empty one.\<close>

record status_data =
  st_id :: string
  st_uri :: string
  st_url :: "string option"
  st_created_at :: instant
  st_edited_at :: "instant option"
  st_content :: string
  st_text :: "string option"
  st_visibility :: string
  st_language :: "string option"
  st_sensitive :: bool
  st_spoiler_text :: string
  st_in_reply_to_id :: "string option"
  st_in_reply_to_account_id :: "string option"
  st_account :: account_entity
  st_media_attachments :: "media_attachment list"
  st_mentions :: "mention list"
  st_tags :: "entity_tag list"
  st_emojis :: "emoji_entity list"
  st_reblogs_count :: nat
  st_favourites_count :: nat
  st_replies_count :: nat
  st_quotes_count :: nat
  st_favourited :: bool
  st_reblogged :: bool
  st_muted :: bool
  st_bookmarked :: bool
  st_pinned :: bool
  st_quote_approval :: quote_approval
  st_card :: "card_entity option"

datatype status = Status (status_of: status_data) (reblog_of: "status option") (quote_entity: "quote option")
  and quote = Quote (quote_state: string) (quoted_status: status)

record status_context =
  sx_ancestors :: "status list"
  sx_descendants :: "status list"

definition set_quote :: "quote \<Rightarrow> status \<Rightarrow> status" where
  "set_quote q s = Status (status_of s) (reblog_of s) (Some q)"

lemma set_quote_sel [simp]:
  "status_of (set_quote q s) = status_of s" "reblog_of (set_quote q s) = reblog_of s"
  "quote_entity (set_quote q s) = Some q"
  by (simp_all add: set_quote_def)

section \<open>Media and tags\<close>

definition media_dimensions_new :: "nat \<Rightarrow> nat \<Rightarrow> media_dimensions" where
  "media_dimensions_new w h =
     \<lparr>md_width = w, md_height = h,
      md_aspect = (if h > 0 then fl_div binary64 (fl_of_nat binary64 w) (fl_of_nat binary64 h) else Fin 1)\<rparr>"

definition normalize_media_type :: "string \<Rightarrow> string" where
  "normalize_media_type t =
     (if t \<in> {''image'', ''video'', ''gifv'', ''audio''} then t else ''unknown'')"

definition original_meta :: "nat option \<Rightarrow> nat option \<Rightarrow> media_meta option" where
  "original_meta w h =
     (case (w, h) of
        (Some w, Some h) \<Rightarrow>
          if w > 0 \<and> h > 0 then Some \<lparr>mm_original = Some (media_dimensions_new w h), mm_small = None\<rparr> else None
      | _ \<Rightarrow> None)"

definition tag_from :: "tag \<Rightarrow> entity_tag" where
  "tag_from t =
     \<lparr>et_name = tg_name t, et_url = tg_url t,
      et_history = map (\<lambda>h. \<lparr>eh_day = th_day h, eh_uses = show_int (th_uses h),
                              eh_accounts = show_int (th_accounts h)\<rparr>) (tg_history t)\<rparr>"

section \<open>Preview cards\<close>

definition history_days :: nat where "history_days = 7"

definition day_micros :: int where "day_micros = 24 * 60 * 60 * 1000000"

text \<open>\<open>now\<close> is \<open>Utc::now()\<close>; midnight of its day, and \<open>timestamp()\<close> in seconds.\<close>

definition build_history :: "instant \<Rightarrow> int \<Rightarrow> int \<Rightarrow> card_history list" where
  "build_history now post_count account_count =
     (let today = now - now mod day_micros in
      map (\<lambda>i. let day_ts = (today - int i * day_micros) div 1000000 in
             if i = 0
             then \<lparr>ch_day = show_int day_ts, ch_accounts = show_int account_count, ch_uses = show_int post_count\<rparr>
             else \<lparr>ch_day = show_int day_ts, ch_accounts = ''0'', ch_uses = ''0''\<rparr>)
        [0..<history_days])"

definition card_authors :: "string option \<Rightarrow> card_author list" where
  "card_authors name =
     unwrap_or (map_option (\<lambda>n. [\<lparr>ca_name = n, ca_url = []\<rparr>]) (option_filter (\<lambda>n. n \<noteq> []) name)) []"

definition card_from_link :: "html_env \<Rightarrow> instant \<Rightarrow> link \<Rightarrow> card_entity" where
  "card_from_link env now l =
     \<lparr>cd_url = li_url l, cd_title = sanitize_text env (li_title l),
      cd_description = sanitize_text env (li_description l), cd_card_type = li_link_type l,
      cd_authors = card_authors (li_author_name l),
      cd_author_name = sanitize_text env (unwrap_or (li_author_name l) []), cd_author_url = [],
      cd_provider_name = sanitize_text env (unwrap_or (li_provider_name l) []), cd_provider_url = [],
      cd_html = sanitize_html env (unwrap_or (li_embed_html l) []),
      cd_width = unwrap_or (li_image_width l) 0, cd_height = unwrap_or (li_image_height l) 0,
      cd_image = li_image_url l, cd_image_description = [], cd_embed_url = li_embed_url l,
      cd_blurhash = li_blurhash l,
      cd_history = (if li_post_count l > 0 \<or> li_account_count l > 0
                    then build_history now (li_post_count l) (li_account_count l) else [])\<rparr>"

definition card_from_preview :: "card_preview \<Rightarrow> card_entity" where
  "card_from_preview c =
     \<lparr>cd_url = cp_url c, cd_title = cp_title c, cd_description = cp_description c,
      cd_card_type = cp_link_type c, cd_authors = card_authors (cp_author_name c),
      cd_author_name = unwrap_or (cp_author_name c) [], cd_author_url = [],
      cd_provider_name = unwrap_or (cp_provider_name c) [], cd_provider_url = [],
      cd_html = unwrap_or (cp_embed_html c) [],
      cd_width = unwrap_or (cp_image_width c) 0, cd_height = unwrap_or (cp_image_height c) 0,
      cd_image = cp_image_url c, cd_image_description = [], cd_embed_url = cp_embed_url c,
      cd_blurhash = cp_blurhash c, cd_history = []\<rparr>"

section \<open>Posts to statuses\<close>

definition convert_emojis :: "custom_emoji list \<Rightarrow> emoji_entity list" where
  "convert_emojis es =
     map (\<lambda>e. \<lparr>ee_shortcode = ce_shortcode e, ee_url = ce_url e,
                ee_static_url = unwrap_or (ce_static_url e) (ce_url e), ee_visible_in_picker = False\<rparr>) es"

definition acct_of :: "string \<Rightarrow> string" where
  "acct_of handle = trim_start_char CHR ''@'' handle"

definition build_account :: "html_env \<Rightarrow> author \<Rightarrow> instant \<Rightarrow> account_entity" where
  "build_account env a published_at =
     (let acct = acct_of (au_handle a);
          avatar = unwrap_or (au_avatar_url a) [];
          header = unwrap_or (au_header_url a) []
      in \<lparr>ac_id = acct, ac_username = hd (split_char CHR ''@'' acct), ac_acct = acct,
          ac_url = au_url a, ac_uri = au_url a, ac_display_name = sanitize_text env (au_display_name a),
          ac_note = [], ac_avatar = avatar, ac_avatar_static = avatar, ac_header = header,
          ac_header_static = header, ac_locked = False, ac_bot = False, ac_group = False,
          ac_discoverable = None, ac_indexable = False, ac_statuses_count = 0, ac_followers_count = 0,
          ac_following_count = 0, ac_created_at = published_at, ac_fields = [],
          ac_emojis = convert_emojis (au_emojis a), ac_last_status_at = None\<rparr>)"

definition build_media_attachment :: "html_env \<Rightarrow> nat \<Rightarrow> media \<Rightarrow> media_attachment" where
  "build_media_attachment env i m =
     \<lparr>ma_id = ''media_'' @ show_nat i, ma_media_type = normalize_media_type (me_media_type m),
      ma_url = Some (me_url m), ma_preview_url = me_thumbnail_url m, ma_remote_url = None,
      ma_meta = original_meta (me_width m) (me_height m),
      ma_description = map_option (sanitize_text env) (me_alt m), ma_blurhash = me_blurhash m\<rparr>"

definition post_tag :: "html_env \<Rightarrow> string \<Rightarrow> entity_tag" where
  "post_tag env name =
     (let s = sanitize_text env name in \<lparr>et_name = s, et_url = ''/tags/'' @ s, et_history = []\<rparr>)"

definition status_data_from :: "html_env \<Rightarrow> post_data \<Rightarrow> post option \<Rightarrow> status_data" where
  "status_data_from env p reply =
     \<lparr>st_id = po_url p, st_uri = po_url p, st_url = Some (po_url p), st_created_at = po_published_at p,
      st_edited_at = None, st_content = format_remote env (po_content p), st_text = Some (po_text p),
      st_visibility = ''public'', st_language = po_language p, st_sensitive = po_sensitive p,
      st_spoiler_text = sanitize_text env (unwrap_or (po_content_warning p) []),
      st_in_reply_to_id = map_option (\<lambda>r. po_url (post_of r)) reply,
      st_in_reply_to_account_id = map_option (\<lambda>r. acct_of (au_handle (po_author (post_of r)))) reply,
      st_account = build_account env (po_author p) (po_published_at p),
      st_media_attachments = map (\<lambda>(i, m). build_media_attachment env i m) (enumerate 0 (po_media p)),
      st_mentions = [], st_tags = map (post_tag env) (po_tags p), st_emojis = convert_emojis (po_emojis p),
      st_reblogs_count = en_reposts (po_engagement p), st_favourites_count = en_likes (po_engagement p),
      st_replies_count = en_replies (po_engagement p), st_quotes_count = 0,
      st_favourited = False, st_reblogged = False, st_muted = False, st_bookmarked = False,
      st_pinned = False, st_quote_approval = quote_approval_public,
      st_card = map_option card_from_preview (po_link p)\<rparr>"

primrec status_from :: "html_env \<Rightarrow> post \<Rightarrow> status" where
  "status_from env (Post p reply quote) =
     Status (status_data_from env p reply) None
       (map_option (\<lambda>s. Quote ''accepted'' s) (map_option (status_from env) quote))"

definition status_from_post :: "html_env \<Rightarrow> post \<Rightarrow> string \<Rightarrow> status" where
  "status_from_post env p status_id =
     (let uri = unwrap_or (po_uri (post_of p)) (po_url (post_of p));
          s = status_from env p
      in Status ((status_of s)\<lparr>st_id := status_id, st_uri := uri\<rparr>) (reblog_of s) (quote_entity s))"

section \<open>Lemmas\<close>

text \<open>A predicate of a status, of the status it reblogs and the one it quotes, and so on.\<close>

fun all_statuses :: "(status_data \<Rightarrow> bool) \<Rightarrow> status \<Rightarrow> bool" and all_quotes :: "(status_data \<Rightarrow> bool) \<Rightarrow> quote \<Rightarrow> bool" where
  "all_statuses P (Status d r q) \<longleftrightarrow>
     P d \<and> (case r of None \<Rightarrow> True | Some s \<Rightarrow> all_statuses P s) \<and> (case q of None \<Rightarrow> True | Some x \<Rightarrow> all_quotes P x)"
| "all_quotes P (Quote _ s) \<longleftrightarrow> all_statuses P s"

lemma all_statuses_status_from:
  assumes "\<And>d r. P (status_data_from env d r)"
  shows "all_statuses P (status_from env p)"
proof (induction p)
  case (Post d r q)
  then show ?case using assms by (cases q) auto
qed

lemma all_statuses_from_post:
  assumes "\<And>d r. P (status_data_from env d r)" "\<And>d i u. P d \<Longrightarrow> P (d\<lparr>st_id := i, st_uri := u\<rparr>)"
  shows "all_statuses P (status_from_post env p i)"
proof -
  have "all_statuses P (status_from env p)" by (rule all_statuses_status_from) (rule assms(1))
  then show ?thesis using assms(2) by (cases "status_from env p") (auto simp: status_from_post_def)
qed

lemma status_from_sel:
  "status_of (status_from env p) = status_data_from env (post_of p) (reply_to p)"
  "reblog_of (status_from env p) = None"
  "quote_entity (status_from env p) = map_option (\<lambda>s. Quote ''accepted'' (status_from env s)) (quote_of p)"
  by (cases p; simp add: option.map_comp o_def)+

lemma status_from_post_sel:
  "st_id (status_of (status_from_post env p i)) = i"
  "st_uri (status_of (status_from_post env p i)) = unwrap_or (po_uri (post_of p)) (po_url (post_of p))"
  by (simp_all add: status_from_post_def Let_def)

text \<open>The text of a status that clients show as HTML, but for the card, comes out of the cleaner.\<close>

definition account_clean :: "html_env \<Rightarrow> account_entity \<Rightarrow> bool" where
  "account_clean env a \<longleftrightarrow>
     clean_text env (ac_display_name a)
     \<and> (ac_note a = [] \<or> clean_html env (ac_note a))
     \<and> (\<forall>f \<in> set (ac_fields a). clean_text env (fd_name f) \<and> clean_html env (fd_value f))"

definition status_clean :: "html_env \<Rightarrow> status_data \<Rightarrow> bool" where
  "status_clean env d \<longleftrightarrow>
     clean_remote env (st_content d)
     \<and> clean_text env (st_spoiler_text d)
     \<and> account_clean env (st_account d)
     \<and> (\<forall>t \<in> set (st_tags d). clean_text env (et_name t))
     \<and> (\<forall>m \<in> set (st_media_attachments d). \<forall>x. ma_description m = Some x \<longrightarrow> clean_text env x)"

lemma status_clean_from: "status_clean env (status_data_from env p r)"
  by (auto simp: status_clean_def status_data_from_def account_clean_def build_account_def Let_def post_tag_def
      build_media_attachment_def)

text \<open>What the Mastodon API prescribes of the values of a status.\<close>

definition media_types :: "string set" where
  "media_types = {''image'', ''video'', ''gifv'', ''audio'', ''unknown''}"

definition meta_ok :: "media_meta option \<Rightarrow> bool" where
  "meta_ok m \<longleftrightarrow> (\<forall>x. m = Some x \<longrightarrow> (\<exists>w h. 0 < w \<and> 0 < h \<and> mm_original x = Some (media_dimensions_new w h)
     \<and> md_aspect (media_dimensions_new w h) = fl_div binary64 (fl_of_nat binary64 w) (fl_of_nat binary64 h)))"

definition status_typed :: "status_data \<Rightarrow> bool" where
  "status_typed d \<longleftrightarrow>
     st_visibility d \<in> {''public'', ''unlisted'', ''private'', ''direct''}
     \<and> (\<forall>m \<in> set (st_media_attachments d). ma_media_type m \<in> media_types \<and> meta_ok (ma_meta m))
     \<and> distinct (map ma_id (st_media_attachments d))
     \<and> (\<exists>rest. ac_acct (st_account d) = ac_username (st_account d) @ rest
          \<and> (rest = [] \<or> hd rest = CHR ''@'') \<and> CHR ''@'' \<notin> set (ac_username (st_account d)))
     \<and> (st_url d \<noteq> None) \<and> (st_in_reply_to_id d = None \<longleftrightarrow> st_in_reply_to_account_id d = None)"

lemma original_meta_ok [simp]: "meta_ok (original_meta w h)"
  by (auto simp: meta_ok_def original_meta_def media_dimensions_new_def split: option.splits)

lemma normalize_media_type_in [simp]: "normalize_media_type t \<in> media_types"
  by (simp add: normalize_media_type_def media_types_def)

lemma username_prefix:
  "\<exists>rest. s = hd (split_char c s) @ rest \<and> (rest = [] \<or> hd rest = c) \<and> c \<notin> set (hd (split_char c s))"
proof (induction s)
  case (Cons x s)
  then show ?case by (cases "split_char c s") auto
qed simp

lemma media_ids:
  "map ma_id (map (\<lambda>(i, m). build_media_attachment env i m) (enumerate 0 ms))
     = map (\<lambda>i. ''media_'' @ show_nat i) [0..<length ms]"
proof -
  have "ma_id (build_media_attachment env i m) = ''media_'' @ show_nat i" for i m
    by (simp add: build_media_attachment_def)
  then have "map ma_id (map (\<lambda>(i, m). build_media_attachment env i m) (enumerate 0 ms))
      = map (\<lambda>i. ''media_'' @ show_nat i) (map fst (enumerate 0 ms))"
    by (simp add: case_prod_beta o_def del: map_fst_enumerate)
  then show ?thesis by simp
qed

lemma status_typed_from: "status_typed (status_data_from env d r)"
proof -
  let ?ms = "map (\<lambda>(i, m). build_media_attachment env i m) (enumerate 0 (po_media d))"
  have "\<forall>m \<in> set ?ms. ma_media_type m \<in> media_types \<and> meta_ok (ma_meta m)"
    by (auto simp: build_media_attachment_def)
  moreover have "distinct (map ma_id ?ms)" unfolding media_ids by (simp add: distinct_map inj_on_def)
  ultimately show ?thesis
    using username_prefix [of "acct_of (au_handle (po_author d))" "CHR ''@''"]
    by (simp add: status_typed_def status_data_from_def build_account_def Let_def)
qed

text \<open>The midnights of a history, the latest first.\<close>

lemma build_history_days:
  "map ch_day (build_history now p a)
     = map (\<lambda>i. show_int (((now - now mod day_micros) - int i * day_micros) div 1000000)) [0..<7]"
  by (simp add: build_history_def history_days_def Let_def upt_rec)

section \<open>Properties\<close>

text \<open>
  C37: In a status made of a post, and in every status it quotes, the values the code computes are
  of the kinds the Mastodon API knows: the visibility, the types of the media, dimensions that are
  there only when both are positive, attachments with distinct ids, an account whose username is
  its handle up to the first \<open>@\<close>, and the id and the account replied to, both or neither. The
  status has the id it is given and the post's URI. (Values the provider sends are passed on, such
  as the type of the card.)
\<close>

theorem status_from_post_typed:
  "all_statuses status_typed (status_from_post env p i)
     \<and> st_id (status_of (status_from_post env p i)) = i
     \<and> st_uri (status_of (status_from_post env p i)) = unwrap_or (po_uri (post_of p)) (po_url (post_of p))
     \<and> \<not> starts_with ''@'' (ac_acct (st_account (status_of (status_from_post env p i))))"
proof -
  have "all_statuses status_typed (status_from_post env p i)"
    by (rule all_statuses_from_post) (simp_all add: status_typed_from, simp add: status_typed_def)
  moreover have "\<not> starts_with ''@'' (acct_of h)" for h
  proof
    assume "starts_with ''@'' (acct_of h)"
    then obtain r where r: "dropWhile (\<lambda>x. x = CHR ''@'') h = CHR ''@'' # r"
      by (auto simp: starts_with_iff acct_of_def trim_start_char_def)
    have "dropWhile (\<lambda>x. x = CHR ''@'') h \<noteq> []" unfolding r by simp
    from hd_dropWhile [OF this] show False unfolding r by simp
  qed
  ultimately show ?thesis
    by (simp add: status_from_post_sel) (simp add: status_from_post_def Let_def status_from_sel status_data_from_def
      build_account_def)
qed


text \<open>
  The card of a post is the exception: whatever the cleaner does, a provider can have clients
  shown a script as the HTML to embed, and a type of card of its own.
\<close>

lemma card_not_cleaned:
  assumes "po_link (post_of p) = Some l" "cp_embed_html l = Some ''<script>''" "cp_link_type l = ''x''"
  shows "\<exists>c. st_card (status_of (status_from_post env p i)) = Some c \<and> cd_html c = ''<script>'' \<and> cd_card_type c = ''x''"
  using assms by (simp add: status_from_post_def Let_def status_from_sel status_data_from_def card_from_preview_def)

end
