(* ===== verification/Status_Map.thy ===== *)
theory Status_Map
  imports Json Common_Types
begin

text \<open>
  \<open>crates/state/src/statuses/mapping.rs\<close>: the table \<open>commonfeed_statuses\<close> that gives posts of
  providers an id of this instance, and \<open>crates/state/src/error.rs\<close>. An operation maps the table
  to an error, or to its result and the new table. The id of an inserted row is what the
  database's \<open>timestamp_id\<close> returns and a parameter here; the primary key makes an insert with an
  id in use fail. A statement that touches one row twice fails as PostgreSQL documents it
  (SQLSTATE 21000).
\<close>

section \<open>Errors\<close>

datatype sqlx_error =
    Row_Not_Found
  | Pool_Timed_Out
  | Database (db_code: "string option") (db_constraint: "string option")
  | Other_Sqlx

datatype state_error =
    Not_Found
  | Conflict string
  | Invalid_Reference string
  | Check_Violation string
  | Serialization
  | Deadlock
  | Timeout
  | Unavailable
  | Auth_Failure
  | Internal sqlx_error

definition error_from_sqlx :: "sqlx_error \<Rightarrow> state_error" where
  "error_from_sqlx err =
     (case err of
        Row_Not_Found \<Rightarrow> Not_Found
      | Pool_Timed_Out \<Rightarrow> Unavailable
      | Database code con \<Rightarrow>
          (let c = unwrap_or con [] in
           if code = Some ''23505'' then Conflict c
           else if code = Some ''23503'' then Invalid_Reference c
           else if code = Some ''23514'' then Check_Violation c
           else if code = Some ''40001'' then Serialization
           else if code = Some ''40P01'' then Deadlock
           else if code = Some ''57014'' then Timeout
           else if code = Some ''28000'' \<or> code = Some ''28P01'' then Auth_Failure
           else Internal (Database code con))
      | Other_Sqlx \<Rightarrow> Internal Other_Sqlx)"

text \<open>The errors an insert into the table can meet.\<close>

definition duplicate_id :: state_error where
  "duplicate_id = error_from_sqlx (Database (Some ''23505'') (Some ''commonfeed_statuses_pkey''))"

definition second_update :: state_error where
  "second_update = error_from_sqlx (Database (Some ''21000'') None)"

section \<open>The table\<close>

record cached_status =
  cs_id :: int
  cs_provider_domain :: string
  cs_remote_id :: int
  cs_post_url :: string
  cs_post_uri :: string
  cs_post_data :: json
  cs_cached_at :: instant
  cs_mastodon_local_id :: "int option"

type_synonym status_table = "cached_status list"

definition cs_key :: "cached_status \<Rightarrow> string \<times> int" where
  "cs_key r = (cs_provider_domain r, cs_remote_id r)"

definition is_stale :: "instant \<Rightarrow> int \<Rightarrow> cached_status \<Rightarrow> bool" where
  "is_stale now ttl r \<longleftrightarrow> now - cs_cached_at r > ttl"

record post_mapping =
  pm_provider_domain :: string
  pm_remote_id :: int
  pm_post_url :: string
  pm_post_uri :: string
  pm_post_data :: json

definition pm_key :: "post_mapping \<Rightarrow> string \<times> int" where
  "pm_key p = (pm_provider_domain p, pm_remote_id p)"

text \<open>One row of \<open>INSERT .. ON CONFLICT (provider_domain, remote_id) DO UPDATE .. RETURNING id\<close>.\<close>

definition upsert :: "instant \<Rightarrow> int \<Rightarrow> post_mapping \<Rightarrow> status_table \<Rightarrow> state_error + int \<times> status_table" where
  "upsert now new_id p tab =
     (case find (\<lambda>r. cs_key r = pm_key p) tab of
        Some r \<Rightarrow> Inr (cs_id r,
          map (\<lambda>r'. if cs_key r' = pm_key p then r'\<lparr>cs_post_data := pm_post_data p, cs_cached_at := now\<rparr> else r') tab)
      | None \<Rightarrow>
          if new_id \<in> cs_id ` set tab then Inl duplicate_id
          else Inr (new_id, tab @ [\<lparr>cs_id = new_id, cs_provider_domain = pm_provider_domain p,
             cs_remote_id = pm_remote_id p, cs_post_url = pm_post_url p, cs_post_uri = pm_post_uri p,
             cs_post_data = pm_post_data p, cs_cached_at = now, cs_mastodon_local_id = None\<rparr>]))"

definition map_post :: "instant \<Rightarrow> int \<Rightarrow> string \<Rightarrow> int \<Rightarrow> string \<Rightarrow> string \<Rightarrow> json \<Rightarrow> status_table
    \<Rightarrow> state_error + int \<times> status_table" where
  "map_post now new_id d remote_id url uri data tab =
     upsert now new_id \<lparr>pm_provider_domain = d, pm_remote_id = remote_id, pm_post_url = url,
       pm_post_uri = uri, pm_post_data = data\<rparr> tab"

text \<open>The rows of a batch in turn; \<open>gen\<close> lists the ids the database makes for them.\<close>

fun upsert_all :: "instant \<Rightarrow> int list \<Rightarrow> post_mapping list \<Rightarrow> status_table
    \<Rightarrow> state_error + ((string \<times> int) \<times> int) list \<times> status_table" where
  "upsert_all now gen [] tab = Inr ([], tab)"
| "upsert_all now [] (p # ps) tab = Inl duplicate_id"
| "upsert_all now (i # gen) (p # ps) tab =
     (case upsert now i p tab of
        Inl e \<Rightarrow> Inl e
      | Inr (j, tab1) \<Rightarrow>
          (case upsert_all now gen ps tab1 of
             Inl e \<Rightarrow> Inl e
           | Inr (rows, tab2) \<Rightarrow> Inr ((pm_key p, j) # rows, tab2)))"

definition map_posts :: "instant \<Rightarrow> int list \<Rightarrow> post_mapping list \<Rightarrow> status_table
    \<Rightarrow> state_error + (string \<times> int \<rightharpoonup> int) \<times> status_table" where
  "map_posts now gen posts tab =
     (if posts = [] then Inr (Map.empty, tab)
      else if \<not> distinct (map pm_key posts) then Inl second_update
      else case upsert_all now gen posts tab of
             Inl e \<Rightarrow> Inl e
           | Inr (rows, tab') \<Rightarrow> Inr (map_of rows, tab'))"

definition find_by_id :: "int \<Rightarrow> status_table \<Rightarrow> cached_status option" where
  "find_by_id i tab = find (\<lambda>r. cs_id r = i) tab"

definition update_cache :: "instant \<Rightarrow> int \<Rightarrow> json \<Rightarrow> status_table \<Rightarrow> status_table" where
  "update_cache now i data tab =
     map (\<lambda>r. if cs_id r = i then r\<lparr>cs_post_data := data, cs_cached_at := now\<rparr> else r) tab"

definition delete_status :: "int \<Rightarrow> status_table \<Rightarrow> status_table" where
  "delete_status i tab = filter (\<lambda>r. cs_id r \<noteq> i) tab"

text \<open>The result says whether a row was affected.\<close>

definition set_mastodon_local_id :: "int \<Rightarrow> int \<Rightarrow> status_table \<Rightarrow> bool \<times> status_table" where
  "set_mastodon_local_id i m tab =
     (list_ex (\<lambda>r. cs_id r = i \<and> cs_mastodon_local_id r = None) tab,
      map (\<lambda>r. if cs_id r = i \<and> cs_mastodon_local_id r = None then r\<lparr>cs_mastodon_local_id := Some m\<rparr> else r) tab)"

definition clear_mastodon_local_id :: "int \<Rightarrow> status_table \<Rightarrow> status_table" where
  "clear_mastodon_local_id i tab = map (\<lambda>r. if cs_id r = i then r\<lparr>cs_mastodon_local_id := None\<rparr> else r) tab"

definition find_mastodon_ids_by_provider :: "(string \<times> int) list \<Rightarrow> status_table \<Rightarrow> string \<times> int \<rightharpoonup> int" where
  "find_mastodon_ids_by_provider pairs tab =
     (if pairs = [] then Map.empty
      else map_of (List.map_filter
        (\<lambda>r. if cs_key r \<in> set pairs then map_option (Pair (cs_key r)) (cs_mastodon_local_id r) else None) tab))"

text \<open>\<open>MIN(id)\<close> over the rows of a Mastodon id.\<close>

definition reverse_map :: "int list \<Rightarrow> status_table \<Rightarrow> int \<rightharpoonup> int" where
  "reverse_map mids tab =
     (\<lambda>m. let ids = map cs_id (filter (\<lambda>r. cs_mastodon_local_id r = Some m) tab)
          in if m \<in> set mids \<and> ids \<noteq> [] then Some (Min (set ids)) else None)"

section \<open>The constraints of the table\<close>

definition table_ok :: "status_table \<Rightarrow> bool" where
  "table_ok tab \<longleftrightarrow> distinct (map cs_id tab) \<and> distinct (map cs_key tab)"

lemma table_ok_map:
  "(\<And>r. cs_id (f r) = cs_id r \<and> cs_key (f r) = cs_key r) \<Longrightarrow> table_ok (map f tab) = table_ok tab"
  by (simp add: table_ok_def comp_def)

lemma cs_key_update [simp]:
  "cs_key (r\<lparr>cs_post_data := x\<rparr>) = cs_key r" "cs_key (r\<lparr>cs_cached_at := t\<rparr>) = cs_key r"
  "cs_key (r\<lparr>cs_mastodon_local_id := m\<rparr>) = cs_key r"
  by (simp_all add: cs_key_def)

lemma table_ok_update_cache: "table_ok (update_cache now i data tab) = table_ok tab"
  unfolding update_cache_def by (rule table_ok_map) simp

lemma table_ok_set: "table_ok (snd (set_mastodon_local_id i m tab)) = table_ok tab"
  unfolding set_mastodon_local_id_def snd_conv by (rule table_ok_map) simp

lemma table_ok_clear: "table_ok (clear_mastodon_local_id i tab) = table_ok tab"
  unfolding clear_mastodon_local_id_def by (rule table_ok_map) simp

lemma table_ok_delete: "table_ok tab \<Longrightarrow> table_ok (delete_status i tab)"
  by (simp add: table_ok_def delete_status_def distinct_map_filter)

text \<open>The id of a key.\<close>

definition id_of :: "status_table \<Rightarrow> string \<times> int \<rightharpoonup> int" where
  "id_of tab k = map_option cs_id (find (\<lambda>r. cs_key r = k) tab)"

lemma find_map_keep:
  "(\<And>r. P (f r) = P r) \<Longrightarrow> find P (map f xs) = map_option f (find P xs)"
  by (induction xs) auto

lemma find_append: "find P (xs @ ys) = (case find P xs of None \<Rightarrow> find P ys | Some x \<Rightarrow> Some x)"
  by (induction xs) auto

lemma upsert_ok:
  assumes "upsert now i p tab = Inr (j, tab')" "table_ok tab"
  shows "table_ok tab' \<and> id_of tab' = (id_of tab)(pm_key p \<mapsto> j)
    \<and> (\<forall>k v. id_of tab k = Some v \<longrightarrow> id_of tab' k = Some v)
    \<and> (id_of tab (pm_key p) = None \<longrightarrow> j = i)"
proof (cases "find (\<lambda>r. cs_key r = pm_key p) tab")
  case None
  then have new: "pm_key p \<notin> cs_key ` set tab" by (auto simp: find_None_iff)
  define row where "row = \<lparr>cs_id = i, cs_provider_domain = pm_provider_domain p,
     cs_remote_id = pm_remote_id p, cs_post_url = pm_post_url p, cs_post_uri = pm_post_uri p,
     cs_post_data = pm_post_data p, cs_cached_at = now, cs_mastodon_local_id = None\<rparr>"
  have e: "i \<notin> cs_id ` set tab" "j = i" "tab' = tab @ [row]"
    using assms(1) None by (auto simp: upsert_def row_def split: if_splits)
  have row: "cs_key row = pm_key p" "cs_id row = i" by (simp_all add: row_def cs_key_def pm_key_def)
  have n: "id_of tab (pm_key p) = None" by (simp add: id_of_def None)
  have "id_of tab' = (id_of tab)(pm_key p \<mapsto> j)"
  proof
    fix k show "id_of tab' k = ((id_of tab)(pm_key p \<mapsto> j)) k"
      using None row by (cases "find (\<lambda>r. cs_key r = k) tab") (auto simp: id_of_def e find_append)
  qed
  moreover have "table_ok tab'" using assms(2) new e row by (auto simp: table_ok_def)
  ultimately show ?thesis using n e(2) by auto
next
  case (Some r)
  let ?f = "\<lambda>r'. if cs_key r' = pm_key p then r'\<lparr>cs_post_data := pm_post_data p, cs_cached_at := now\<rparr> else r'"
  have e: "j = cs_id r" "tab' = map ?f tab" using assms(1) Some by (auto simp: upsert_def)
  have "id_of tab' k = id_of tab k" for k
    unfolding id_of_def e by (subst find_map_keep) (auto simp: option.map_comp comp_def intro: option.map_cong)
  then have "id_of tab' = id_of tab" by blast
  moreover have "id_of tab (pm_key p) = Some j" by (simp add: id_of_def Some e)
  moreover have "table_ok tab'" unfolding e using assms(2) by (subst table_ok_map) auto
  ultimately show ?thesis by (auto simp: fun_upd_idem)
qed

lemma upsert_all_ok:
  assumes "upsert_all now gen ps tab = Inr (rows, tab')" "table_ok tab"
  shows "table_ok tab' \<and> map fst rows = map pm_key ps
    \<and> (\<forall>k v. id_of tab k = Some v \<longrightarrow> id_of tab' k = Some v)
    \<and> (\<forall>(k, v) \<in> set rows. id_of tab' k = Some v)"
  using assms
proof (induction now gen ps tab arbitrary: rows tab' rule: upsert_all.induct)
  case (3 now i gen p ps tab)
  obtain j tab1 where u: "upsert now i p tab = Inr (j, tab1)"
    using 3(2) by (auto split: sum.splits)
  obtain rows' where r: "upsert_all now gen ps tab1 = Inr (rows', tab')" "rows = (pm_key p, j) # rows'"
    using 3(2) u by (auto split: sum.splits)
  have ok: "table_ok tab1" "id_of tab1 = (id_of tab)(pm_key p \<mapsto> j)"
      "\<forall>k v. id_of tab k = Some v \<longrightarrow> id_of tab1 k = Some v"
    using upsert_ok [OF u 3(3)] by blast+
  have IH: "table_ok tab' \<and> map fst rows' = map pm_key ps
    \<and> (\<forall>k v. id_of tab1 k = Some v \<longrightarrow> id_of tab' k = Some v)
    \<and> (\<forall>(k, v) \<in> set rows'. id_of tab' k = Some v)"
    by (rule 3(1) [OF u refl r(1) ok(1)])
  have "id_of tab1 (pm_key p) = Some j" unfolding ok(2) by simp
  then have "id_of tab' (pm_key p) = Some j" using IH by blast
  then show ?case using ok(3) IH unfolding r(2) by auto
qed auto

section \<open>Finding rows again\<close>

lemma find_by_key:
  "table_ok tab \<Longrightarrow> r \<in> set tab \<Longrightarrow> find (\<lambda>r'. cs_key r' = cs_key r) tab = Some r"
  unfolding table_ok_def by (induction tab) (auto simp: image_iff)

lemma find_by_id_mem: "table_ok tab \<Longrightarrow> r \<in> set tab \<Longrightarrow> find_by_id (cs_id r) tab = Some r"
  unfolding table_ok_def find_by_id_def by (induction tab) (auto simp: image_iff)

lemma id_of_mem: "table_ok tab \<Longrightarrow> r \<in> set tab \<Longrightarrow> id_of tab (cs_key r) = Some (cs_id r)"
  by (simp add: id_of_def find_by_key)

lemma id_of_Some: "id_of tab k = Some i \<Longrightarrow> \<exists>r \<in> set tab. cs_key r = k \<and> cs_id r = i"
  by (auto simp: id_of_def find_Some_iff)

text \<open>Within the constraints, an id belongs to one key.\<close>

lemma id_of_inj:
  assumes "table_ok tab" "id_of tab k = Some i" "id_of tab k' = Some i" shows "k = k'"
proof -
  obtain r r' where "r \<in> set tab" "cs_key r = k" "cs_id r = i" "r' \<in> set tab" "cs_key r' = k'" "cs_id r' = i"
    using id_of_Some [OF assms(2)] id_of_Some [OF assms(3)] by blast
  with assms(1) show ?thesis by (auto simp: table_ok_def distinct_map dest: inj_onD)
qed

lemma map_filter_key:
  assumes "table_ok tab" "r \<in> set tab" "f r = Some v"
    "\<And>r' v'. f r' = Some v' \<Longrightarrow> fst v' = cs_key r'"
  shows "map_of (List.map_filter f tab) (cs_key r) = Some (snd v)"
  using assms
proof (induction tab)
  case (Cons x tab)
  have ok: "table_ok tab" using Cons.prems(1) by (simp add: table_ok_def)
  show ?case
  proof (cases "x = r")
    case True
    then show ?thesis using Cons.prems(3) Cons.prems(4) [of r v]
      by (cases v) (simp add: List.map_filter_simps)
  next
    case False
    then have r: "r \<in> set tab" using Cons.prems(2) by simp
    then have ne: "cs_key x \<noteq> cs_key r" using Cons.prems(1) by (auto simp: table_ok_def image_iff)
    have IH: "map_of (List.map_filter f tab) (cs_key r) = Some (snd v)"
      by (rule Cons.IH [OF ok r Cons.prems(3,4)])
    then show ?thesis
      using ne Cons.prems(4) [of x] by (auto simp: List.map_filter_simps split: option.splits)
  qed
qed simp

lemma provider_lookup:
  assumes "table_ok tab" "r \<in> set tab" "cs_key r \<in> set pairs" "cs_mastodon_local_id r = Some m"
  shows "find_mastodon_ids_by_provider pairs tab (cs_key r) = Some m"
proof -
  let ?f = "\<lambda>r. if cs_key r \<in> set pairs then map_option (Pair (cs_key r)) (cs_mastodon_local_id r) else None"
  have "map_of (List.map_filter ?f tab) (cs_key r) = Some (snd (cs_key r, m))"
    by (rule map_filter_key [OF assms(1,2)]) (use assms in \<open>auto split: if_splits\<close>)
  moreover have "pairs \<noteq> []" using assms(3) by auto
  ultimately show ?thesis by (simp add: find_mastodon_ids_by_provider_def)
qed

lemma provider_lookup_only:
  assumes "find_mastodon_ids_by_provider pairs tab k = Some m"
  shows "k \<in> set pairs \<and> (\<exists>r \<in> set tab. cs_key r = k \<and> cs_mastodon_local_id r = Some m)"
proof -
  have "(k, m) \<in> set (List.map_filter
      (\<lambda>r. if cs_key r \<in> set pairs then map_option (Pair (cs_key r)) (cs_mastodon_local_id r) else None) tab)"
    using assms by (auto simp: find_mastodon_ids_by_provider_def split: if_splits dest: map_of_SomeD)
  then show ?thesis by (induction tab) (auto simp: List.map_filter_simps split: option.splits if_splits)
qed

section \<open>Properties\<close>

text \<open>
  C26: Mapping a batch of posts to ids keeps the table's constraints; every post of the batch gets
  an id, one that the table has for it afterwards, two different posts never get the same one,
  and a post seen before keeps its id, as do all posts of the table.
\<close>

theorem map_posts_stable:
  assumes "table_ok tab" "map_posts now gen ps tab = Inr (ids, tab')"
  shows "table_ok tab' \<and> dom ids = pm_key ` set ps
    \<and> (\<forall>k i. ids k = Some i \<longrightarrow> id_of tab' k = Some i)
    \<and> (\<forall>k i. id_of tab k = Some i \<longrightarrow> id_of tab' k = Some i)
    \<and> (\<forall>k k' i. ids k = Some i \<and> ids k' = Some i \<longrightarrow> k = k')"
proof (cases "ps = []")
  case True
  then have "ids = Map.empty" "tab' = tab" using assms(2) by (auto simp: map_posts_def)
  then show ?thesis using assms(1) True by simp
next
  case False
  then obtain rows where r: "upsert_all now gen ps tab = Inr (rows, tab')" "ids = map_of rows"
    using assms(2) by (auto simp: map_posts_def split: if_splits sum.splits)
  have ok: "table_ok tab'" "map fst rows = map pm_key ps"
      "\<forall>k v. id_of tab k = Some v \<longrightarrow> id_of tab' k = Some v" "\<forall>(k, v) \<in> set rows. id_of tab' k = Some v"
    using upsert_all_ok [OF r(1) assms(1)] by blast+
  have d: "dom ids = pm_key ` set ps"
    unfolding r(2) dom_map_of_conv_image_fst using arg_cong [OF ok(2), of set] by simp
  have v: "\<forall>k i. ids k = Some i \<longrightarrow> id_of tab' k = Some i"
    unfolding r(2) using ok(4) by (fast dest: map_of_SomeD)
  then show ?thesis using d ok(1,3) id_of_inj [OF ok(1)] by blast
qed

definition a_mapping :: "int \<Rightarrow> post_mapping" where
  "a_mapping i = \<lparr>pm_provider_domain = ''p.test'', pm_remote_id = i, pm_post_url = ''u'', pm_post_uri = ''v'',
     pm_post_data = JNull\<rparr>"

theorem map_posts_stable_witness:
  "\<exists>ids tab' tab''. map_posts 0 [70, 71] [a_mapping 1, a_mapping 2] [] = Inr (ids, tab')
    \<and> ids (''p.test'', 1) = Some 70
    \<and> map_posts 9 [80] [a_mapping 1] tab' = Inr ([(''p.test'', 1) \<mapsto> 70], tab'')
    \<and> table_ok tab''"
proof -
  let ?t = "snd (projr (map_posts 0 [70, 71] [a_mapping 1, a_mapping 2] []))"
  let ?t2 = "snd (projr (map_posts 9 [80] [a_mapping 1] ?t))"
  let ?i = "fst (projr (map_posts 0 [70, 71] [a_mapping 1, a_mapping 2] []))"
  have a: "map_posts 0 [70, 71] [a_mapping 1, a_mapping 2] [] = Inr (?i, ?t)"
      "?i (''p.test'', 1) = Some 70"
      "map_posts 9 [80] [a_mapping 1] ?t = Inr ([(''p.test'', 1) \<mapsto> 70], ?t2)"
    by (simp_all add: map_posts_def upsert_def a_mapping_def pm_key_def cs_key_def)
  have "table_ok ?t" using map_posts_stable [OF _ a(1)] by (simp add: table_ok_def)
  then have "table_ok ?t2" using map_posts_stable [OF _ a(3)] by blast
  with a show ?thesis by blast
qed

text \<open>
  A batch that names one post twice fails as a whole: the upsert may not touch a row a second
  time, so not one post of the batch gets an id and the table does not change.
\<close>

theorem map_posts_rejects_duplicates:
  assumes "\<not> distinct (map pm_key ps)"
  shows "map_posts now gen ps tab = Inl (Internal (Database (Some ''21000'') None))"
proof -
  have "ps \<noteq> []" using assms by auto
  then show ?thesis using assms by (simp add: map_posts_def second_update_def error_from_sqlx_def Let_def)
qed

theorem map_posts_rejects_duplicates_witness:
  "map_posts 0 [70, 71] [a_mapping 1, a_mapping 1] [] = Inl (Internal (Database (Some ''21000'') None))"
  by (rule map_posts_rejects_duplicates) simp

text \<open>
  Linking a cached post to a Mastodon status happens once: the first call links it and says
  so, later ones change nothing and say so, until the link is cleared. While it is linked, the
  lookup by provider finds the Mastodon id and the lookup by Mastodon id finds an id of a cached
  post linked to it, the least one.
\<close>

theorem mastodon_link_once:
  assumes "table_ok tab" "r \<in> set tab" "cs_mastodon_local_id r = None"
    and "set_mastodon_local_id (cs_id r) m tab = (changed, tab')"
  shows "changed \<and> table_ok tab' \<and> set_mastodon_local_id (cs_id r) m' tab' = (False, tab')
    \<and> find_mastodon_ids_by_provider [cs_key r] tab' (cs_key r) = Some m
    \<and> (\<exists>i. reverse_map [m] tab' m = Some i \<and> i \<le> cs_id r
         \<and> (\<exists>r' \<in> set tab'. cs_id r' = i \<and> cs_mastodon_local_id r' = Some m))
    \<and> find_mastodon_ids_by_provider [cs_key r] (clear_mastodon_local_id (cs_id r) tab') (cs_key r) = None"
proof -
  let ?f = "\<lambda>x. if cs_id x = cs_id r \<and> cs_mastodon_local_id x = None then x\<lparr>cs_mastodon_local_id := Some m\<rparr> else x"
  let ?r = "r\<lparr>cs_mastodon_local_id := Some m\<rparr>"
  have e: "changed" "tab' = map ?f tab"
    using assms(2-4) by (auto simp: set_mastodon_local_id_def list_ex_iff)
  have one: "x = r" if "x \<in> set tab" "cs_id x = cs_id r" for x
    using assms(1,2) that by (auto simp: table_ok_def distinct_map dest: inj_onD)
  have ok': "table_ok tab'" using table_ok_set [of "cs_id r" m tab] assms(1,4) by simp
  have r': "?r \<in> set tab'" using assms(2,3) unfolding e by (auto intro!: image_eqI [of _ _ r])
  have none: "cs_mastodon_local_id x \<noteq> None" if "x \<in> set tab'" "cs_id x = cs_id r" for x
    using that one unfolding e by (auto split: if_splits)
  have again: "set_mastodon_local_id (cs_id r) m' tab' = (False, tab')"
    using none by (auto simp: set_mastodon_local_id_def list_ex_iff intro!: map_idI)
  have prov: "find_mastodon_ids_by_provider [cs_key r] tab' (cs_key r) = Some m"
    using provider_lookup [OF ok' r', of "[cs_key r]" m] by simp
  define ids where "ids = map cs_id (filter (\<lambda>r. cs_mastodon_local_id r = Some m) tab')"
  have mem: "cs_id r \<in> set ids" using r' by (auto simp: ids_def intro!: image_eqI [of _ _ ?r])
  have rev: "reverse_map [m] tab' m = Some (Min (set ids))" using mem unfolding reverse_map_def Let_def ids_def [symmetric] by auto
  have min: "Min (set ids) \<le> cs_id r" "Min (set ids) \<in> set ids" using mem by (auto intro: Min_in)
  have clr: "find_mastodon_ids_by_provider [cs_key r] (clear_mastodon_local_id (cs_id r) tab') (cs_key r) = None"
  proof (rule ccontr)
    assume "\<not> ?thesis"
    then obtain x v where x: "x \<in> set (clear_mastodon_local_id (cs_id r) tab')" "cs_key x = cs_key r"
        "cs_mastodon_local_id x = Some v"
      using provider_lookup_only by blast
    then obtain y where y: "y \<in> set tab'" "cs_id y \<noteq> cs_id r" "x = y"
      by (auto simp: clear_mastodon_local_id_def split: if_splits)
    have "inj_on cs_key (set tab')" using ok' by (simp add: table_ok_def distinct_map)
    then have "y = ?r" using y(1,3) r' x(2) by (intro inj_onD [of cs_key "set tab'"]) auto
    then show False using y(2) by simp
  qed
  show ?thesis using e(1) ok' again prov rev min clr by (auto simp: ids_def)
qed

definition a_row :: "int \<Rightarrow> cached_status" where
  "a_row i = \<lparr>cs_id = i, cs_provider_domain = ''p.test'', cs_remote_id = i, cs_post_url = ''u'',
     cs_post_uri = ''v'', cs_post_data = JNull, cs_cached_at = 0, cs_mastodon_local_id = None\<rparr>"

theorem mastodon_link_once_witness:
  "set_mastodon_local_id 7 6 (snd (set_mastodon_local_id 7 5 [a_row 7, a_row 8]))
    = (False, snd (set_mastodon_local_id 7 5 [a_row 7, a_row 8]))"
proof -
  have t: "table_ok [a_row 7, a_row 8]" "a_row 7 \<in> set [a_row 7, a_row 8]" "cs_mastodon_local_id (a_row 7) = None"
      "cs_id (a_row 7) = 7"
    by (simp_all add: table_ok_def a_row_def cs_key_def)
  show ?thesis
    using mastodon_link_once [OF t(1-3), of 5 _ _ 6] t(4) by (metis prod.collapse)
qed

end
