(* ===== verification/Status_Detail.thy ===== *)
theory Status_Detail
  imports Entities Mastodon_Db Paperclip Status_Map "HOL-Library.List_Lexorder" "HOL-Library.Char_ord"
begin

text \<open>
  The statuses of the instance's own database, \<open>crates/state/src/statuses/detail\<close>: \<open>sql.rs\<close> and the
  queries of \<open>fetch.rs\<close> over the tables of \<open>Mastodon_Db\<close>, and \<open>row.rs\<close>, which builds the API
  entities from the rows. Every query runs on the tables as they are when it runs and can fail, so
  a connection maps the round and the query to an error or to tables. A row that does not decode
  (NULL for a required text, an unknown media or card type) fails its query. Formatting local text
  can panic; then the request does.
\<close>

section \<open>Outcomes\<close>

datatype 'a run = Done 'a | Failed state_error | Panicked

fun bind_run :: "'a run \<Rightarrow> ('a \<Rightarrow> 'b run) \<Rightarrow> 'b run" where
  "bind_run (Done x) f = f x"
| "bind_run (Failed e) f = Failed e"
| "bind_run Panicked f = Panicked"

lemma bind_run_Done: "bind_run r f = Done y \<longleftrightarrow> (\<exists>x. r = Done x \<and> f x = Done y)"
  by (cases r) auto

text \<open>The regex engine's captures (group 1 of every match), \<open>char::is_alphanumeric\<close> at the start of
  a text, and \<open>chrono\<close>'s formatting of a date, beside the HTML cleaner.\<close>

record detail_env =
  de_html :: html_env
  de_captures :: "string \<Rightarrow> string \<Rightarrow> string list"
  de_alnum :: "string \<Rightarrow> bool"
  de_date :: "instant \<Rightarrow> string"

section \<open>Rows\<close>

record base_row =
  br_id :: int
  br_account_id :: int
  br_uri :: "string option"
  br_url :: "string option"
  br_text :: string
  br_spoiler_text :: string
  br_sensitive :: bool
  br_language :: "string option"
  br_in_reply_to_id :: "int option"
  br_in_reply_to_account_id :: "int option"
  br_created_at :: instant
  br_edited_at :: "instant option"
  br_username :: string
  br_domain :: "string option"
  br_display_name :: string
  br_note :: string
  br_account_url :: "string option"
  br_account_uri :: string
  br_avatar_file_name :: "string option"
  br_avatar_remote_url :: "string option"
  br_header_file_name :: "string option"
  br_header_remote_url :: string
  br_account_created_at :: instant
  br_discoverable :: "bool option"
  br_indexable :: bool
  br_locked :: bool
  br_actor_type :: "string option"
  br_fields :: "db_field list option"
  br_avatar_version :: "int option"
  br_header_version :: "int option"
  br_statuses_count :: int
  br_following_count :: int
  br_followers_count :: int
  br_last_status_at :: "instant option"

record stats_row =
  sw_replies :: int
  sw_reblogs :: int
  sw_favourites :: int
  sw_quotes :: int

definition stats_default :: stats_row where
  "stats_default = \<lparr>sw_replies = 0, sw_reblogs = 0, sw_favourites = 0, sw_quotes = 0\<rparr>"

datatype media_kind = MK_Image | MK_Gifv | MK_Video | MK_Unknown | MK_Audio

fun media_kind_str :: "media_kind \<Rightarrow> string" where
  "media_kind_str MK_Image = ''image''"
| "media_kind_str MK_Gifv = ''gifv''"
| "media_kind_str MK_Video = ''video''"
| "media_kind_str MK_Audio = ''audio''"
| "media_kind_str MK_Unknown = ''unknown''"

definition media_kind_of :: "int \<Rightarrow> media_kind option" where
  "media_kind_of i = map_of [(0, MK_Image), (1, MK_Gifv), (2, MK_Video), (3, MK_Unknown), (4, MK_Audio)] i"

record media_row =
  mr_id :: int
  mr_status_id :: int
  mr_media_type :: media_kind
  mr_description :: "string option"
  mr_remote_url :: string
  mr_blurhash :: "string option"
  mr_file_file_name :: "string option"
  mr_file_meta :: "json option"
  mr_thumbnail_file_name :: "string option"
  mr_version :: "int option"

datatype card_kind = CK_Link | CK_Photo | CK_Video | CK_Rich

fun card_kind_str :: "card_kind \<Rightarrow> string" where
  "card_kind_str CK_Link = ''link''"
| "card_kind_str CK_Photo = ''photo''"
| "card_kind_str CK_Video = ''video''"
| "card_kind_str CK_Rich = ''rich''"

definition card_kind_of :: "int \<Rightarrow> card_kind option" where
  "card_kind_of i = map_of [(0, CK_Link), (1, CK_Photo), (2, CK_Video), (3, CK_Rich)] i"

record card_row =
  cr_status_id :: int
  cr_kind :: card_kind
  cr_card :: db_card

record mention_row =
  mw_status_id :: int
  mw_account_id :: int
  mw_username :: string
  mw_domain :: "string option"
  mw_url :: "string option"

record viewer_state =
  vs_favourited :: "int set"
  vs_bookmarked :: "int set"
  vs_reblogged :: "int set"

definition viewer_default :: viewer_state where
  "viewer_default = \<lparr>vs_favourited = {}, vs_bookmarked = {}, vs_reblogged = {}\<rparr>"

record enrichment =
  ei_stats :: "int \<rightharpoonup> stats_row"
  ei_media :: "int \<rightharpoonup> media_row list"
  ei_tags :: "int \<rightharpoonup> string list"
  ei_cards :: "int \<rightharpoonup> card_row"
  ei_mentions :: "int \<rightharpoonup> mention_row list"
  ei_emojis :: "string \<rightharpoonup> db_emoji"
  ei_viewer :: viewer_state

section \<open>Queries\<close>

text \<open>\<open>array_position\<close>, with NULLs and values that are not there last.\<close>

definition array_position :: "int list \<Rightarrow> int \<Rightarrow> nat" where
  "array_position ids i = length (takeWhile (\<lambda>x. x \<noteq> i) ids)"

definition base_visible :: "db_status \<Rightarrow> db_account \<Rightarrow> bool" where
  "base_visible s a \<longleftrightarrow> ds_deleted_at s = None \<and> da_suspended_at a = None \<and> da_silenced_at a = None
     \<and> (ds_visibility s = 0 \<or> ds_visibility s = 1) \<and> ds_reblog_of_id s = None"

definition base_join :: "mastodon_db \<Rightarrow> int list \<Rightarrow> ((db_status \<times> db_account) \<times> db_account_stats option) list" where
  "base_join db ids =
     sort_key (\<lambda>x. array_position ids (ds_id (fst (fst x))))
       (left_join (\<lambda>(s, a) k. dk_account_id k = da_id a)
         [(s, a). s \<leftarrow> db_statuses db, a \<leftarrow> db_accounts db, da_id a = ds_account_id s,
            ds_id s \<in> set ids, base_visible s a]
         (db_account_stats db))"

definition count_or_zero :: "(db_account_stats \<Rightarrow> int) \<Rightarrow> db_account_stats option \<Rightarrow> int" where
  "count_or_zero f k = (case k of Some x \<Rightarrow> f x | None \<Rightarrow> 0)"

fun decode_base :: "(db_status \<times> db_account) \<times> db_account_stats option \<Rightarrow> base_row option" where
  "decode_base ((s, a), k) =
     (case (ds_spoiler_text s, da_display_name a, da_header_remote_url a) of
        (Some spoiler, Some display, Some header) \<Rightarrow> Some
          \<lparr>br_id = ds_id s, br_account_id = ds_account_id s, br_uri = Some (ds_uri s), br_url = ds_url s,
           br_text = ds_text s, br_spoiler_text = spoiler, br_sensitive = ds_sensitive s,
           br_language = ds_language s, br_in_reply_to_id = ds_in_reply_to_id s,
           br_in_reply_to_account_id = ds_in_reply_to_account_id s, br_created_at = ds_created_at s,
           br_edited_at = ds_edited_at s, br_username = da_username a, br_domain = da_domain a,
           br_display_name = display, br_note = da_note a, br_account_url = da_url a,
           br_account_uri = da_uri a, br_avatar_file_name = da_avatar_file_name a,
           br_avatar_remote_url = da_avatar_remote_url a, br_header_file_name = da_header_file_name a,
           br_header_remote_url = header, br_account_created_at = da_created_at a,
           br_discoverable = da_discoverable a, br_indexable = da_indexable a, br_locked = da_locked a,
           br_actor_type = da_actor_type a, br_fields = da_fields a,
           br_avatar_version = da_avatar_version a, br_header_version = da_header_version a,
           br_statuses_count = count_or_zero dk_statuses k, br_following_count = count_or_zero dk_following k,
           br_followers_count = count_or_zero dk_followers k,
           br_last_status_at = Option.bind k dk_last_status_at\<rparr>
      | _ \<Rightarrow> None)"

definition base_query :: "mastodon_db \<Rightarrow> int list \<Rightarrow> base_row list option" where
  "base_query db ids = those (map decode_base (base_join db ids))"

definition decode_media :: "db_media \<Rightarrow> int \<Rightarrow> media_row option" where
  "decode_media m sid =
     map_option (\<lambda>k. \<lparr>mr_id = dx_id m, mr_status_id = sid, mr_media_type = k,
         mr_description = dx_description m, mr_remote_url = dx_remote_url m, mr_blurhash = dx_blurhash m,
         mr_file_file_name = dx_file_file_name m, mr_file_meta = dx_file_meta m,
         mr_thumbnail_file_name = dx_thumbnail_file_name m, mr_version = dx_version m\<rparr>)
       (media_kind_of (dx_type m))"

definition media_query :: "mastodon_db \<Rightarrow> int list \<Rightarrow> media_row list option" where
  "media_query db ids =
     those (map (\<lambda>(m, s). decode_media m (ds_id s))
       (sort_key (\<lambda>(m, s). ds_id s)
         (sort_key (\<lambda>(m, s). array_position (unwrap_or (ds_media_order s) []) (dx_id m))
           (sort_key (\<lambda>(m, s). dx_id m)
             [(m, s). m \<leftarrow> db_media db, s \<leftarrow> db_statuses db, dx_status_id m = Some (ds_id s), ds_id s \<in> set ids]))))"

definition card_query :: "mastodon_db \<Rightarrow> int list \<Rightarrow> card_row list option" where
  "card_query db ids =
     those (map (\<lambda>(sid, c). map_option (\<lambda>k. \<lparr>cr_status_id = sid, cr_kind = k, cr_card = c\<rparr>) (card_kind_of (dc_type c)))
       (retain_first fst {}
         (sort_key fst (sort_key (\<lambda>(sid, c). dc_id c)
           [(sid, c). (cid, sid) \<leftarrow> db_cards_statuses db, c \<leftarrow> db_cards db, dc_id c = cid, sid \<in> set ids]))))"

definition stats_query :: "mastodon_db \<Rightarrow> int list \<Rightarrow> (int \<times> stats_row) list" where
  "stats_query db ids =
     [(dt_status_id t, \<lparr>sw_replies = dt_replies t, sw_reblogs = dt_reblogs t, sw_favourites = dt_favourites t,
         sw_quotes = dt_quotes t\<rparr>). t \<leftarrow> db_stats db, dt_status_id t \<in> set ids]"

text \<open>\<open>ORDER BY t.name\<close> depends on the collation of the database, here that of lists of characters'
  codes.\<close>

definition tags_query :: "mastodon_db \<Rightarrow> int list \<Rightarrow> (int \<times> string) list" where
  "tags_query db ids =
     sort_key fst (sort_key (\<lambda>(i, n). map of_char n :: nat list)
       [(sid, n). (sid, tid) \<leftarrow> db_statuses_tags db, (i, n) \<leftarrow> db_tags db, i = tid, sid \<in> set ids])"

definition mentions_query :: "mastodon_db \<Rightarrow> int list \<Rightarrow> mention_row list" where
  "mentions_query db ids =
     map (\<lambda>(m, a). \<lparr>mw_status_id = dn_status_id m, mw_account_id = da_id a, mw_username = da_username a,
                     mw_domain = da_domain a, mw_url = da_url a\<rparr>)
       (sort_key (\<lambda>(m, a). dn_status_id m) (sort_key (\<lambda>(m, a). dn_id m)
         [(m, a). m \<leftarrow> db_mentions db, a \<leftarrow> db_accounts db, da_id a = dn_account_id m, dn_status_id m \<in> set ids]))"

definition favourites_query :: "mastodon_db \<Rightarrow> int \<Rightarrow> int list \<Rightarrow> int list" where
  "favourites_query db viewer ids =
     [dm_status_id f. f \<leftarrow> db_favourites db, dm_account_id f = viewer, dm_status_id f \<in> set ids]"

definition bookmarks_query :: "mastodon_db \<Rightarrow> int \<Rightarrow> int list \<Rightarrow> int list" where
  "bookmarks_query db viewer ids =
     [dm_status_id b. b \<leftarrow> db_bookmarks db, dm_account_id b = viewer, dm_status_id b \<in> set ids]"

definition reblogs_query :: "mastodon_db \<Rightarrow> int \<Rightarrow> int list \<Rightarrow> int list" where
  "reblogs_query db viewer ids =
     List.map_filter (\<lambda>s. if ds_account_id s = viewer \<and> ds_deleted_at s = None
                          then option_filter (\<lambda>i. i \<in> set ids) (ds_reblog_of_id s) else None) (db_statuses db)"

definition emojis_query :: "mastodon_db \<Rightarrow> string set \<Rightarrow> db_emoji list" where
  "emojis_query db codes =
     sort_key (\<lambda>e. if dj_domain e = None then 0 else (1 :: nat))
       (sort_key (\<lambda>e. map of_char (dj_shortcode e) :: nat list)
         (filter (\<lambda>e. \<not> dj_disabled e \<and> dj_shortcode e \<in> codes) (db_emojis db)))"

definition quotes_query :: "mastodon_db \<Rightarrow> int list \<Rightarrow> (int \<times> int) list" where
  "quotes_query db ids =
     [(dq_status_id q, the (dq_quoted_status_id q)). q \<leftarrow> db_quotes db, dq_status_id q \<in> set ids, dq_state q = 1,
        dq_quoted_status_id q \<noteq> None]"

section \<open>Entities from rows\<close>

definition non_empty :: "string \<Rightarrow> string option" where
  "non_empty s = (if s = [] then None else Some s)"

definition shortcode_pattern :: string where
  "shortcode_pattern = '':([a-zA-Z0-9_]{2,}):''"

definition row_acct :: "string \<Rightarrow> string option \<Rightarrow> string" where
  "row_acct username domain = (case domain of Some d \<Rightarrow> username @ ''@'' @ d | None \<Rightarrow> username)"

text \<open>\<open>u64::try_from(n).unwrap_or(0)\<close> is the truncation \<^const>\<open>nat\<close>, which is 0 below 0; \<open>u32::try_from\<close>.\<close>

definition u32_of :: "int \<Rightarrow> nat option" where
  "u32_of n = (if n < 2 ^ 32 then Some (nat n) else None)"

fun as_u64 :: "json \<Rightarrow> int option" where
  "as_u64 (JInt n) = (if 0 \<le> n \<and> n < 2 ^ 64 then Some n else None)"
| "as_u64 _ = None"

definition file_meta_dimensions :: "json option \<Rightarrow> nat option \<times> nat option" where
  "file_meta_dimensions m =
     (case m of
        None \<Rightarrow> (None, None)
      | Some j \<Rightarrow>
          let original = json_get j ''original'';
              dim = (\<lambda>k. Option.bind (Option.bind (Option.bind original (\<lambda>v. json_get v k)) as_u64) u32_of)
          in (dim ''width'', dim ''height''))"

text \<open>The shortcodes of a text that name an emoji with an image, each once over all texts.\<close>

definition emoji_entity_of :: "media_config \<Rightarrow> db_emoji \<Rightarrow> emoji_entity option" where
  "emoji_entity_of mcfg e =
     (let cached = (dj_domain e \<noteq> None \<and> unwrap_or (dj_version e) 0 \<ge> 1) in
      map_option (\<lambda>url. \<lparr>ee_shortcode = dj_shortcode e, ee_url = url, ee_static_url = url, ee_visible_in_picker = True\<rparr>)
        (custom_emoji_url mcfg (dj_id e) (dj_image_file_name e) (dj_image_remote_url e) cached))"

fun emojis_loop :: "(string \<rightharpoonup> db_emoji) \<Rightarrow> media_config \<Rightarrow> string set \<Rightarrow> string list \<Rightarrow> emoji_entity list" where
  "emojis_loop emojis mcfg used [] = []"
| "emojis_loop emojis mcfg used (c # cs) =
     (if c \<in> used then emojis_loop emojis mcfg used cs
      else case Option.bind (emojis c) (emoji_entity_of mcfg) of
          None \<Rightarrow> emojis_loop emojis mcfg used cs
        | Some e \<Rightarrow> e # emojis_loop emojis mcfg (insert c used) cs)"

definition build_emojis :: "detail_env \<Rightarrow> string list \<Rightarrow> (string \<rightharpoonup> db_emoji) \<Rightarrow> media_config \<Rightarrow> emoji_entity list" where
  "build_emojis env texts emojis mcfg =
     emojis_loop emojis mcfg {} (concat (map (de_captures env shortcode_pattern) texts))"

definition scan_shortcodes :: "detail_env \<Rightarrow> base_row list \<Rightarrow> string set" where
  "scan_shortcodes env base =
     (\<Union>row \<in> set base. \<Union>txt \<in> {br_text row, br_spoiler_text row, br_display_name row, br_note row}.
        set (de_captures env shortcode_pattern txt))"

definition row_account :: "detail_env \<Rightarrow> base_row \<Rightarrow> string \<Rightarrow> media_config \<Rightarrow> (string \<rightharpoonup> db_emoji) \<Rightarrow> account_entity" where
  "row_account env row instance_domain mcfg emojis =
     (let is_remote = br_domain row \<noteq> None;
          avatar_cached = (is_remote \<and> unwrap_or (br_avatar_version row) 0 \<ge> 1);
          header_cached = (is_remote \<and> unwrap_or (br_header_version row) 0 \<ge> 1);
          acct = row_acct (br_username row) (br_domain row);
          url = unwrap_or (option_filter (\<lambda>s. s \<noteq> []) (br_account_url row))
                  (''https://'' @ instance_domain @ ''/@'' @ acct);
          uri = (if br_account_uri row = [] then ''https://'' @ instance_domain @ ''/users/'' @ br_username row
                 else br_account_uri row);
          avatar = avatar_url mcfg (br_account_id row) (br_avatar_file_name row) (br_avatar_remote_url row) avatar_cached;
          header = header_url mcfg (br_account_id row) (br_header_file_name row)
                     (non_empty (br_header_remote_url row)) header_cached
      in \<lparr>ac_id = show_int (br_account_id row), ac_username = br_username row, ac_acct = acct, ac_url = url,
          ac_uri = uri, ac_display_name = sanitize_text (de_html env) (br_display_name row),
          ac_note = sanitize_html (de_html env) (br_note row), ac_avatar = avatar, ac_avatar_static = avatar,
          ac_header = header, ac_header_static = header, ac_locked = br_locked row,
          ac_bot = (br_actor_type row \<in> {Some ''Service'', Some ''Application''}),
          ac_group = (br_actor_type row = Some ''Group''), ac_discoverable = br_discoverable row,
          ac_indexable = br_indexable row, ac_statuses_count = nat (br_statuses_count row),
          ac_followers_count = nat (br_followers_count row), ac_following_count = nat (br_following_count row),
          ac_created_at = br_account_created_at row,
          ac_fields = map (\<lambda>f. \<lparr>fd_name = sanitize_text (de_html env) (fr_name f),
              fd_value = sanitize_html (de_html env) (fr_value f), fd_verified_at = fr_verified_at f\<rparr>)
            (unwrap_or (br_fields row) []),
          ac_emojis = build_emojis env [br_display_name row, br_note row] emojis mcfg,
          ac_last_status_at = map_option (de_date env) (br_last_status_at row)\<rparr>)"

definition row_media_attachment :: "detail_env \<Rightarrow> media_row \<Rightarrow> media_config \<Rightarrow> media_attachment" where
  "row_media_attachment env row mcfg =
     (let cached = (mr_remote_url row \<noteq> [] \<and> unwrap_or (mr_version row) 0 \<ge> 1);
          url = media_attachment_url mcfg (mr_id row) (mr_file_file_name row) (non_empty (mr_remote_url row)) cached;
          preview = media_thumbnail_url mcfg (mr_id row) (mr_thumbnail_file_name row) cached;
          (w, h) = file_meta_dimensions (mr_file_meta row)
      in \<lparr>ma_id = show_int (mr_id row), ma_media_type = media_kind_str (mr_media_type row), ma_url = url,
          ma_preview_url = (if preview = None then url else preview),
          ma_remote_url = non_empty (mr_remote_url row), ma_meta = original_meta w h,
          ma_description = map_option (sanitize_text (de_html env)) (mr_description row),
          ma_blurhash = mr_blurhash row\<rparr>)"

definition row_card :: "detail_env \<Rightarrow> card_row \<Rightarrow> media_config \<Rightarrow> card_entity" where
  "row_card env row mcfg =
     (let c = cr_card row;
          cached = (unwrap_or (dc_version c) 0 \<ge> 1);
          txt = sanitize_text (de_html env)
      in \<lparr>cd_url = dc_url c, cd_title = txt (dc_title c), cd_description = txt (dc_description c),
          cd_card_type = card_kind_str (cr_kind row),
          cd_authors = (if dc_author_name c = [] then []
                        else [\<lparr>ca_name = dc_author_name c, ca_url = dc_author_url c\<rparr>]),
          cd_author_name = txt (dc_author_name c), cd_author_url = dc_author_url c,
          cd_provider_name = txt (dc_provider_name c), cd_provider_url = dc_provider_url c,
          cd_html = sanitize_html (de_html env) (dc_html c), cd_width = dc_width c, cd_height = dc_height c,
          cd_image = preview_card_image_url mcfg (dc_id c) (dc_image_file_name c) cached,
          cd_image_description = txt (dc_image_description c), cd_embed_url = non_empty (dc_embed_url c),
          cd_blurhash = dc_blurhash c, cd_history = []\<rparr>)"

definition row_mention :: "mention_row \<Rightarrow> string \<Rightarrow> mention" where
  "row_mention row instance_domain =
     (let acct = row_acct (mw_username row) (mw_domain row) in
      \<lparr>mn_id = show_int (mw_account_id row), mn_username = mw_username row,
       mn_url = unwrap_or (option_filter (\<lambda>s. s \<noteq> []) (mw_url row)) (''https://'' @ instance_domain @ ''/@'' @ acct),
       mn_acct = acct\<rparr>)"

definition row_tag :: "string \<Rightarrow> string \<Rightarrow> entity_tag" where
  "row_tag instance_domain name =
     \<lparr>et_name = name, et_url = ''https://'' @ instance_domain @ ''/tags/'' @ name, et_history = []\<rparr>"

text \<open>\<open>None\<close> when formatting the text panics.\<close>

definition build_status :: "detail_env \<Rightarrow> string \<Rightarrow> media_config \<Rightarrow> enrichment \<Rightarrow> base_row \<Rightarrow> status option" where
  "build_status env instance_domain mcfg en row =
     (let i = br_id row;
          stat = unwrap_or (ei_stats en i) stats_default;
          tags = map (row_tag instance_domain) (unwrap_or (ei_tags en i) []);
          mentions = map (\<lambda>m. row_mention m instance_domain) (unwrap_or (ei_mentions en i) []);
          fallback_url = ''https://'' @ instance_domain @ ''/@'' @ br_username row @ ''/'' @ show_int i;
          url = unwrap_or (option_filter (\<lambda>s. s \<noteq> []) (br_url row)) fallback_url;
          uri = unwrap_or (option_filter (\<lambda>s. s \<noteq> []) (br_uri row)) url;
          content = (if br_domain row = None
                     then format_local (de_html env) (de_alnum env) (br_text row) mentions tags instance_domain
                     else Some (format_remote (de_html env) (br_text row)))
      in map_option (\<lambda>html. Status
           \<lparr>st_id = show_int i, st_uri = uri, st_url = Some url, st_created_at = br_created_at row,
            st_edited_at = br_edited_at row, st_content = html, st_text = Some (br_text row),
            st_visibility = ''public'', st_language = br_language row, st_sensitive = br_sensitive row,
            st_spoiler_text = sanitize_text (de_html env) (br_spoiler_text row),
            st_in_reply_to_id = map_option show_int (br_in_reply_to_id row),
            st_in_reply_to_account_id = map_option show_int (br_in_reply_to_account_id row),
            st_account = row_account env row instance_domain mcfg (ei_emojis en),
            st_media_attachments = map (\<lambda>m. row_media_attachment env m mcfg) (unwrap_or (ei_media en i) []),
            st_mentions = mentions, st_tags = tags,
            st_emojis = build_emojis env [br_text row, br_spoiler_text row] (ei_emojis en) mcfg,
            st_reblogs_count = nat (sw_reblogs stat), st_favourites_count = nat (sw_favourites stat),
            st_replies_count = nat (sw_replies stat), st_quotes_count = nat (sw_quotes stat),
            st_favourited = (i \<in> vs_favourited (ei_viewer en)), st_reblogged = (i \<in> vs_reblogged (ei_viewer en)),
            st_muted = False, st_bookmarked = (i \<in> vs_bookmarked (ei_viewer en)), st_pinned = False,
            st_quote_approval = quote_approval_public,
            st_card = map_option (\<lambda>c. row_card env c mcfg) (ei_cards en i)\<rparr> None None) content)"

section \<open>Fetching\<close>

text \<open>The queries of one round; \<open>fetch_by_ids\<close> makes two, the second for the quoted statuses.\<close>

datatype stmt = Q_Base | Q_Stats | Q_Media | Q_Tags | Q_Cards | Q_Mentions | Q_Favourited | Q_Bookmarked
  | Q_Reblogged | Q_Emojis | Q_Quotes

type_synonym conn = "nat \<Rightarrow> stmt \<Rightarrow> sqlx_error + mastodon_db"

definition query :: "conn \<Rightarrow> nat \<Rightarrow> stmt \<Rightarrow> (mastodon_db \<Rightarrow> 'r) \<Rightarrow> 'r run" where
  "query c n q f = (case c n q of Inl e \<Rightarrow> Failed (error_from_sqlx e) | Inr db \<Rightarrow> Done (f db))"

definition query_rows :: "conn \<Rightarrow> nat \<Rightarrow> stmt \<Rightarrow> (mastodon_db \<Rightarrow> 'r option) \<Rightarrow> 'r run" where
  "query_rows c n q f =
     bind_run (query c n q f) (\<lambda>r. case r of None \<Rightarrow> Failed (error_from_sqlx Other_Sqlx) | Some x \<Rightarrow> Done x)"

definition fetch_stats :: "conn \<Rightarrow> nat \<Rightarrow> int list \<Rightarrow> (int \<rightharpoonup> stats_row) run" where
  "fetch_stats c n ids = query c n Q_Stats (\<lambda>db. hashmap_of (stats_query db ids))"

definition fetch_media :: "conn \<Rightarrow> nat \<Rightarrow> int list \<Rightarrow> (int \<rightharpoonup> media_row list) run" where
  "fetch_media c n ids =
     bind_run (query_rows c n Q_Media (\<lambda>db. media_query db ids)) (\<lambda>rows. Done (group_rows mr_status_id rows))"

definition fetch_tags :: "conn \<Rightarrow> nat \<Rightarrow> int list \<Rightarrow> (int \<rightharpoonup> string list) run" where
  "fetch_tags c n ids =
     query c n Q_Tags (\<lambda>db. map_option (map snd) \<circ> group_rows fst (tags_query db ids))"

definition fetch_cards :: "conn \<Rightarrow> nat \<Rightarrow> int list \<Rightarrow> (int \<rightharpoonup> card_row) run" where
  "fetch_cards c n ids =
     bind_run (query_rows c n Q_Cards (\<lambda>db. card_query db ids))
       (\<lambda>rows. Done (hashmap_of (map (\<lambda>r. (cr_status_id r, r)) rows)))"

definition fetch_mentions :: "conn \<Rightarrow> nat \<Rightarrow> int list \<Rightarrow> (int \<rightharpoonup> mention_row list) run" where
  "fetch_mentions c n ids = query c n Q_Mentions (\<lambda>db. group_rows mw_status_id (mentions_query db ids))"

definition fetch_viewer_state :: "conn \<Rightarrow> nat \<Rightarrow> int option \<Rightarrow> int list \<Rightarrow> viewer_state run" where
  "fetch_viewer_state c n viewer ids =
     (case viewer of
        None \<Rightarrow> Done viewer_default
      | Some v \<Rightarrow>
          if ids = [] then Done viewer_default
          else bind_run (query c n Q_Favourited (\<lambda>db. set (favourites_query db v ids))) (\<lambda>fav.
               bind_run (query c n Q_Bookmarked (\<lambda>db. set (bookmarks_query db v ids))) (\<lambda>book.
               bind_run (query c n Q_Reblogged (\<lambda>db. set (reblogs_query db v ids))) (\<lambda>reb.
               Done \<lparr>vs_favourited = fav, vs_bookmarked = book, vs_reblogged = reb\<rparr>))))"

text \<open>\<open>entry(shortcode).or_insert(row)\<close>: the first row of a shortcode stays.\<close>

definition fetch_emojis :: "conn \<Rightarrow> nat \<Rightarrow> string set \<Rightarrow> (string \<rightharpoonup> db_emoji) run" where
  "fetch_emojis c n codes =
     query c n Q_Emojis (\<lambda>db. map_of (map (\<lambda>e. (dj_shortcode e, e)) (emojis_query db codes)))"

fun build_all :: "(base_row \<Rightarrow> status option) \<Rightarrow> base_row list \<Rightarrow> status list run" where
  "build_all f [] = Done []"
| "build_all f (r # rs) =
     (case f r of None \<Rightarrow> Panicked | Some s \<Rightarrow> bind_run (build_all f rs) (\<lambda>ss. Done (s # ss)))"

definition fetch_enriched :: "detail_env \<Rightarrow> conn \<Rightarrow> nat \<Rightarrow> string \<Rightarrow> media_config \<Rightarrow> int list \<Rightarrow> int option
    \<Rightarrow> status list run" where
  "fetch_enriched env c n instance_domain mcfg ids viewer =
     (if ids = [] then Done []
      else bind_run (query_rows c n Q_Base (\<lambda>db. base_query db ids)) (\<lambda>base.
        if base = [] then Done []
        else let resolved = map br_id base in
          bind_run (fetch_stats c n resolved) (\<lambda>stats.
          bind_run (fetch_media c n resolved) (\<lambda>media_map.
          bind_run (fetch_tags c n resolved) (\<lambda>tags.
          bind_run (fetch_cards c n resolved) (\<lambda>cards.
          bind_run (fetch_mentions c n resolved) (\<lambda>mentions.
          bind_run (fetch_viewer_state c n viewer resolved) (\<lambda>vstate.
          bind_run (if scan_shortcodes env base = {} then Done Map.empty
                    else fetch_emojis c n (scan_shortcodes env base)) (\<lambda>emojis.
          build_all (build_status env instance_domain mcfg
              \<lparr>ei_stats = stats, ei_media = media_map, ei_tags = tags, ei_cards = cards, ei_mentions = mentions,
               ei_emojis = emojis, ei_viewer = vstate\<rparr>) base)))))))))"

definition status_key :: "status \<Rightarrow> int option" where
  "status_key s = parse_i64 (st_id (status_of s))"

text \<open>\<open>filter_map(|s| s.id.parse().ok().map(|id| (id, s))).collect()\<close>\<close>

definition by_id :: "status list \<Rightarrow> int \<rightharpoonup> status" where
  "by_id ss = hashmap_of (List.map_filter (\<lambda>s. map_option (\<lambda>i. (i, s)) (status_key s)) ss)"

definition attach_quote :: "(int \<rightharpoonup> int) \<Rightarrow> (int \<rightharpoonup> status) \<Rightarrow> status \<Rightarrow> status" where
  "attach_quote targets parents s =
     (case Option.bind (Option.bind (status_key s) targets) parents of
        None \<Rightarrow> s | Some p \<Rightarrow> set_quote (Quote ''accepted'' p) s)"

definition fetch_quote_targets :: "conn \<Rightarrow> int list \<Rightarrow> (int \<times> int) list run" where
  "fetch_quote_targets c ids = query c 0 Q_Quotes (\<lambda>db. quotes_query db ids)"

text \<open>The map's values are visited in the order of the last row of each key.\<close>

definition fetch_by_ids :: "detail_env \<Rightarrow> conn \<Rightarrow> string \<Rightarrow> media_config \<Rightarrow> int list \<Rightarrow> int option \<Rightarrow> status list run" where
  "fetch_by_ids env c instance_domain mcfg ids viewer =
     bind_run (fetch_enriched env c 0 instance_domain mcfg ids viewer) (\<lambda>statuses.
       if statuses = [] then Done statuses
       else bind_run (fetch_quote_targets c (List.map_filter status_key statuses)) (\<lambda>rows.
         if rows = [] then Done statuses
         else bind_run (fetch_enriched env c 1 instance_domain mcfg
                (map snd (rev (retain_first fst {} (rev rows)))) viewer) (\<lambda>parents.
              Done (map (attach_quote (hashmap_of rows) (by_id parents)) statuses))))"

section \<open>Lemmas\<close>

lemma query_Done [simp]: "query c n q f = Done r \<longleftrightarrow> (\<exists>db. c n q = Inr db \<and> r = f db)"
  by (auto simp: query_def split: sum.splits)

lemma query_rows_Done [simp]: "query_rows c n q f = Done r \<longleftrightarrow> (\<exists>db. c n q = Inr db \<and> f db = Some r)"
  by (auto simp: query_rows_def bind_run_Done split: option.splits)

lemma build_all_Done: "build_all f rs = Done ss \<longleftrightarrow> map f rs = map Some ss"
proof (induction rs arbitrary: ss)
  case (Cons r rs)
  then show ?case by (cases ss) (auto simp: bind_run_Done split: option.splits)
qed auto

lemma those_Some: "those xs = Some ys \<longleftrightarrow> xs = map Some ys"
proof (induction xs arbitrary: ys)
  case (Cons x xs)
  then show ?case by (cases ys) (auto split: option.splits)
qed auto

lemma fetch_enriched_Done:
  assumes "fetch_enriched env c n inst mcfg ids viewer = Done ss"
  shows "ids = [] \<and> ss = [] \<or> (\<exists>db base en. c n Q_Base = Inr db \<and> base_query db ids = Some base
     \<and> map (build_status env inst mcfg en) base = map Some ss
     \<and> (base = [] \<or> fetch_viewer_state c n viewer (map br_id base) = Done (ei_viewer en)))"
proof (cases "ids = []")
  case True
  then show ?thesis using assms by (simp add: fetch_enriched_def)
next
  case False
  then obtain db base where b: "c n Q_Base = Inr db" "base_query db ids = Some base"
    using assms by (auto simp: fetch_enriched_def bind_run_Done)
  show ?thesis
  proof (cases "base = []")
    case True
    then show ?thesis using assms False b by (auto simp: fetch_enriched_def bind_run_Done)
  next
    case base: False
    obtain stats media tags cards mentions vs emojis where
      "fetch_viewer_state c n viewer (map br_id base) = Done vs"
      "build_all (build_status env inst mcfg
          \<lparr>ei_stats = stats, ei_media = media, ei_tags = tags, ei_cards = cards, ei_mentions = mentions,
           ei_emojis = emojis, ei_viewer = vs\<rparr>) base = Done ss"
      using assms False b base by (auto simp: fetch_enriched_def bind_run_Done Let_def)
    then show ?thesis
      using b by (intro disjI2 exI [of _ db] exI [of _ base]
        exI [of _ "\<lparr>ei_stats = stats, ei_media = media, ei_tags = tags, ei_cards = cards, ei_mentions = mentions,
           ei_emojis = emojis, ei_viewer = vs\<rparr>"]) (simp add: build_all_Done)
  qed
qed

text \<open>The rows of the base query.\<close>

lemma decode_base_sel:
  "decode_base ((s, a), k) = Some r \<Longrightarrow> br_id r = ds_id s \<and> br_account_id r = ds_account_id s
     \<and> br_text r = ds_text s \<and> br_domain r = da_domain a \<and> br_username r = da_username a"
  by (auto split: option.splits)

declare decode_base.simps [simp del]

lemma left_join_sound:
  "(x, y) \<in> set (left_join on xs ys) \<Longrightarrow> x \<in> set xs \<and> (case y of None \<Rightarrow> True | Some z \<Rightarrow> z \<in> set ys \<and> on x z)"
  by (auto simp: left_join_def Let_def split: option.splits if_splits)

definition visible_status :: "mastodon_db \<Rightarrow> int \<Rightarrow> bool" where
  "visible_status db i \<longleftrightarrow> (\<exists>s \<in> set (db_statuses db). \<exists>a \<in> set (db_accounts db).
     ds_id s = i \<and> da_id a = ds_account_id s \<and> base_visible s a)"

lemma base_join_sound:
  "((s, a), k) \<in> set (base_join db ids) \<Longrightarrow>
     s \<in> set (db_statuses db) \<and> a \<in> set (db_accounts db) \<and> da_id a = ds_account_id s \<and> ds_id s \<in> set ids
     \<and> base_visible s a"
  by (auto simp: base_join_def dest!: left_join_sound split: if_splits)

lemma base_query_row:
  assumes "base_query db ids = Some base" "r \<in> set base"
  shows "br_id r \<in> set ids \<and> visible_status db (br_id r)"
proof -
  have "map decode_base (base_join db ids) = map Some base" using assms(1) by (simp add: base_query_def those_Some)
  then have "Some r \<in> decode_base ` set (base_join db ids)" using assms(2) by (metis image_eqI list.set_map)
  then obtain s a k where j: "((s, a), k) \<in> set (base_join db ids)" "decode_base ((s, a), k) = Some r" by force
  show ?thesis using base_join_sound [OF j(1)] decode_base_sel [OF j(2)] unfolding visible_status_def by metis
qed

lemma build_status_sel:
  assumes "build_status env inst mcfg en row = Some s"
  shows "st_id (status_of s) = show_int (br_id row)" "reblog_of s = None" "quote_entity s = None"
    "st_favourited (status_of s) = (br_id row \<in> vs_favourited (ei_viewer en))"
    "st_bookmarked (status_of s) = (br_id row \<in> vs_bookmarked (ei_viewer en))"
    "st_reblogged (status_of s) = (br_id row \<in> vs_reblogged (ei_viewer en))"
  using assms by (auto simp: build_status_def Let_def)

lemma map_Some_in: "map f xs = map Some ys \<Longrightarrow> y \<in> set ys \<Longrightarrow> \<exists>x \<in> set xs. f x = Some y"
  by (metis image_iff list.set_map)

lemma attach_quote_sel [simp]:
  "status_of (attach_quote t p s) = status_of s" "reblog_of (attach_quote t p s) = reblog_of s"
  "status_key (attach_quote t p s) = status_key s"
  by (simp_all add: attach_quote_def status_key_def split: option.splits)

lemma quotes_query_row:
  "(i, j) \<in> set (quotes_query db ids) \<Longrightarrow>
     i \<in> set ids \<and> (\<exists>x \<in> set (db_quotes db). dq_status_id x = i \<and> dq_quoted_status_id x = Some j \<and> dq_state x = 1)"
  by (auto simp: quotes_query_def split: if_splits)

lemma by_id_Some:
  assumes "by_id ss i = Some s"
  shows "s \<in> set ss" "status_key s = Some i"
proof -
  have "(i, s) \<in> set (List.map_filter (\<lambda>s. map_option (\<lambda>i. (i, s)) (status_key s)) ss)"
    using assms unfolding by_id_def by (rule hashmap_of_Some)
  then show "s \<in> set ss" "status_key s = Some i" by (auto simp: map_filter_def split: if_splits)
qed

lemma enriched_row:
  assumes "fetch_enriched env c n inst mcfg ids viewer = Done ss" "s \<in> set ss"
  obtains db base en row where "c n Q_Base = Inr db" "base_query db ids = Some base" "row \<in> set base"
    "build_status env inst mcfg en row = Some s" "fetch_viewer_state c n viewer (map br_id base) = Done (ei_viewer en)"
proof -
  have "ss \<noteq> []" using assms(2) by auto
  then obtain db base en where *: "c n Q_Base = Inr db" "base_query db ids = Some base"
      "map (build_status env inst mcfg en) base = map Some ss"
      "fetch_viewer_state c n viewer (map br_id base) = Done (ei_viewer en)"
    using fetch_enriched_Done [OF assms(1)] by (metis list.map_disc_iff)
  then show ?thesis using map_Some_in [OF *(3) assms(2)] that by blast
qed

lemma enriched_visible:
  assumes "fetch_enriched env c n inst mcfg ids viewer = Done ss" "s \<in> set ss"
  shows "\<exists>db i. c n Q_Base = Inr db \<and> i \<in> set ids \<and> visible_status db i \<and> st_id (status_of s) = show_int i
    \<and> quote_entity s = None"
  using enriched_row [OF assms] base_query_row build_status_sel by metis

lemma fetch_by_ids_Done:
  assumes "fetch_by_ids env c inst mcfg ids viewer = Done ss"
  obtains ss0 rows parents where "fetch_enriched env c 0 inst mcfg ids viewer = Done ss0"
    "ss = map (attach_quote (hashmap_of rows) (by_id parents)) ss0"
    "rows = [] \<and> parents = []
     \<or> fetch_quote_targets c (List.map_filter status_key ss0) = Done rows
       \<and> fetch_enriched env c 1 inst mcfg (map snd (rev (retain_first fst {} (rev rows)))) viewer = Done parents"
proof -
  obtain ss0 where s: "fetch_enriched env c 0 inst mcfg ids viewer = Done ss0"
    using assms by (auto simp: fetch_by_ids_def bind_run_Done)
  have none: "map (attach_quote (hashmap_of []) (by_id [])) ss0 = ss0"
    by (simp add: attach_quote_def hashmap_of_def by_id_def map_filter_def map_idI
        split: option.splits)
  show ?thesis
  proof (cases "ss0 = [] \<or> fetch_quote_targets c (List.map_filter status_key ss0) = Done []")
    case True
    then have "ss = ss0" using assms s by (auto simp: fetch_by_ids_def bind_run_Done split: if_splits)
    then show ?thesis using that [OF s, of "[]" "[]"] none by simp
  next
    case False
    then show ?thesis using assms s that [OF s] by (auto simp: fetch_by_ids_def bind_run_Done split: if_splits)
  qed
qed

section \<open>Properties\<close>

text \<open>
  C19: Every status fetched by id is one that may be shown: one of those asked for, public or
  unlisted, no reblog, not deleted, by an author who is neither suspended nor silenced, in the
  tables the base query saw. The same holds of a quoted status, which is there only when an
  accepted quote names it, and quotes nothing itself.
\<close>

theorem fetched_statuses_visible:
  assumes "fetch_by_ids env c inst mcfg ids viewer = Done ss" "s \<in> set ss"
  shows "\<exists>db i. c 0 Q_Base = Inr db \<and> i \<in> set ids \<and> visible_status db i \<and> st_id (status_of s) = show_int i
    \<and> (quote_entity s = None
       \<or> (\<exists>p dbp dbq j. quote_entity s = Some (Quote ''accepted'' p) \<and> quote_entity p = None
            \<and> c 1 Q_Base = Inr dbp \<and> visible_status dbp j \<and> st_id (status_of p) = show_int j
            \<and> c 0 Q_Quotes = Inr dbq
            \<and> (\<exists>x \<in> set (db_quotes dbq). dq_status_id x = i \<and> dq_quoted_status_id x = Some j \<and> dq_state x = 1)))"
proof -
  obtain ss0 rows parents where *: "fetch_enriched env c 0 inst mcfg ids viewer = Done ss0"
    "ss = map (attach_quote (hashmap_of rows) (by_id parents)) ss0"
    "rows = [] \<and> parents = [] \<or> fetch_quote_targets c (List.map_filter status_key ss0) = Done rows
       \<and> fetch_enriched env c 1 inst mcfg (map snd (rev (retain_first fst {} (rev rows)))) viewer = Done parents"
    using fetch_by_ids_Done [OF assms(1)] by blast
  obtain s0 where s0: "s0 \<in> set ss0" "s = attach_quote (hashmap_of rows) (by_id parents) s0"
    using assms(2) *(2) by auto
  obtain db i where i: "c 0 Q_Base = Inr db" "i \<in> set ids" "visible_status db i"
      "st_id (status_of s0) = show_int i" "quote_entity s0 = None"
    using enriched_visible [OF *(1) s0(1)] by blast
  show ?thesis
  proof (cases "Option.bind (Option.bind (status_key s0) (hashmap_of rows)) (by_id parents)")
    case None
    then have "s = s0" using s0(2) by (simp add: attach_quote_def)
    then show ?thesis using i by blast
  next
    case (Some p)
    then have q: "quote_entity s = Some (Quote ''accepted'' p)" using s0(2) by (simp add: attach_quote_def)
    obtain k j where k: "status_key s0 = Some k" "hashmap_of rows k = Some j" "by_id parents j = Some p"
      using Some by (auto split: bind_splits)
    have ki: "k = i" using k(1) i(4) by (simp add: status_key_def parse_i64_show_int split: if_splits)
    have row: "(k, j) \<in> set rows" by (rule hashmap_of_Some) (rule k(2))
    then have f: "fetch_quote_targets c (List.map_filter status_key ss0) = Done rows"
      "fetch_enriched env c 1 inst mcfg (map snd (rev (retain_first fst {} (rev rows)))) viewer = Done parents"
      using *(3) by auto
    obtain dbq where dbq: "c 0 Q_Quotes = Inr dbq" "rows = quotes_query dbq (List.map_filter status_key ss0)"
      using f(1) by (auto simp: fetch_quote_targets_def)
    obtain dbp j' where p: "c 1 Q_Base = Inr dbp" "visible_status dbp j'" "st_id (status_of p) = show_int j'"
        "quote_entity p = None"
      using enriched_visible [OF f(2) by_id_Some(1) [OF k(3)]] by blast
    have "j' = j" using by_id_Some(2) [OF k(3)] p(3) by (simp add: status_key_def parse_i64_show_int split: if_splits)
    moreover have "st_id (status_of s) = show_int i" using i(4) s0(2) by simp
    moreover have "\<exists>x \<in> set (db_quotes dbq). dq_status_id x = i \<and> dq_quoted_status_id x = Some j \<and> dq_state x = 1"
      using quotes_query_row row unfolding dbq(2) ki by blast
    ultimately show ?thesis
      by (intro exI [of _ db] exI [of _ i] conjI disjI2, simp_all only: i(1-3))
        (rule exI [of _ p], rule exI [of _ dbp], rule exI [of _ dbq], rule exI [of _ j], use p q dbq(1) in simp)
  qed
qed

section \<open>The order of the fetched statuses\<close>

lemma array_position_Cons:
  "array_position (x # xs) i = (if i = x then 0 else Suc (array_position xs i))"
  by (auto simp: array_position_def)

lemma sorted_firsts: "sorted_wrt (<) (map (array_position ids) (firsts ids))"
proof (induction ids)
  case (Cons x xs)
  have eq: "map (array_position (x # xs)) (filter (\<lambda>y. y \<noteq> x) (firsts xs))
      = map (Suc \<circ> array_position xs) (filter (\<lambda>y. y \<noteq> x) (firsts xs))"
    by (simp add: array_position_Cons)
  have "sorted_wrt (\<lambda>y z. array_position xs y < array_position xs z) (filter (\<lambda>y. y \<noteq> x) (firsts xs))"
    by (rule sorted_wrt_filter) (use Cons in \<open>simp add: sorted_wrt_map\<close>)
  then show ?case by (simp add: eq sorted_wrt_map) (simp add: array_position_Cons)
qed simp

lemma array_position_inj: "inj_on (array_position ids) (set ids)"
proof -
  have "distinct (map (array_position ids) (firsts ids))"
    using sorted_firsts [of ids] by (simp add: strict_sorted_iff)
  then show ?thesis by (simp add: distinct_map)
qed

text \<open>The primary keys of the tables.\<close>

definition keys_ok :: "mastodon_db \<Rightarrow> bool" where
  "keys_ok db \<longleftrightarrow> distinct (map ds_id (db_statuses db)) \<and> distinct (map da_id (db_accounts db))
     \<and> distinct (map dk_account_id (db_account_stats db))"

lemma base_join_distinct:
  assumes "keys_ok db"
  shows "distinct (map (\<lambda>x. ds_id (fst (fst x))) (base_join db ids))"
proof -
  let ?g = "\<lambda>s. [(s, a). a \<leftarrow> db_accounts db, da_id a = ds_account_id s, ds_id s \<in> set ids, base_visible s a]"
  let ?p = "[(s, a). s \<leftarrow> db_statuses db, a \<leftarrow> db_accounts db, da_id a = ds_account_id s,
            ds_id s \<in> set ids, base_visible s a]"
  have g: "length (?g s) \<le> 1" for s
    by (rule length_concat_guard [of da_id _ _ "ds_account_id s"]) (use assms in \<open>auto simp: keys_ok_def split: if_splits\<close>)
  have p: "distinct (map (\<lambda>x. ds_id (fst x)) ?p)"
    by (rule distinct_join [of ds_id]) (use assms g in \<open>auto simp: keys_ok_def split: if_splits\<close>)
  let ?f = "\<lambda>x. (\<lambda>(s, a) k. dk_account_id k = da_id a) x"
  have f: "length (filter (?f x) (db_account_stats db)) \<le> 1" for x
  proof -
    have "length (concat (map (\<lambda>k. if ?f x k then [k] else []) (db_account_stats db))) \<le> 1"
      by (rule length_concat_guard [of dk_account_id _ _ "da_id (snd x)"])
        (use assms in \<open>auto simp: keys_ok_def split: if_splits prod.splits\<close>)
    moreover have "concat (map (\<lambda>k. if P k then [k] else []) ys) = filter P ys" for P :: "db_account_stats \<Rightarrow> bool" and ys
      by (induction ys) auto
    ultimately show ?thesis by simp
  qed
  have "distinct (map (\<lambda>x. ds_id (fst (fst x))) (left_join ?f ?p (db_account_stats db)))"
    unfolding left_join_def
  proof (rule distinct_join [OF p])
    show "length (let ms = filter (?f x) (db_account_stats db)
        in if ms = [] then [(x, None)] else map (\<lambda>y. (x, Some y)) ms) \<le> 1" for x
      using f [of x] by (simp add: Let_def)
  qed (auto simp: Let_def split: if_splits)
  then show ?thesis unfolding base_join_def by (metis (no_types, lifting) distinct_map distinct_sort inj_on_cong set_sort)
qed

lemma left_join_left: "x \<in> set xs \<Longrightarrow> \<exists>y. (x, y) \<in> set (left_join on xs ys)"
proof (induction xs)
  case (Cons z xs)
  show ?case
  proof (cases "x = z")
    case True
    show ?thesis
    proof (cases "filter (on x) ys")
      case Nil
      then show ?thesis unfolding True by (auto simp: left_join_def Let_def)
    next
      case (Cons y ms)
      then show ?thesis unfolding True by (intro exI [of _ "Some y"]) (auto simp: left_join_def Let_def)
    qed
  next
    case False
    then show ?thesis using Cons by (auto simp: left_join_def)
  qed
qed simp

lemma base_join_complete:
  assumes "i \<in> set ids" "visible_status db i"
  shows "i \<in> (\<lambda>x. ds_id (fst (fst x))) ` set (base_join db ids)"
proof -
  obtain s a where sa: "s \<in> set (db_statuses db)" "a \<in> set (db_accounts db)" "ds_id s = i"
      "da_id a = ds_account_id s" "base_visible s a"
    using assms(2) by (auto simp: visible_status_def)
  let ?p = "[(s, a). s \<leftarrow> db_statuses db, a \<leftarrow> db_accounts db, da_id a = ds_account_id s,
            ds_id s \<in> set ids, base_visible s a]"
  have "(s, a) \<in> set ?p" using sa assms(1) by auto
  from left_join_left [OF this] obtain k where "((s, a), k) \<in> set (base_join db ids)"
    unfolding base_join_def set_sort by blast
  then show ?thesis using sa(3) by force
qed

lemma base_join_ids:
  assumes "keys_ok db"
  shows "map (\<lambda>x. ds_id (fst (fst x))) (base_join db ids) = filter (visible_status db) (firsts ids)"
    (is "?l = ?r")
proof -
  let ?pos = "array_position ids"
  have set: "set ?l = set ?r"
  proof (intro subset_antisym subsetI)
    fix i assume "i \<in> set ?l"
    then obtain s a k where "((s, a), k) \<in> set (base_join db ids)" "i = ds_id s" by auto
    then show "i \<in> set ?r" using base_join_sound [of s a k db ids] by (auto simp: visible_status_def)
  qed (use base_join_complete in auto)
  have inj: "inj_on ?pos (set ?l)" "inj_on ?pos (set ?r)"
    unfolding set using array_position_inj by (auto intro: inj_on_subset)
  have "sorted (map ?pos ?l)"
    using sorted_sort_key [of "\<lambda>x. ?pos (ds_id (fst (fst x)))"] by (simp add: base_join_def o_def)
  moreover have "sorted (map ?pos ?r)"
  proof -
    have "sorted_wrt (\<lambda>y z. ?pos y < ?pos z) ?r"
      by (rule sorted_wrt_filter) (use sorted_firsts in \<open>simp add: sorted_wrt_map\<close>)
    then show ?thesis unfolding sorted_map by (rule sorted_wrt_mono_rel [rotated]) simp
  qed
  moreover have "distinct (map ?pos ?l)" "distinct (map ?pos ?r)"
    using base_join_distinct [OF assms] inj by (simp_all add: distinct_map comp_inj_on)
  ultimately have "map ?pos ?l = map ?pos ?r"
    using set by (intro sorted_distinct_set_unique) (simp_all only: list.set_map)
  then show ?thesis using inj set by (simp only: inj_on_map_eq_map Un_absorb)
qed

lemma base_query_ids:
  assumes "base_query db ids = Some base" "keys_ok db"
  shows "map br_id base = filter (visible_status db) (firsts ids)"
proof -
  have m: "map decode_base (base_join db ids) = map Some base" using assms(1) by (simp add: base_query_def those_Some)
  have "map (\<lambda>x. ds_id (fst (fst x))) xs = map br_id ys" if "map decode_base xs = map Some ys" for xs ys
    using that
  proof (induction xs arbitrary: ys)
    case (Cons x xs)
    obtain s a k where "x = ((s, a), k)" by (metis surj_pair)
    with Cons show ?case by (cases ys) (auto dest: decode_base_sel)
  qed auto
  from this [OF m] show ?thesis using base_join_ids [OF assms(2)] by simp
qed

lemma viewer_sets:
  assumes "i \<in> set ids"
  shows "i \<in> set (favourites_query db v ids) \<longleftrightarrow> (\<exists>f \<in> set (db_favourites db). dm_account_id f = v \<and> dm_status_id f = i)"
    "i \<in> set (bookmarks_query db v ids) \<longleftrightarrow> (\<exists>b \<in> set (db_bookmarks db). dm_account_id b = v \<and> dm_status_id b = i)"
    "i \<in> set (reblogs_query db v ids) \<longleftrightarrow> (\<exists>r \<in> set (db_statuses db). ds_account_id r = v
       \<and> ds_deleted_at r = None \<and> ds_reblog_of_id r = Some i)"
proof -
  show "i \<in> set (favourites_query db v ids) \<longleftrightarrow> (\<exists>f \<in> set (db_favourites db). dm_account_id f = v \<and> dm_status_id f = i)"
    using assms by (auto simp: favourites_query_def)
  show "i \<in> set (bookmarks_query db v ids) \<longleftrightarrow> (\<exists>b \<in> set (db_bookmarks db). dm_account_id b = v \<and> dm_status_id b = i)"
    using assms by (auto simp: bookmarks_query_def)
  have f: "option_filter (\<lambda>i. i \<in> set ids) x = Some i \<longleftrightarrow> x = Some i" for x using assms by (cases x) auto
  have m: "i \<in> set (List.map_filter g xs) \<longleftrightarrow> (\<exists>x \<in> set xs. g x = Some i)" for g :: "db_status \<Rightarrow> int option" and xs
    by (force simp: map_filter_def)
  show "i \<in> set (reblogs_query db v ids) \<longleftrightarrow> (\<exists>r \<in> set (db_statuses db). ds_account_id r = v
       \<and> ds_deleted_at r = None \<and> ds_reblog_of_id r = Some i)"
    unfolding reblogs_query_def m using f by auto
qed

lemma enriched_viewer:
  assumes "fetch_enriched env c n inst mcfg ids viewer = Done ss" "s \<in> set ss"
  shows "case viewer of
         None \<Rightarrow> \<not> st_favourited (status_of s) \<and> \<not> st_bookmarked (status_of s) \<and> \<not> st_reblogged (status_of s)
       | Some v \<Rightarrow> (\<exists>dbf dbb dbr. c n Q_Favourited = Inr dbf \<and> c n Q_Bookmarked = Inr dbb \<and> c n Q_Reblogged = Inr dbr
           \<and> (\<exists>i. st_id (status_of s) = show_int i
              \<and> st_favourited (status_of s) = (\<exists>f \<in> set (db_favourites dbf). dm_account_id f = v \<and> dm_status_id f = i)
              \<and> st_bookmarked (status_of s) = (\<exists>b \<in> set (db_bookmarks dbb). dm_account_id b = v \<and> dm_status_id b = i)
              \<and> st_reblogged (status_of s) = (\<exists>r \<in> set (db_statuses dbr). ds_account_id r = v
                  \<and> ds_deleted_at r = None \<and> ds_reblog_of_id r = Some i)))"
proof -
  obtain db base en row where r: "c n Q_Base = Inr db" "base_query db ids = Some base" "row \<in> set base"
    "build_status env inst mcfg en row = Some s" "fetch_viewer_state c n viewer (map br_id base) = Done (ei_viewer en)"
    by (rule enriched_row [OF assms])
  note sel = build_status_sel [OF r(4)]
  show ?thesis
  proof (cases viewer)
    case None
    then have "ei_viewer en = viewer_default" using r(5) by (simp add: fetch_viewer_state_def)
    then show ?thesis unfolding None by (simp add: sel viewer_default_def)
  next
    case (Some v)
    have "base \<noteq> []" using r(3) by auto
    then obtain dbf dbb dbr where d: "c n Q_Favourited = Inr dbf" "c n Q_Bookmarked = Inr dbb" "c n Q_Reblogged = Inr dbr"
        "ei_viewer en = \<lparr>vs_favourited = set (favourites_query dbf v (map br_id base)),
           vs_bookmarked = set (bookmarks_query dbb v (map br_id base)),
           vs_reblogged = set (reblogs_query dbr v (map br_id base))\<rparr>"
      using r(5) Some by (auto simp: fetch_viewer_state_def bind_run_Done)
    have i: "br_id row \<in> set (map br_id base)" using r(3) by simp
    show ?thesis unfolding Some option.case
      by (rule exI [of _ dbf], rule exI [of _ dbb], rule exI [of _ dbr], intro conjI d(1-3), rule exI [of _ "br_id row"])
        (simp only: sel d(4) viewer_state.simps viewer_sets [OF i])
  qed
qed

text \<open>
  Fetching statuses by id returns those of the asked-for statuses that may be shown, all of
  them and each once, in the order in which they were asked for, and with the viewer's own flags:
  a status is marked as favourited, bookmarked or reblogged just when the tables the queries saw
  have the viewer's favourite, bookmark or reblog, and without a viewer nothing is marked.
\<close>

theorem fetched_in_order:
  assumes "fetch_by_ids env c inst mcfg ids viewer = Done ss" "\<forall>db. c 0 Q_Base = Inr db \<longrightarrow> keys_ok db"
  shows "(ids = [] \<and> ss = [] \<or> (\<exists>db. c 0 Q_Base = Inr db
      \<and> map (\<lambda>s. st_id (status_of s)) ss = map show_int (filter (visible_status db) (firsts ids))))
    \<and> (\<forall>s \<in> set ss. (case viewer of
         None \<Rightarrow> \<not> st_favourited (status_of s) \<and> \<not> st_bookmarked (status_of s) \<and> \<not> st_reblogged (status_of s)
       | Some v \<Rightarrow> (\<exists>dbf dbb dbr. c 0 Q_Favourited = Inr dbf \<and> c 0 Q_Bookmarked = Inr dbb \<and> c 0 Q_Reblogged = Inr dbr
           \<and> (\<exists>i. st_id (status_of s) = show_int i
              \<and> st_favourited (status_of s) = (\<exists>f \<in> set (db_favourites dbf). dm_account_id f = v \<and> dm_status_id f = i)
              \<and> st_bookmarked (status_of s) = (\<exists>b \<in> set (db_bookmarks dbb). dm_account_id b = v \<and> dm_status_id b = i)
              \<and> st_reblogged (status_of s) = (\<exists>r \<in> set (db_statuses dbr). ds_account_id r = v
                  \<and> ds_deleted_at r = None \<and> ds_reblog_of_id r = Some i)))))"
proof -
  obtain ss0 rows parents where *: "fetch_enriched env c 0 inst mcfg ids viewer = Done ss0"
    "ss = map (attach_quote (hashmap_of rows) (by_id parents)) ss0"
    using fetch_by_ids_Done [OF assms(1)] by blast
  have "ids = [] \<and> ss = [] \<or> (\<exists>db. c 0 Q_Base = Inr db
      \<and> map (\<lambda>s. st_id (status_of s)) ss = map show_int (filter (visible_status db) (firsts ids)))"
  proof -
    have "ids = [] \<and> ss0 = [] \<or> (\<exists>db base en. c 0 Q_Base = Inr db \<and> base_query db ids = Some base
        \<and> map (build_status env inst mcfg en) base = map Some ss0)"
      using fetch_enriched_Done [OF *(1)] by blast
    then show ?thesis
  proof (elim disjE exE conjE)
    fix db base en
    assume a: "c 0 Q_Base = Inr db" "base_query db ids = Some base"
      "map (build_status env inst mcfg en) base = map Some ss0"
    have "map (\<lambda>s. st_id (status_of s)) ss0 = map (\<lambda>r. show_int (br_id r)) base" using a(3)
    proof (induction base arbitrary: ss0)
      case (Cons r base)
      then show ?case by (cases ss0) (auto dest: build_status_sel(1))
    qed simp
    also have "\<dots> = map show_int (filter (visible_status db) (firsts ids))"
      using base_query_ids [OF a(2)] assms(2) a(1) by (metis (no_types, lifting) map_map o_def map_eq_conv)
    finally have "map (\<lambda>s. st_id (status_of s)) ss = map show_int (filter (visible_status db) (firsts ids))"
      unfolding *(2) by (simp add: o_def)
    then show ?thesis using a(1) by blast
  qed (use *(2) in simp)
  qed
  moreover have "case viewer of
         None \<Rightarrow> \<not> st_favourited (status_of s) \<and> \<not> st_bookmarked (status_of s) \<and> \<not> st_reblogged (status_of s)
       | Some v \<Rightarrow> (\<exists>dbf dbb dbr. c 0 Q_Favourited = Inr dbf \<and> c 0 Q_Bookmarked = Inr dbb \<and> c 0 Q_Reblogged = Inr dbr
           \<and> (\<exists>i. st_id (status_of s) = show_int i
              \<and> st_favourited (status_of s) = (\<exists>f \<in> set (db_favourites dbf). dm_account_id f = v \<and> dm_status_id f = i)
              \<and> st_bookmarked (status_of s) = (\<exists>b \<in> set (db_bookmarks dbb). dm_account_id b = v \<and> dm_status_id b = i)
              \<and> st_reblogged (status_of s) = (\<exists>r \<in> set (db_statuses dbr). ds_account_id r = v
                  \<and> ds_deleted_at r = None \<and> ds_reblog_of_id r = Some i)))"
    if s: "s \<in> set ss" for s
  proof -
    obtain s0 where s0: "s0 \<in> set ss0" "status_of s = status_of s0" using s *(2) by auto
    show ?thesis unfolding s0(2) by (rule enriched_viewer [OF *(1) s0(1)])
  qed
  ultimately show ?thesis by blast
qed

text \<open>A database of one author with a status and a deleted one, and a favourite of the first.\<close>

definition detail_account :: db_account where
  "detail_account = \<lparr>da_id = 1, da_username = ''ann'', da_domain = None, da_display_name = Some ''Ann'', da_url = None,
     da_avatar_file_name = None, da_avatar_remote_url = None, da_header_file_name = None,
     da_header_remote_url = Some [], da_avatar_version = None, da_header_version = None,
     da_suspended_at = None, da_silenced_at = None, da_note = [], da_uri = [], da_created_at = 0,
     da_discoverable = None, da_indexable = False, da_locked = False, da_actor_type = None, da_fields = None\<rparr>"

definition detail_status :: "int \<Rightarrow> instant option \<Rightarrow> db_status" where
  "detail_status i deleted = \<lparr>ds_id = i, ds_account_id = 1, ds_uri = ''u'', ds_url = None, ds_text = ''hi'',
     ds_spoiler_text = Some [], ds_sensitive = False, ds_language = None, ds_created_at = 0, ds_visibility = 1,
     ds_in_reply_to_id = None, ds_in_reply_to_account_id = None, ds_reblog_of_id = None, ds_deleted_at = deleted,
     ds_edited_at = None, ds_media_order = None\<rparr>"

definition detail_db :: mastodon_db where
  "detail_db = \<lparr>db_accounts = [detail_account], db_statuses = [detail_status 7 None, detail_status 8 (Some 1)],
     db_favourites = [\<lparr>dm_account_id = 5, dm_status_id = 7, dm_created_at = 0\<rparr>], db_bookmarks = [],
     db_mentions = [], db_follows = [], db_blocks = [], db_mutes = [], db_domain_blocks = [], db_stats = [],
     db_tags = [], db_statuses_tags = [], db_account_stats = [], db_media = [], db_cards = [],
     db_cards_statuses = [], db_emojis = [], db_quotes = []\<rparr>"

definition detail_conn :: conn where
  "detail_conn = (\<lambda>_ _. Inr detail_db)"

definition plain_env :: detail_env where
  "plain_env = \<lparr>de_html = no_urls, de_captures = (\<lambda>_ _. []), de_alnum = (\<lambda>_. True), de_date = (\<lambda>_. [])\<rparr>"

lemma detail_fetch:
  "case fetch_by_ids plain_env detail_conn ''i.test'' (media_config_new ''i.test'' False) [8, 7] (Some 5) of
     Done [s] \<Rightarrow> st_id (status_of s) = ''7'' \<and> st_favourited (status_of s) | _ \<Rightarrow> False"
  by code_simp

lemma detail_fetched:
  obtains s where "fetch_by_ids plain_env detail_conn ''i.test'' (media_config_new ''i.test'' False) [8, 7] (Some 5) = Done [s]"
    "st_id (status_of s) = ''7''" "st_favourited (status_of s)"
  using detail_fetch by (auto split: run.splits list.splits)

theorem fetched_statuses_visible_witness:
  "\<exists>s db i. fetch_by_ids plain_env detail_conn ''i.test'' (media_config_new ''i.test'' False) [8, 7] (Some 5) = Done [s]
     \<and> detail_conn 0 Q_Base = Inr db \<and> visible_status db i \<and> st_id (status_of s) = show_int i"
proof -
  obtain s where s: "fetch_by_ids plain_env detail_conn ''i.test'' (media_config_new ''i.test'' False) [8, 7] (Some 5) = Done [s]"
    by (rule detail_fetched)
  from fetched_statuses_visible [OF s, of s] show ?thesis using s by auto
qed

theorem fetched_in_order_witness:
  "\<exists>ss. fetch_by_ids plain_env detail_conn ''i.test'' (media_config_new ''i.test'' False) [8, 7] (Some 5) = Done ss
     \<and> map (\<lambda>s. st_id (status_of s)) ss = map show_int (filter (visible_status detail_db) [8, 7])"
proof -
  obtain s where s: "fetch_by_ids plain_env detail_conn ''i.test'' (media_config_new ''i.test'' False) [8, 7] (Some 5) = Done [s]"
    by (rule detail_fetched)
  have "keys_ok detail_db" by (simp add: keys_ok_def detail_db_def detail_status_def)
  then have "\<forall>db. detail_conn 0 Q_Base = Inr db \<longrightarrow> keys_ok db" by (simp add: detail_conn_def)
  from fetched_in_order [OF s this] show ?thesis using s by (auto simp: detail_conn_def)
qed

text \<open>
  The values of a status built from the database are those the Mastodon API allows: known media
  types, positive dimensions; all names, notes, profile fields, content warnings and descriptions,
  and the whole card, come out of the HTML cleaner; so does the content of a remote status, while
  the content of a local one is the formatter's. Every status says it is public, though unlisted
  ones are fetched too.
\<close>

theorem built_status_typed:
  assumes "build_status env inst mcfg en row = Some s"
  shows "st_visibility (status_of s) = ''public''
    \<and> (\<forall>m \<in> set (st_media_attachments (status_of s)). ma_media_type m \<in> media_types \<and> meta_ok (ma_meta m)
         \<and> (\<forall>x. ma_description m = Some x \<longrightarrow> clean_text (de_html env) x))
    \<and> clean_text (de_html env) (st_spoiler_text (status_of s))
    \<and> account_clean (de_html env) (st_account (status_of s))
    \<and> (\<forall>c. st_card (status_of s) = Some c \<longrightarrow> clean_text (de_html env) (cd_title c)
         \<and> clean_text (de_html env) (cd_description c) \<and> clean_html (de_html env) (cd_html c)
         \<and> cd_card_type c \<in> {''link'', ''photo'', ''video'', ''rich''})
    \<and> (if br_domain row = None
       then format_local (de_html env) (de_alnum env) (br_text row) (st_mentions (status_of s)) (st_tags (status_of s)) inst
              = Some (st_content (status_of s))
       else clean_remote (de_html env) (st_content (status_of s)))"
proof -
  have mt: "media_kind_str k \<in> media_types" for k by (cases k) (simp_all add: media_types_def)
  have ct: "card_kind_str k \<in> {''link'', ''photo'', ''video'', ''rich''}" for k by (cases k) simp_all
  have m: "ma_media_type (row_media_attachment env r mcfg) \<in> media_types
      \<and> meta_ok (ma_meta (row_media_attachment env r mcfg))
      \<and> (\<forall>x. ma_description (row_media_attachment env r mcfg) = Some x \<longrightarrow> clean_text (de_html env) x)" for r
    by (auto simp: row_media_attachment_def mt Let_def split: prod.splits)
  have a: "account_clean (de_html env) (row_account env row inst mcfg (ei_emojis en))"
    by (auto simp: account_clean_def row_account_def Let_def)
  have c: "clean_text (de_html env) (cd_title (row_card env r mcfg))
      \<and> clean_text (de_html env) (cd_description (row_card env r mcfg))
      \<and> clean_html (de_html env) (cd_html (row_card env r mcfg))
      \<and> cd_card_type (row_card env r mcfg) \<in> {''link'', ''photo'', ''video'', ''rich''}" for r
    using ct by (simp add: row_card_def Let_def)
  have s: "st_visibility (status_of s) = ''public''"
    "st_media_attachments (status_of s) = map (\<lambda>m. row_media_attachment env m mcfg) (unwrap_or (ei_media en (br_id row)) [])"
    "st_spoiler_text (status_of s) = sanitize_text (de_html env) (br_spoiler_text row)"
    "st_account (status_of s) = row_account env row inst mcfg (ei_emojis en)"
    "st_card (status_of s) = map_option (\<lambda>c. row_card env c mcfg) (ei_cards en (br_id row))"
    "if br_domain row = None
     then format_local (de_html env) (de_alnum env) (br_text row) (st_mentions (status_of s)) (st_tags (status_of s)) inst
            = Some (st_content (status_of s))
     else clean_remote (de_html env) (st_content (status_of s))"
    using assms by (auto simp: build_status_def Let_def split: if_splits)
  show ?thesis unfolding s(1-5) using m a c s(6) by (auto simp del: insert_iff)
qed

definition remote_row :: base_row where
  "remote_row = (the (decode_base ((detail_status 7 None, detail_account), None)))\<lparr>br_domain := Some ''r.test''\<rparr>"

definition no_enrichment :: enrichment where
  "no_enrichment = \<lparr>ei_stats = Map.empty, ei_media = Map.empty, ei_tags = Map.empty, ei_cards = Map.empty,
     ei_mentions = Map.empty, ei_emojis = Map.empty, ei_viewer = viewer_default\<rparr>"

theorem built_status_typed_witness:
  "\<exists>s. build_status plain_env ''i.test'' (media_config_new ''i.test'' False) no_enrichment remote_row = Some s
     \<and> st_visibility (status_of s) = ''public'' \<and> clean_remote no_urls (st_content (status_of s))"
proof -
  have d: "br_domain remote_row = Some ''r.test''" by (simp add: remote_row_def)
  then obtain s where s: "build_status plain_env ''i.test'' (media_config_new ''i.test'' False) no_enrichment remote_row = Some s"
    by (simp add: build_status_def Let_def)
  from built_status_typed [OF s] show ?thesis using s d by (auto simp: plain_env_def)
qed

end
