(* ===== verification/Statuses.thy ===== *)
theory Statuses
  imports Status_Detail Local_Sources
begin

text \<open>
  \<open>apps/server/src/mastodon/statuses.rs\<close>: the statuses of a page of feed items, and keyset
  pagination. Local items and posts already resolved into a Mastodon status are fetched from the
  database (\<open>Status_Detail\<close>); other posts are mapped to ids in the table \<open>commonfeed_statuses\<close>
  (\<open>Status_Map\<close>), which is threaded through. The two run concurrently on different tables, so
  their order does not matter.
\<close>

section \<open>Access to the mapping table\<close>

text \<open>Whether a statement fails, the time, the ids the database makes, and \<open>serde_json::to_value\<close>.\<close>

record table_env =
  te_lookup :: "state_error option"
  te_mapping :: "state_error option"
  te_now :: instant
  te_gen :: "int list"
  te_json :: "post \<Rightarrow> json"

definition lookup_ids :: "table_env \<Rightarrow> (string \<times> int) list \<Rightarrow> status_table \<Rightarrow> (string \<times> int \<rightharpoonup> int) run" where
  "lookup_ids te pairs tab =
     (if pairs = [] then Done Map.empty
      else case te_lookup te of Some e \<Rightarrow> Failed e | None \<Rightarrow> Done (find_mastodon_ids_by_provider pairs tab))"

definition map_batch :: "table_env \<Rightarrow> post_mapping list \<Rightarrow> status_table
    \<Rightarrow> state_error + (string \<times> int \<rightharpoonup> int) \<times> status_table" where
  "map_batch te ms tab =
     (if ms = [] then Inr (Map.empty, tab)
      else case te_mapping te of Some e \<Rightarrow> Inl e | None \<Rightarrow> map_posts (te_now te) (te_gen te) ms tab)"

section \<open>Posts without a Mastodon status\<close>

text \<open>The key of a post a provider has an id for.\<close>

definition post_pair :: "post \<Rightarrow> (string \<times> int) option" where
  "post_pair p =
     (case (po_provider_domain (post_of p), po_provider_id (post_of p)) of
        (Some d, Some r) \<Rightarrow> Some (d, r) | _ \<Rightarrow> None)"

definition mapping_of :: "table_env \<Rightarrow> string \<Rightarrow> post \<Rightarrow> post_mapping option" where
  "mapping_of te instance_domain p =
     (case post_pair p of
        Some (d, r) \<Rightarrow>
          if d \<noteq> instance_domain
          then Some \<lparr>pm_provider_domain = d, pm_remote_id = r, pm_post_url = po_url (post_of p),
                  pm_post_uri = unwrap_or (po_uri (post_of p)) (po_url (post_of p)), pm_post_data = te_json te p\<rparr>
          else None
      | None \<Rightarrow> None)"

definition post_status_id :: "string \<Rightarrow> (string \<times> int \<rightharpoonup> int) \<Rightarrow> post \<Rightarrow> string" where
  "post_status_id instance_domain id_map p =
     (case post_pair p of
        Some (d, r) \<Rightarrow>
          if d = instance_domain then show_int r
          else (case id_map (d, r) of Some i \<Rightarrow> show_int i | None \<Rightarrow> po_url (post_of p))
      | None \<Rightarrow> po_url (post_of p))"

definition from_posts :: "table_env \<Rightarrow> html_env \<Rightarrow> string \<Rightarrow> post list \<Rightarrow> status_table \<Rightarrow> status list \<times> status_table" where
  "from_posts te env instance_domain posts tab =
     (let ms = List.map_filter (mapping_of te instance_domain) posts;
          (id_map, tab') = (case map_batch te ms tab of Inl e \<Rightarrow> (Map.empty, tab) | Inr r \<Rightarrow> r)
      in (map (\<lambda>p. status_from_post env p (post_status_id instance_domain id_map p)) posts, tab'))"

section \<open>Feed items\<close>

datatype item_ref = Ref_Local int | Ref_Remote nat

definition provider_pairs :: "feed_item list \<Rightarrow> (string \<times> int) list" where
  "provider_pairs items =
     List.map_filter (\<lambda>item. case item of Remote p \<Rightarrow> post_pair p | Local i \<Rightarrow> None) items"

fun split_items :: "(string \<times> int \<rightharpoonup> int) \<Rightarrow> item_ref list \<Rightarrow> int list \<Rightarrow> post list \<Rightarrow> feed_item list
    \<Rightarrow> item_ref list \<times> int list \<times> post list" where
  "split_items resolved refs ids posts [] = (refs, ids, posts)"
| "split_items resolved refs ids posts (Local i # items) =
     split_items resolved (refs @ [Ref_Local i]) (ids @ [i]) posts items"
| "split_items resolved refs ids posts (Remote p # items) =
     (case Option.bind (post_pair p) resolved of
        Some m \<Rightarrow> split_items resolved (refs @ [Ref_Local m]) (ids @ [m]) posts items
      | None \<Rightarrow> split_items resolved (refs @ [Ref_Remote (length posts)]) ids (posts @ [p]) items)"

text \<open>\<open>remote_by_idx.remove(&idx)\<close>: an index is there once.\<close>

fun pick_refs :: "(int \<rightharpoonup> status) \<Rightarrow> (nat \<rightharpoonup> status) \<Rightarrow> item_ref list \<Rightarrow> status list" where
  "pick_refs local_by_id remote_by_idx [] = []"
| "pick_refs local_by_id remote_by_idx (Ref_Local i # rs) =
     (case local_by_id i of None \<Rightarrow> [] | Some s \<Rightarrow> [s]) @ pick_refs local_by_id remote_by_idx rs"
| "pick_refs local_by_id remote_by_idx (Ref_Remote n # rs) =
     (case remote_by_idx n of None \<Rightarrow> [] | Some s \<Rightarrow> [s])
     @ pick_refs local_by_id (remote_by_idx(n := None)) rs"

definition to_statuses :: "detail_env \<Rightarrow> conn \<Rightarrow> table_env \<Rightarrow> string \<Rightarrow> media_config \<Rightarrow> feed_item list \<Rightarrow> int option
    \<Rightarrow> status_table \<Rightarrow> status list run \<times> status_table" where
  "to_statuses env c te instance_domain mcfg items viewer tab =
     (case lookup_ids te (provider_pairs items) tab of
        Failed e \<Rightarrow> (Failed e, tab)
      | Panicked \<Rightarrow> (Panicked, tab)
      | Done resolved \<Rightarrow>
          let (refs, local_ids, remote_posts) = split_items resolved [] [] [] items;
              (remote_statuses, tab') = from_posts te (de_html env) instance_domain remote_posts tab
          in (bind_run (fetch_by_ids env c instance_domain mcfg local_ids viewer) (\<lambda>local_statuses.
                Done (pick_refs (by_id local_statuses)
                  (\<lambda>n. if n < length remote_statuses then Some (remote_statuses ! n) else None) refs)), tab'))"

section \<open>Keyset pagination\<close>

text \<open>\<open>HeaderValue::from_str\<close> takes visible ASCII, spaces and tabs.\<close>

definition header_value :: "string \<Rightarrow> string option" where
  "header_value s =
     (if list_all (\<lambda>c. 32 \<le> (of_char c :: nat) \<and> (of_char c :: nat) < 127 \<or> (of_char c :: nat) = 9) s then Some s else None)"

definition retain_ids :: "(int \<Rightarrow> int \<Rightarrow> bool) \<Rightarrow> string option \<Rightarrow> status list \<Rightarrow> status list" where
  "retain_ids ok bound ss =
     (case Option.bind bound parse_i64 of
        None \<Rightarrow> ss
      | Some b \<Rightarrow> filter (\<lambda>s. case status_key s of None \<Rightarrow> False | Some i \<Rightarrow> ok i b) ss)"

definition page_link :: "string \<Rightarrow> string \<Rightarrow> string \<Rightarrow> string \<Rightarrow> string \<Rightarrow> string" where
  "page_link dom_name path param i rel =
     ''<https://'' @ dom_name @ path @ ''?'' @ param @ ''='' @ i @ ''>; rel='' @ dq @ rel @ dq"

definition paginate :: "status list \<Rightarrow> nat \<Rightarrow> string option \<Rightarrow> string option \<Rightarrow> string option \<Rightarrow> string \<Rightarrow> string
    \<Rightarrow> status list \<times> string option" where
  "paginate statuses limit max_id min_id since_id dom_name path =
     (let ss = take limit (retain_ids (\<lambda>i b. i > b) since_id
                 (retain_ids (\<lambda>i b. i > b) min_id (retain_ids (\<lambda>i b. i < b) max_id statuses)))
      in (ss, if ss = [] then None
              else header_value (page_link dom_name path ''max_id'' (st_id (status_of (last ss))) ''next''
                     @ '', '' @ page_link dom_name path ''min_id'' (st_id (status_of (hd ss))) ''prev'')))"

section \<open>Items one by one\<close>

text \<open>What the bookkeeping with references and indexes amounts to: each item on its own.\<close>

definition item_target :: "(string \<times> int \<rightharpoonup> int) \<Rightarrow> feed_item \<Rightarrow> int + post" where
  "item_target resolved item =
     (case item of
        Local i \<Rightarrow> Inl i
      | Remote p \<Rightarrow> (case Option.bind (post_pair p) resolved of Some m \<Rightarrow> Inl m | None \<Rightarrow> Inr p))"

definition target_ids :: "(string \<times> int \<rightharpoonup> int) \<Rightarrow> feed_item list \<Rightarrow> int list" where
  "target_ids resolved items = List.map_filter (\<lambda>x. case item_target resolved x of Inl i \<Rightarrow> Some i | Inr p \<Rightarrow> None) items"

definition target_posts :: "(string \<times> int \<rightharpoonup> int) \<Rightarrow> feed_item list \<Rightarrow> post list" where
  "target_posts resolved items = List.map_filter (\<lambda>x. case item_target resolved x of Inl i \<Rightarrow> None | Inr p \<Rightarrow> Some p) items"

fun item_refs :: "(string \<times> int \<rightharpoonup> int) \<Rightarrow> nat \<Rightarrow> feed_item list \<Rightarrow> item_ref list" where
  "item_refs resolved n [] = []"
| "item_refs resolved n (x # xs) =
     (case item_target resolved x of
        Inl i \<Rightarrow> Ref_Local i # item_refs resolved n xs
      | Inr p \<Rightarrow> Ref_Remote n # item_refs resolved (Suc n) xs)"

definition item_status :: "(int \<rightharpoonup> status) \<Rightarrow> (post \<Rightarrow> status) \<Rightarrow> int + post \<Rightarrow> status option" where
  "item_status local remote t = (case t of Inl i \<Rightarrow> local i | Inr p \<Rightarrow> Some (remote p))"

lemma map_filter_simps2 [simp]:
  "List.map_filter f [] = []"
  "List.map_filter f (x # xs) = (case f x of None \<Rightarrow> [] | Some y \<Rightarrow> [y]) @ List.map_filter f xs"
  by (simp_all add: List.map_filter_simps split: option.splits)

lemma split_items_eq:
  "split_items resolved refs ids posts items =
     (refs @ item_refs resolved (length posts) items, ids @ target_ids resolved items,
      posts @ target_posts resolved items)"
  by (induction resolved refs ids posts items rule: split_items.induct)
    (simp_all add: item_target_def target_ids_def target_posts_def split: option.splits)

lemma pick_item_refs:
  assumes "\<And>k. k < length (target_posts resolved items) \<Longrightarrow> m (n + k) = Some (f (target_posts resolved items ! k))"
  shows "pick_refs local m (item_refs resolved n items)
     = List.map_filter (\<lambda>x. item_status local f (item_target resolved x)) items"
  using assms
proof (induction items arbitrary: n m)
  case (Cons x xs)
  show ?case
  proof (cases "item_target resolved x")
    case (Inl i)
    then have "target_posts resolved (x # xs) = target_posts resolved xs" by (simp add: target_posts_def)
    then have "pick_refs local m (item_refs resolved n xs)
        = List.map_filter (\<lambda>x. item_status local f (item_target resolved x)) xs"
      using Cons by simp
    then show ?thesis using Inl by (simp add: item_status_def split: option.splits)
  next
    case (Inr p)
    then have ps: "target_posts resolved (x # xs) = p # target_posts resolved xs" by (simp add: target_posts_def)
    have 0: "m n = Some (f p)" using Cons.prems [of 0] by (simp add: ps)
    have "(m(n := None)) (Suc n + k) = Some (f (target_posts resolved xs ! k))"
      if "k < length (target_posts resolved xs)" for k
      using Cons.prems [of "Suc k"] that by (simp add: ps)
    then have "pick_refs local (m(n := None)) (item_refs resolved (Suc n) xs)
        = List.map_filter (\<lambda>x. item_status local f (item_target resolved x)) xs"
      by (rule Cons.IH)
    then show ?thesis using Inr 0 by (simp add: item_status_def)
  qed
qed simp

text \<open>The ids the remote posts get.\<close>

definition batch_ids :: "table_env \<Rightarrow> string \<Rightarrow> post list \<Rightarrow> status_table \<Rightarrow> (string \<times> int \<rightharpoonup> int) \<times> status_table" where
  "batch_ids te inst posts tab =
     (case map_batch te (List.map_filter (mapping_of te inst) posts) tab of Inl e \<Rightarrow> (Map.empty, tab) | Inr r \<Rightarrow> r)"

lemma from_posts_eq:
  "from_posts te env inst posts tab =
     (map (\<lambda>p. status_from_post env p (post_status_id inst (fst (batch_ids te inst posts tab)) p)) posts,
      snd (batch_ids te inst posts tab))"
  by (simp add: from_posts_def batch_ids_def Let_def split: prod.splits)

lemma to_statuses_Done:
  assumes "to_statuses env c te inst mcfg items viewer tab = (Done ss, tab')"
  obtains resolved locals where "lookup_ids te (provider_pairs items) tab = Done resolved"
    "fetch_by_ids env c inst mcfg (target_ids resolved items) viewer = Done locals"
    "tab' = snd (batch_ids te inst (target_posts resolved items) tab)"
    "ss = List.map_filter (\<lambda>x. item_status (by_id locals)
        (\<lambda>p. status_from_post (de_html env) p
           (post_status_id inst (fst (batch_ids te inst (target_posts resolved items) tab)) p))
        (item_target resolved x)) items"
proof -
  obtain resolved where r: "lookup_ids te (provider_pairs items) tab = Done resolved"
    using assms by (auto simp: to_statuses_def split: run.splits)
  let ?ps = "target_posts resolved items"
  let ?f = "\<lambda>p. status_from_post (de_html env) p (post_status_id inst (fst (batch_ids te inst ?ps tab)) p)"
  let ?m = "\<lambda>n. if n < length ?ps then Some (map ?f ?ps ! n) else None"
  obtain locals where l: "fetch_by_ids env c inst mcfg (target_ids resolved items) viewer = Done locals"
      "tab' = snd (batch_ids te inst ?ps tab)" "ss = pick_refs (by_id locals) ?m (item_refs resolved 0 items)"
    using assms r by (auto simp: to_statuses_def split_items_eq from_posts_eq bind_run_Done Let_def)
  have "ss = List.map_filter (\<lambda>x. item_status (by_id locals) ?f (item_target resolved x)) items"
    unfolding l(3) by (rule pick_item_refs) simp
  then show ?thesis using that r l(1,2) by blast
qed

lemma by_id_dom:
  assumes "map (\<lambda>s. st_id (status_of s)) ss = map show_int is" "list_all in_i64 is"
  shows "by_id ss i = None \<longleftrightarrow> i \<notin> set is"
proof -
  have "List.map_filter (\<lambda>s. map_option (\<lambda>i. (i, s)) (status_key s)) ss = zip is ss"
    using assms
  proof (induction ss arbitrary: "is")
    case (Cons s ss)
    then show ?case by (cases "is") (auto simp: status_key_def)
  qed simp
  moreover have "length is = length ss" using assms(1) by (metis length_map)
  ultimately have "dom (by_id ss) = set is"
    unfolding by_id_def dom_hashmap_of by (metis list.set_map map_fst_zip)
  then show ?thesis by blast
qed

lemma in_map_filter: "y \<in> set (List.map_filter f xs) \<longleftrightarrow> (\<exists>x \<in> set xs. f x = Some y)"
  by (force simp: map_filter_def)

lemma map_filter_map_cong:
  "(\<And>x. x \<in> set xs \<Longrightarrow> map_option g (f x) = h x) \<Longrightarrow> map g (List.map_filter f xs) = List.map_filter h xs"
proof (induction xs)
  case (Cons x xs)
  then have "map g (List.map_filter f xs) = List.map_filter h xs" "map_option g (f x) = h x" by simp_all
  then show ?case by (cases "f x"; cases "h x") auto
qed simp

lemma fetched_statuses_ids:
  "fetch_by_ids env c inst mcfg ids viewer = Done ss \<Longrightarrow> s \<in> set ss \<Longrightarrow> \<exists>i. st_id (status_of s) = show_int i"
  by (rule fetch_by_ids_Done, assumption) (use enriched_visible in fastforce)

section \<open>Properties\<close>

text \<open>
  C18: Building the statuses of a page keeps the order of the items. A local item, and a post already
  resolved into a Mastodon status, gives the status of that id when it may be shown and nothing
  otherwise; any other post gives one status under its id in the mapping table, or under its URL
  when it has none. No item is lost, doubled or exchanged, whatever the mixture.
\<close>

theorem to_statuses_in_order:
  assumes "to_statuses env c te inst mcfg items viewer tab = (Done ss, tab')"
    "\<forall>db. c 0 Q_Base = Inr db \<longrightarrow> keys_ok db \<and> (\<forall>s \<in> set (db_statuses db). in_i64 (ds_id s))"
  shows "\<exists>resolved id_map visible. lookup_ids te (provider_pairs items) tab = Done resolved
    \<and> batch_ids te inst (target_posts resolved items) tab = (id_map, tab')
    \<and> (\<forall>db. c 0 Q_Base = Inr db \<longrightarrow> visible = visible_status db)
    \<and> map (\<lambda>s. st_id (status_of s)) ss
      = List.map_filter (\<lambda>x. case item_target resolved x of
            Inl i \<Rightarrow> if visible i then Some (show_int i) else None
          | Inr p \<Rightarrow> Some (post_status_id inst id_map p)) items"
proof -
  obtain resolved locals where r: "lookup_ids te (provider_pairs items) tab = Done resolved"
    "fetch_by_ids env c inst mcfg (target_ids resolved items) viewer = Done locals"
    "tab' = snd (batch_ids te inst (target_posts resolved items) tab)"
    "ss = List.map_filter (\<lambda>x. item_status (by_id locals)
        (\<lambda>p. status_from_post (de_html env) p
           (post_status_id inst (fst (batch_ids te inst (target_posts resolved items) tab)) p))
        (item_target resolved x)) items"
    by (rule to_statuses_Done [OF assms(1)])
  let ?ids = "target_ids resolved items"
  obtain V where V: "\<forall>db. c 0 Q_Base = Inr db \<longrightarrow> V = visible_status db"
    by (metis sum.inject(2))
  have loc: "by_id locals i = None \<longleftrightarrow> \<not> V i" if i: "i \<in> set ?ids" for i
  proof -
    have "?ids \<noteq> []" using i by auto
    then obtain db where db: "c 0 Q_Base = Inr db"
        "map (\<lambda>s. st_id (status_of s)) locals = map show_int (filter (visible_status db) (firsts ?ids))"
      using fetched_in_order [OF r(2)] assms(2) by blast
    have "list_all in_i64 (filter (visible_status db) (firsts ?ids))"
      using assms(2) db(1) by (auto simp: list_all_iff visible_status_def)
    from by_id_dom [OF db(2) this, of i] show ?thesis using i V db(1) by auto
  qed
  have key: "st_id (status_of s) = show_int i" if "by_id locals i = Some s" for i s
  proof -
    have "s \<in> set locals" "status_key s = Some i" using by_id_Some [OF that] by blast+
    then obtain j where "st_id (status_of s) = show_int j" using fetched_statuses_ids [OF r(2)] by blast
    then show ?thesis using \<open>status_key s = Some i\<close> by (simp add: status_key_def parse_i64_show_int split: if_splits)
  qed
  let ?id = "fst (batch_ids te inst (target_posts resolved items) tab)"
  have item: "map_option (\<lambda>s. st_id (status_of s)) (item_status (by_id locals) (\<lambda>p. status_from_post (de_html env) p (post_status_id inst ?id p)) t)
      = (case t of Inl i \<Rightarrow> if V i then Some (show_int i) else None | Inr p \<Rightarrow> Some (post_status_id inst ?id p))"
    if "\<And>i. t = Inl i \<Longrightarrow> i \<in> set ?ids" for t
  proof (cases t)
    case (Inl i)
    then show ?thesis using that [OF Inl] loc [of i] key [of i]
      by (cases "by_id locals i") (auto simp: item_status_def)
  qed (simp add: item_status_def status_from_post_sel)
  have "map (\<lambda>s. st_id (status_of s)) ss = List.map_filter (\<lambda>x. case item_target resolved x of
            Inl i \<Rightarrow> if V i then Some (show_int i) else None
          | Inr p \<Rightarrow> Some (post_status_id inst ?id p)) items"
    unfolding r(4) by (rule map_filter_map_cong) (rule item, force simp: target_ids_def in_map_filter)
  then show ?thesis using r(1,3) V by (intro exI [of _ resolved] exI [of _ ?id] exI [of _ V]) simp
qed

text \<open>A page of one local item and one remote post, over the example database.\<close>

definition remote_post_data :: post_data where
  "remote_post_data = \<lparr>po_provider_id = Some 3, po_provider_domain = Some ''p.test'', po_url = ''u'', po_uri = None,
     po_content = [], po_text = [], po_author = \<lparr>au_handle = ''bob'', au_display_name = [], au_url = [],
       au_avatar_url = None, au_header_url = None, au_emojis = []\<rparr>, po_published_at = 0, po_language = None,
     po_sensitive = False, po_content_warning = None, po_media = [], po_engagement = engagement_default,
     po_link = None, po_tags = [], po_emojis = []\<rparr>"

definition a_remote_post :: post where
  "a_remote_post = Post remote_post_data None None"

definition plain_table :: table_env where
  "plain_table = \<lparr>te_lookup = None, te_mapping = None, te_now = 0, te_gen = [70, 71], te_json = (\<lambda>_. JNull)\<rparr>"

lemma page_example:
  "case to_statuses plain_env detail_conn plain_table ''i.test'' (media_config_new ''i.test'' False)
      [Remote a_remote_post, Local 8, Local 7] None [] of
     (Done ss, tab) \<Rightarrow> map (\<lambda>s. st_id (status_of s)) ss = [''70'', ''7''] \<and> map cs_id tab = [70]
   | _ \<Rightarrow> False"
  by code_simp

theorem to_statuses_in_order_witness:
  "\<exists>ss tab'. to_statuses plain_env detail_conn plain_table ''i.test'' (media_config_new ''i.test'' False)
      [Remote a_remote_post, Local 8, Local 7] None [] = (Done ss, tab')
    \<and> (\<exists>resolved id_map. batch_ids plain_table ''i.test'' (target_posts resolved [Remote a_remote_post, Local 8, Local 7]) []
        = (id_map, tab'))
    \<and> map (\<lambda>s. st_id (status_of s)) ss = [''70'', ''7'']"
proof -
  obtain ss tab' where t: "to_statuses plain_env detail_conn plain_table ''i.test'' (media_config_new ''i.test'' False)
      [Remote a_remote_post, Local 8, Local 7] None [] = (Done ss, tab')" "map (\<lambda>s. st_id (status_of s)) ss = [''70'', ''7'']"
    using page_example by (force split: run.splits prod.splits)
  have "\<forall>db. detail_conn 0 Q_Base = Inr db \<longrightarrow> keys_ok db \<and> (\<forall>s \<in> set (db_statuses db). in_i64 (ds_id s))"
    by (simp add: detail_conn_def detail_db_def keys_ok_def detail_status_def in_i64_def i64_min_def i64_max_def)
  from to_statuses_in_order [OF t(1) this] obtain resolved id_map
    where "batch_ids plain_table ''i.test'' (target_posts resolved [Remote a_remote_post, Local 8, Local 7]) [] = (id_map, tab')"
    by (elim exE conjE)
  then have "\<exists>resolved id_map. batch_ids plain_table ''i.test''
      (target_posts resolved [Remote a_remote_post, Local 8, Local 7]) [] = (id_map, tab')"
    by (intro exI)
  with t show ?thesis by (intro exI [of _ ss] exI [of _ tab'] conjI)
qed

text \<open>The data the table has for a key.\<close>

definition data_of :: "status_table \<Rightarrow> string \<times> int \<rightharpoonup> json" where
  "data_of tab k = map_option cs_post_data (find (\<lambda>r. cs_key r = k) tab)"

lemma find_holds: "find P xs = Some x \<Longrightarrow> P x \<and> x \<in> set xs"
  by (induction xs) (auto split: if_splits)

lemma upsert_data:
  assumes "upsert now i p tab = Inr (j, tab')"
  shows "data_of tab' = (data_of tab)(pm_key p \<mapsto> pm_post_data p)"
proof (cases "find (\<lambda>r. cs_key r = pm_key p) tab")
  case None
  then show ?thesis using assms
    by (auto simp: upsert_def data_of_def fun_eq_iff find_append cs_key_def pm_key_def split: if_splits option.splits)
next
  case (Some r)
  let ?f = "\<lambda>r'. if cs_key r' = pm_key p then r'\<lparr>cs_post_data := pm_post_data p, cs_cached_at := now\<rparr> else r'"
  have t: "tab' = map ?f tab" using assms Some by (auto simp: upsert_def)
  have "data_of tab' k = ((data_of tab)(pm_key p \<mapsto> pm_post_data p)) k" for k
  proof -
    have "find (\<lambda>r. cs_key r = k) (map ?f tab) = map_option ?f (find (\<lambda>r. cs_key r = k) tab)"
      by (rule find_map_keep) simp
    then show ?thesis using Some find_holds [of "\<lambda>r. cs_key r = k" tab]
      by (cases "find (\<lambda>r. cs_key r = k) tab") (auto simp: data_of_def t dest: find_holds)
  qed
  then show ?thesis by blast
qed

lemma upsert_all_data:
  assumes "upsert_all now gen ps tab = Inr (rows, tab')" "distinct (map pm_key ps)" "p \<in> set ps"
  shows "data_of tab' (pm_key p) = Some (pm_post_data p)"
proof -
  have "upsert_all now gen ps tab = Inr (rows, tab') \<Longrightarrow> distinct (map pm_key ps) \<Longrightarrow>
     (\<forall>p \<in> set ps. data_of tab' (pm_key p) = Some (pm_post_data p))
     \<and> (\<forall>k. k \<notin> pm_key ` set ps \<longrightarrow> data_of tab' k = data_of tab k)" for ps gen tab rows
  proof (induction now gen ps tab arbitrary: rows rule: upsert_all.induct)
    case (3 now i gen p ps tab)
    then obtain j tab1 rows' where u: "upsert now i p tab = Inr (j, tab1)" "upsert_all now gen ps tab1 = Inr (rows', tab')"
      by (auto split: sum.splits prod.splits)
    have IH: "(\<forall>p \<in> set ps. data_of tab' (pm_key p) = Some (pm_post_data p))
       \<and> (\<forall>k. k \<notin> pm_key ` set ps \<longrightarrow> data_of tab' k = data_of tab1 k)"
      using 3(1) [OF u(1) refl u(2)] 3(3) by simp
    have "pm_key p \<notin> pm_key ` set ps" using 3(3) by simp
    then have "data_of tab' (pm_key p) = data_of tab1 (pm_key p)" using IH by blast
    then have "data_of tab' (pm_key p) = Some (pm_post_data p)" by (simp add: upsert_data [OF u(1)])
    moreover have "data_of tab' k = data_of tab k" if "k \<notin> pm_key ` set (p # ps)" for k
    proof -
      have "k \<notin> pm_key ` set ps" using that by simp
      then have "data_of tab' k = data_of tab1 k" using IH by blast
      then show ?thesis using that by (simp add: upsert_data [OF u(1)])
    qed
    ultimately show ?case using IH by simp
  qed simp_all
  then show ?thesis using assms by blast
qed

lemma find_distinct:
  "distinct (map f xs) \<Longrightarrow> x \<in> set xs \<Longrightarrow> find (\<lambda>y. f y = f x) xs = Some x"
  by (induction xs) (auto simp: image_iff)

lemma listed_row:
  assumes "table_ok tab" "map_batch te (List.map_filter (mapping_of te inst) posts) tab = Inr (id_map, tab')"
    "p \<in> set posts" "post_pair p = Some (d, r)" "d \<noteq> inst"
  shows "\<exists>i row. id_map (d, r) = Some i \<and> find_by_id i tab' = Some row \<and> cs_key row = (d, r) \<and> cs_post_data row = te_json te p
    \<and> row \<in> set tab' \<and> cs_id row = i"
proof -
  let ?ms = "List.map_filter (mapping_of te inst) posts"
  obtain m where m: "mapping_of te inst p = Some m" "pm_key m = (d, r)" "pm_post_data m = te_json te p"
    using assms(4,5) by (simp add: mapping_of_def pm_key_def)
  have ms: "m \<in> set ?ms" using m(1) assms(3) by (auto simp: in_map_filter)
  then have "?ms \<noteq> []" by auto
  then obtain rows where u: "upsert_all (te_now te) (te_gen te) ?ms tab = Inr (rows, tab')"
      "id_map = map_of rows" "distinct (map pm_key ?ms)"
    using assms(2) by (auto simp: map_batch_def map_posts_def split: option.splits if_splits sum.splits)
  have ok: "table_ok tab'" "map fst rows = map pm_key ?ms" "\<forall>(k, v) \<in> set rows. id_of tab' k = Some v"
    using upsert_all_ok [OF u(1) assms(1)] by blast+
  have "pm_key m \<in> fst ` set rows" using ms ok(2) by (metis image_eqI list.set_map)
  then obtain i where i: "map_of rows (d, r) = Some i" using m(2) by (metis map_of_eq_None_iff not_None_eq)
  then have "id_of tab' (d, r) = Some i" using ok(3) by (fast dest: map_of_SomeD)
  then obtain row where row: "find (\<lambda>x. cs_key x = (d, r)) tab' = Some row" "cs_id row = i"
    by (auto simp: id_of_def)
  have r: "cs_key row = (d, r)" "row \<in> set tab'" using find_holds [OF row(1)] by blast+
  have "find_by_id i tab' = Some row"
    using find_distinct [of cs_id tab' row] r(2) ok(1) row(2) by (simp add: find_by_id_def table_ok_def)
  moreover have "cs_post_data row = te_json te p"
    using upsert_all_data [OF u(1,3) ms] row(1) m(2,3) by (simp add: data_of_def)
  ultimately show ?thesis using r row(2) i u(2) by blast
qed

text \<open>
  C21: What is listed can be opened: when the batch is mapped, every post of another provider is
  listed under a number, and looking this number up in the table, as the status route does, gives
  a row of the same provider and remote id that holds this very post.
\<close>

theorem listed_posts_resolvable:
  assumes "table_ok tab" "map_batch te (List.map_filter (mapping_of te inst) posts) tab = Inr (id_map, tab')"
    "\<forall>row \<in> set tab'. in_i64 (cs_id row)" "p \<in> set posts" "post_pair p = Some (d, r)" "d \<noteq> inst"
  shows "from_posts te env inst posts tab
      = (map (\<lambda>p. status_from_post env p (post_status_id inst id_map p)) posts, tab')
    \<and> (\<exists>i row. status_key (status_from_post env p (post_status_id inst id_map p)) = Some i
        \<and> find_by_id i tab' = Some row \<and> cs_key row = (d, r) \<and> cs_post_data row = te_json te p)"
proof -
  obtain i row where r: "id_map (d, r) = Some i" "find_by_id i tab' = Some row" "cs_key row = (d, r)"
      "cs_post_data row = te_json te p" "row \<in> set tab'" "cs_id row = i"
    using listed_row [OF assms(1,2,4-6)] by blast
  have "status_key (status_from_post env p (post_status_id inst id_map p)) = Some i"
    using r(1,5,6) assms(3,5,6) by (auto simp: status_key_def status_from_post_sel post_status_id_def)
  moreover have "from_posts te env inst posts tab
      = (map (\<lambda>p. status_from_post env p (post_status_id inst id_map p)) posts, tab')"
    by (simp add: from_posts_eq batch_ids_def assms(2))
  ultimately show ?thesis using r by blast
qed

theorem listed_posts_resolvable_witness:
  "\<exists>id_map tab' i row. map_batch plain_table (List.map_filter (mapping_of plain_table ''i.test'') [a_remote_post]) [] = Inr (id_map, tab')
     \<and> find_by_id i tab' = Some row \<and> cs_key row = (''p.test'', 3)"
proof -
  let ?row = "\<lparr>cs_id = 70, cs_provider_domain = ''p.test'', cs_remote_id = 3, cs_post_url = ''u'', cs_post_uri = ''u'',
     cs_post_data = JNull, cs_cached_at = 0, cs_mastodon_local_id = None\<rparr>"
  have b: "map_batch plain_table (List.map_filter (mapping_of plain_table ''i.test'') [a_remote_post]) []
      = Inr ([(''p.test'', 3) \<mapsto> 70], [?row])"
    by (simp add: map_batch_def map_posts_def mapping_of_def post_pair_def a_remote_post_def remote_post_data_def
        plain_table_def upsert_def pm_key_def)
  have "post_pair a_remote_post = Some (''p.test'', 3)"
    by (simp add: post_pair_def a_remote_post_def remote_post_data_def)
  from listed_posts_resolvable [OF _ b _ _ this, of no_urls]
  have "\<exists>i row. find_by_id i [?row] = Some row \<and> cs_key row = (''p.test'', 3)"
    by (auto simp: table_ok_def in_i64_def i64_min_def i64_max_def)
  with b show ?thesis by blast
qed

text \<open>
  C39: When a page names one post of a provider twice (the link timeline does not remove duplicates)
  or the mapping fails otherwise, the table does not change and every post of every other provider
  on the page is listed under its URL, which no other route understands; posts of the instance
  itself keep their ids.
\<close>

theorem duplicate_degrades_page:
  assumes "\<not> distinct (map pm_key (List.map_filter (mapping_of te inst) posts))"
  shows "from_posts te env inst posts tab
    = (map (\<lambda>p. status_from_post env p (post_status_id inst Map.empty p)) posts, tab)
    \<and> (\<forall>p. map_option fst (post_pair p) \<noteq> Some inst \<longrightarrow> post_status_id inst Map.empty p = po_url (post_of p))"
proof -
  have "List.map_filter (mapping_of te inst) posts \<noteq> []" using assms by auto
  then obtain e where "map_batch te (List.map_filter (mapping_of te inst) posts) tab = Inl e"
    using assms by (cases "te_mapping te") (auto simp: map_batch_def map_posts_def)
  then have "from_posts te env inst posts tab
    = (map (\<lambda>p. status_from_post env p (post_status_id inst Map.empty p)) posts, tab)"
    by (simp add: from_posts_eq batch_ids_def)
  then show ?thesis by (auto simp: post_status_id_def split: option.splits)
qed

theorem duplicate_degrades_page_witness:
  "map (\<lambda>s. st_id (status_of s)) (fst (from_posts plain_table no_urls ''i.test'' [a_remote_post, a_remote_post] [])) = [''u'', ''u'']"
proof -
  have d: "\<not> distinct (map pm_key (List.map_filter (mapping_of plain_table ''i.test'') [a_remote_post, a_remote_post]))"
    by (simp add: mapping_of_def post_pair_def a_remote_post_def remote_post_data_def)
  show ?thesis
    by (simp add: duplicate_degrades_page [OF d, THEN conjunct1] status_from_post_sel post_status_id_def)
      (simp add: post_pair_def a_remote_post_def remote_post_data_def)
qed

section \<open>Following the links\<close>

text \<open>
  A client that follows the links: it takes the URL of the entry with \<open>rel="next"\<close> from the header
  and sends the query parameter of this URL with its next request, until a page is empty or has no
  such link.
\<close>

function link_url :: "string \<Rightarrow> string \<Rightarrow> string option" where
  "link_url rel header =
     (case dropWhile (\<lambda>c. c \<noteq> CHR ''<'') header of
        [] \<Rightarrow> None
      | _ # t \<Rightarrow>
          if starts_with (''>; rel='' @ dq @ rel @ dq) (dropWhile (\<lambda>c. c \<noteq> CHR ''>'') t)
          then Some (takeWhile (\<lambda>c. c \<noteq> CHR ''>'') t)
          else link_url rel (dropWhile (\<lambda>c. c \<noteq> CHR ''>'') t))"
  by pat_completeness auto
termination
proof (relation "measure (\<lambda>(rel, header). length header)", simp)
  fix rel header :: string and x t
  assume "dropWhile (\<lambda>c. c \<noteq> CHR ''<'') header = x # t"
  then have "length t < length header" using length_dropWhile_le [of "\<lambda>c. c \<noteq> CHR ''<''" header] by simp
  moreover have "length (dropWhile (\<lambda>c. c \<noteq> CHR ''>'') t) \<le> length t" by (rule length_dropWhile_le)
  ultimately show "((rel, dropWhile (\<lambda>c. c \<noteq> CHR ''>'') t), rel, header) \<in> measure (\<lambda>(rel, header). length header)"
    by simp
qed

declare link_url.simps [simp del]

definition query_value :: "string \<Rightarrow> string \<Rightarrow> string option" where
  "query_value key url =
     (case dropWhile (\<lambda>c. c \<noteq> CHR ''?'') url of [] \<Rightarrow> None | _ # q \<Rightarrow> strip_prefix (key @ ''='') q)"

definition next_max_id :: "string option \<Rightarrow> string option" where
  "next_max_id header = Option.bind (Option.bind header (link_url ''next'')) (query_value ''max_id'')"

fun keyset_pages :: "nat \<Rightarrow> status list \<Rightarrow> nat \<Rightarrow> string \<Rightarrow> string \<Rightarrow> string option \<Rightarrow> status list list" where
  "keyset_pages 0 ss limit dom_name path max_id = []"
| "keyset_pages (Suc n) ss limit dom_name path max_id =
     (case paginate ss limit max_id None None dom_name path of
        (page, header) \<Rightarrow>
          if page = [] then []
          else page # (case next_max_id header of
                         None \<Rightarrow> [] | Some i \<Rightarrow> keyset_pages n ss limit dom_name path (Some i)))"

text \<open>A domain and a path that can stand in a header and in its URL.\<close>

definition plain_address :: "string \<Rightarrow> bool" where
  "plain_address s \<longleftrightarrow> list_all (\<lambda>c. 32 < (of_char c :: nat) \<and> (of_char c :: nat) < 127 \<and> c \<notin> {CHR ''<'', CHR ''>'', CHR ''?''}) s"

lemma drop_until: "c \<notin> set x \<Longrightarrow> dropWhile (\<lambda>y. y \<noteq> c) (x @ c # r) = c # r"
  by (induction x) auto

lemma take_until: "c \<notin> set x \<Longrightarrow> takeWhile (\<lambda>y. y \<noteq> c) (x @ c # r) = x"
  by (induction x) auto

lemma link_url_first:
  assumes "CHR ''>'' \<notin> set u"
  shows "link_url rel (''<'' @ u @ ''>; rel='' @ dq @ rel @ dq @ r) = Some u"
proof -
  have "starts_with (''>; rel='' @ dq @ rel @ dq) (''>; rel='' @ dq @ rel @ dq @ r)"
    unfolding starts_with_iff by (rule exI [of _ r]) simp
  then show ?thesis
    using drop_until [OF assms, of "''; rel='' @ dq @ rel @ dq @ r"] take_until [OF assms, of "''; rel='' @ dq @ rel @ dq @ r"]
    by (subst link_url.simps) simp
qed

lemma query_value_page:
  assumes "CHR ''?'' \<notin> set u"
  shows "query_value key (u @ ''?'' @ key @ ''='' @ i) = Some i"
proof -
  have "dropWhile (\<lambda>y. y \<noteq> CHR ''?'') (u @ ''?'' @ key @ ''='' @ i) = CHR ''?'' # key @ ''='' @ i"
    using drop_until [OF assms, of "key @ ''='' @ i"] by simp
  then show ?thesis using strip_prefix_append [of "key @ ''=''" i] by (simp add: query_value_def)
qed

lemma next_max_id_link:
  assumes "plain_address dom_name" "plain_address path" "CHR ''>'' \<notin> set i"
  shows "next_max_id (Some (page_link dom_name path ''max_id'' i ''next'' @ rest)) = Some i"
proof -
  have p: "CHR ''>'' \<notin> set dom_name" "CHR ''>'' \<notin> set path" "CHR ''?'' \<notin> set dom_name" "CHR ''?'' \<notin> set path"
    using assms(1,2) by (auto simp: plain_address_def list_all_iff)
  let ?u = "''https://'' @ dom_name @ path @ ''?'' @ ''max_id'' @ ''='' @ i"
  have "link_url ''next'' (page_link dom_name path ''max_id'' i ''next'' @ rest) = Some ?u"
    using link_url_first [of ?u "''next''" rest] p assms(3) by (simp add: page_link_def)
  moreover have "query_value ''max_id'' ?u = Some i"
    using query_value_page [of "''https://'' @ dom_name @ path" "''max_id''" i] p by simp
  ultimately show ?thesis by (simp add: next_max_id_def)
qed

text \<open>Numbers are digits, with a sign in front of the negative ones.\<close>

lemma show_int_chars: "c \<in> set (show_int i) \<Longrightarrow> 45 \<le> (of_char c :: nat) \<and> (of_char c :: nat) \<le> 57"
proof -
  have digit: "45 \<le> (of_char (digit_char d) :: nat) \<and> (of_char (digit_char d) :: nat) \<le> 57" if "d < 10" for d
    using that by (simp add: digit_char_def)
  have "45 \<le> (of_char c :: nat) \<and> (of_char c :: nat) \<le> 57" if "c \<in> set (show_nat n)" for n
    using that
  proof (induction n rule: show_nat.induct)
    case (1 n)
    then show ?case using digit by (subst (asm) (2) show_nat.simps) (auto split: if_splits)
  qed
  then show "c \<in> set (show_int i) \<Longrightarrow> 45 \<le> (of_char c :: nat) \<and> (of_char c :: nat) \<le> 57"
    by (auto simp: show_int_def split: if_splits)
qed

definition keyed :: "status list \<Rightarrow> int list \<Rightarrow> bool" where
  "keyed ss is \<longleftrightarrow> map (\<lambda>s. st_id (status_of s)) ss = map show_int is \<and> list_all in_i64 is"

lemma keyed_nth:
  assumes "keyed ss is" "k < length ss"
  shows "st_id (status_of (ss ! k)) = show_int (is ! k)" "in_i64 (is ! k)" "status_key (ss ! k) = Some (is ! k)"
proof -
  have l: "length is = length ss" using assms(1) by (metis keyed_def length_map)
  show s: "st_id (status_of (ss ! k)) = show_int (is ! k)"
    using assms l by (metis (mono_tags, lifting) keyed_def nth_map)
  show i: "in_i64 (is ! k)" using assms l by (auto simp: keyed_def list_all_iff)
  show "status_key (ss ! k) = Some (is ! k)" using i by (simp add: status_key_def s)
qed

lemma paginate_page:
  assumes "paginate ss limit max_id None None dom_name path = (page, header)"
  shows "page = take limit (retain_ids (\<lambda>i b. i < b) max_id ss)"
  using assms by (simp add: paginate_def Let_def retain_ids_def)

lemma paginate_next:
  assumes "paginate ss limit max_id None None dom_name path = (page, header)" "page \<noteq> []"
    and "plain_address dom_name" "plain_address path"
    and "st_id (status_of (last page)) = show_int i" "st_id (status_of (hd page)) = show_int j"
  shows "next_max_id header = Some (show_int i)"
proof -
  let ?ok = "\<lambda>c. 32 \<le> (of_char c :: nat) \<and> (of_char c :: nat) < 127 \<or> (of_char c :: nat) = 9"
  have num: "list_all ?ok (show_int k)" for k using show_int_chars by (fastforce simp: list_all_iff)
  have adr: "list_all ?ok dom_name" "list_all ?ok path"
    using assms(3,4) unfolding plain_address_def by (auto elim!: list.pred_mono_strong)
  have "list_all ?ok (page_link dom_name path key (show_int k) rel)" if "list_all ?ok key" "list_all ?ok rel" for key rel k
    unfolding page_link_def dq_def list_all_append using num adr that by simp
  then have "list_all ?ok (page_link dom_name path ''max_id'' (show_int i) ''next'' @ '', '' @ page_link dom_name path ''min_id'' (show_int j) ''prev'')"
    unfolding list_all_append by simp
  then have "header = Some (page_link dom_name path ''max_id'' (show_int i) ''next'' @ '', '' @ page_link dom_name path ''min_id'' (show_int j) ''prev'')"
    using assms(1,2,5,6) unfolding paginate_def Let_def header_value_def by (auto split: if_splits)
  moreover have "CHR ''>'' \<notin> set (show_int i)" using show_int_chars [of "CHR ''>''" i] by auto
  ultimately show ?thesis using next_max_id_link [OF assms(3,4)] by simp
qed

lemma retain_drop:
  assumes "keyed ss is" "sorted_wrt (\<lambda>x y. y < x) is" "k < length ss"
  shows "retain_ids (\<lambda>i b. i < b) (Some (st_id (status_of (ss ! k)))) ss = drop (Suc k) ss"
proof -
  have l: "length is = length ss" using assms(1) by (metis keyed_def length_map)
  let ?P = "\<lambda>s. case status_key s of None \<Rightarrow> False | Some i \<Rightarrow> i < is ! k"
  have "retain_ids (\<lambda>i b. i < b) (Some (st_id (status_of (ss ! k)))) ss = filter ?P (take (Suc k) ss @ drop (Suc k) ss)"
    using keyed_nth [OF assms(1,3)] by (simp add: retain_ids_def)
  moreover have "filter ?P (take (Suc k) ss) = []"
  proof -
    have "\<not> ?P s" if "s \<in> set (take (Suc k) ss)" for s
    proof -
      obtain j where j: "j < Suc k" "s = ss ! j" using \<open>s \<in> set (take (Suc k) ss)\<close> assms(3)
        by (auto simp: in_set_conv_nth simp del: take_Suc_conv_app_nth)
      then have "is ! k \<le> is ! j"
        using sorted_wrt_nth_less [OF assms(2), of j k] l assms(3) by (cases "j = k") auto
      then show ?thesis using keyed_nth(3) [OF assms(1), of j] j assms(3) by simp
    qed
    then show ?thesis by (simp only: filter_empty_conv) blast
  qed
  moreover have "filter ?P (drop (Suc k) ss) = drop (Suc k) ss"
  proof -
    have "?P s" if "s \<in> set (drop (Suc k) ss)" for s
    proof -
      obtain j where "j < length (drop (Suc k) ss)" "s = drop (Suc k) ss ! j"
        using \<open>s \<in> set (drop (Suc k) ss)\<close> unfolding in_set_conv_nth by blast
      then have j: "Suc k + j < length ss" "s = ss ! (Suc k + j)" by simp_all
      then have "is ! (Suc k + j) < is ! k"
        using sorted_wrt_nth_less [OF assms(2), of k "Suc k + j"] l by simp
      then show ?thesis using keyed_nth(3) [OF assms(1) j(1)] j(2) by simp
    qed
    then show ?thesis by (simp only: filter_id_conv) blast
  qed
  ultimately show ?thesis by (simp only: filter_append append_Nil)
qed

lemma keyset_pages_from:
  assumes "keyed ss is" "sorted_wrt (\<lambda>x y. y < x) is" "0 < limit" "plain_address dom_name" "plain_address path"
    "retain_ids (\<lambda>i b. i < b) max_id ss = drop j ss" "length ss - j < n"
  shows "concat (keyset_pages n ss limit dom_name path max_id) = drop j ss
    \<and> (\<forall>page \<in> set (keyset_pages n ss limit dom_name path max_id). page \<noteq> [] \<and> length page \<le> limit)"
  using assms(6,7)
proof (induction n arbitrary: j max_id)
  case (Suc n)
  obtain page header where pg: "paginate ss limit max_id None None dom_name path = (page, header)"
    by (cases "paginate ss limit max_id None None dom_name path")
  have p: "page = take limit (drop j ss)" using paginate_page [OF pg] Suc.prems(1) by simp
  show ?case
  proof (cases "length ss \<le> j")
    case True
    then show ?thesis using p by (simp add: pg)
  next
    case False
    define k where "k = j + min limit (length ss - j)"
    have k: "j < k" "k \<le> length ss" using False assms(3) by (auto simp: k_def)
    have page: "page \<noteq> []" "page = take (k - j) (drop j ss)" using p False assms(3) by (auto simp: k_def min_def)
    have "last page = ss ! (k - 1)" "hd page = ss ! j"
      using page k by (simp_all add: last_conv_nth hd_conv_nth)
    then have ids: "st_id (status_of (last page)) = show_int (is ! (k - 1))" "st_id (status_of (hd page)) = show_int (is ! j)"
      using keyed_nth(1) [OF assms(1)] k by simp_all
    note nxt = paginate_next [OF pg page(1) assms(4,5) ids]
    have "retain_ids (\<lambda>i b. i < b) (Some (show_int (is ! (k - 1)))) ss = drop k ss"
      using retain_drop [OF assms(1,2), of "k - 1"] keyed_nth(1) [OF assms(1), of "k - 1"] k by simp
    from Suc.IH [OF this] Suc.prems(2) k
    have IH: "concat (keyset_pages n ss limit dom_name path (Some (show_int (is ! (k - 1))))) = drop k ss
      \<and> (\<forall>page \<in> set (keyset_pages n ss limit dom_name path (Some (show_int (is ! (k - 1))))). page \<noteq> [] \<and> length page \<le> limit)"
      by linarith
    have "page @ drop k ss = drop j ss"
      using append_take_drop_id [of "k - j" "drop j ss"] page(2) k by simp
    moreover have "length page \<le> limit" by (simp add: p)
    ultimately show ?thesis using IH page(1) by (simp add: pg nxt)
  qed
qed simp

text \<open>
  C40: A client that follows the \<open>next\<close> link in the \<open>Link\<close> header of each page of a timeline whose
  statuses come in descending order of their ids sees every status once, in order, in pages that
  are not empty and not longer than the limit, and then the links end. (The instance's domain and
  the path are printable and hold no angle bracket or question mark.)
\<close>

theorem keyset_pages_partition:
  assumes "keyed ss is" "sorted_wrt (\<lambda>x y. y < x) is" "0 < limit" "length ss < n"
    and "plain_address dom_name" "plain_address path"
  shows "concat (keyset_pages n ss limit dom_name path None) = ss
    \<and> (\<forall>page \<in> set (keyset_pages n ss limit dom_name path None). page \<noteq> [] \<and> length page \<le> limit)"
  using keyset_pages_from [OF assms(1-3,5,6), of None 0 n] assms(4) by (simp add: retain_ids_def)

definition status_nr :: "int \<Rightarrow> status" where
  "status_nr i = status_from_post no_urls a_remote_post (show_int i)"

lemma status_nr_id [simp]: "st_id (status_of (status_nr i)) = show_int i"
  by (simp add: status_nr_def status_from_post_sel)

theorem keyset_pages_partition_witness:
  "concat (keyset_pages 4 [status_nr 9, status_nr 7, status_nr 5] 2 ''i.test'' ''/p'' None) = [status_nr 9, status_nr 7, status_nr 5]"
proof -
  have "keyed [status_nr 9, status_nr 7, status_nr 5] [9, 7, 5]"
    by (simp add: keyed_def in_i64_def i64_min_def i64_max_def)
  moreover have "plain_address ''i.test''" "plain_address ''/p''" by (simp_all add: plain_address_def)
  ultimately show ?thesis using keyset_pages_partition [of "[status_nr 9, status_nr 7, status_nr 5]" "[9, 7, 5]" 2 4] by simp
qed

text \<open>
  A ranked timeline is not in this order, and then the links lose statuses: when the last status
  of a page has the smallest id of all, the next page is empty, whatever is left. The tag and link
  timelines are ranked and are paginated this way.
\<close>

theorem keyset_loses_ranked:
  assumes "keyed (a # ss) (i # is)" "\<forall>j \<in> set is. i < j" "0 < n" "plain_address dom_name" "plain_address path"
  shows "keyset_pages n (a # ss) 1 dom_name path None = [[a]]"
proof -
  obtain n' where n: "n = Suc n'" using assms(3) by (cases n) auto
  have a: "st_id (status_of a) = show_int i" "in_i64 i" using keyed_nth [OF assms(1), of 0] by simp_all
  have "\<not> (case status_key s of None \<Rightarrow> False | Some x \<Rightarrow> x < i)" if "s \<in> set (a # ss)" for s
  proof -
    obtain k where k: "k < length (a # ss)" "s = (a # ss) ! k" using \<open>s \<in> set (a # ss)\<close> by (metis in_set_conv_nth)
    moreover have "length (i # is) = length (a # ss)" using assms(1) by (metis keyed_def length_map)
    ultimately have "i \<le> (i # is) ! k" using assms(2) by (cases k) (auto simp: less_imp_le)
    then show ?thesis using keyed_nth(3) [OF assms(1) k(1)] k(2) by simp
  qed
  then have none: "retain_ids (\<lambda>i b. i < b) (Some (show_int i)) (a # ss) = []"
    using a by (auto simp: retain_ids_def filter_empty_conv)
  have "keyset_pages m (a # ss) 1 dom_name path (Some (show_int i)) = []" for m
    using none by (cases m; cases "paginate (a # ss) 1 (Some (show_int i)) None None dom_name path")
      (auto dest!: paginate_page)
  moreover obtain page header where pg: "paginate (a # ss) 1 None None None dom_name path = (page, header)"
    by (cases "paginate (a # ss) 1 None None None dom_name path")
  moreover have p: "page = [a]" using paginate_page [OF pg] by (simp add: retain_ids_def)
  moreover have "next_max_id header = Some (show_int i)"
    by (rule paginate_next [OF pg _ assms(4,5)]) (simp_all add: p a(1))
  ultimately show ?thesis by (simp add: n)
qed

theorem keyset_loses_ranked_witness:
  "keyset_pages 9 [status_nr 5, status_nr 9, status_nr 7] 1 ''i.test'' ''/p'' None = [[status_nr 5]]"
  by (rule keyset_loses_ranked [of _ _ 5 "[9, 7]"])
    (simp_all add: keyed_def in_i64_def i64_min_def i64_max_def plain_address_def)

end
