(* ===== verification/Providers.thy ===== *)
theory Providers
  imports Status_Map
begin

text \<open>
  The registry of CommonFeed providers: \<open>crates/state/src/providers\<close> over the tables
  \<open>commonfeed_providers\<close>, \<open>commonfeed_capabilities\<close> and \<open>commonfeed_sources\<close> with the keys and
  checks of the migrations, and the two HTTP handlers that change or read it,
  \<open>apps/server/src/routes/commonfeed\<close>. A statement maps the tables to an error or to the new
  tables. Nothing reads the columns \<open>created_at\<close> and \<open>updated_at\<close>; they are left out. HMAC and hex
  decoding are third-party code and parameters.
\<close>

section \<open>The tables\<close>

record provider_row =
  pw_domain :: string
  pw_name :: string
  pw_status :: "string option"
  pw_enabled :: bool
  pw_base_url :: string
  pw_max_results :: int
  pw_api_key :: "string option"
  pw_request_id :: "string option"
  pw_verify_path :: "string option"

record capability_row =
  cw_provider_domain :: string
  cw_resource :: string
  cw_algorithm :: string
  cw_description :: string
  cw_filters :: "string list"
  cw_embedding_required :: "bool option"
  cw_embedding_models :: "json option"

record source_row =
  sw_route :: string
  sw_provider_domain :: string
  sw_resource :: string
  sw_algorithm :: string
  sw_enabled :: bool

record registry =
  rg_providers :: "provider_row list"
  rg_capabilities :: "capability_row list"
  rg_sources :: "source_row list"

definition cw_key :: "capability_row \<Rightarrow> string \<times> string \<times> string" where
  "cw_key c = (cw_provider_domain c, cw_resource c, cw_algorithm c)"

definition sw_key :: "source_row \<Rightarrow> string \<times> string \<times> string" where
  "sw_key s = (sw_route s, sw_provider_domain s, sw_algorithm s)"

definition sw_capability :: "source_row \<Rightarrow> string \<times> string \<times> string" where
  "sw_capability s = (sw_provider_domain s, sw_resource s, sw_algorithm s)"

definition known_status :: "string option \<Rightarrow> bool" where
  "known_status st \<longleftrightarrow> st \<in> {None, Some ''pending'', Some ''approved'', Some ''failed''}"

text \<open>\<open>INSERT ... ON CONFLICT DO UPDATE\<close>: change the row with the key, or append a new one.\<close>

definition upsert_row :: "('r \<Rightarrow> 'k) \<Rightarrow> 'k \<Rightarrow> ('r \<Rightarrow> 'r) \<Rightarrow> 'r \<Rightarrow> 'r list \<Rightarrow> 'r list" where
  "upsert_row key k change new rows =
     (if list_ex (\<lambda>r. key r = k) rows then map (\<lambda>r. if key r = k then change r else r) rows
      else rows @ [new])"

section \<open>Publishing\<close>

definition upsert_provider :: "string \<Rightarrow> string \<Rightarrow> string \<Rightarrow> int \<Rightarrow> registry \<Rightarrow> state_error + registry" where
  "upsert_provider domain_name name base_url max_results db =
     (if max_results \<le> 0
      then Inl (error_from_sqlx (Database (Some ''23514'') (Some ''commonfeed_providers_max_results_check'')))
      else Inr (db\<lparr>rg_providers := upsert_row pw_domain domain_name
             (\<lambda>p. p\<lparr>pw_name := name, pw_base_url := base_url, pw_max_results := max_results\<rparr>)
             \<lparr>pw_domain = domain_name, pw_name = name, pw_status = None, pw_enabled = True,
              pw_base_url = base_url, pw_max_results = max_results, pw_api_key = None,
              pw_request_id = None, pw_verify_path = None\<rparr> (rg_providers db)\<rparr>))"

text \<open>The struct \<open>Capability\<close> has the columns of the table.\<close>

definition upsert_capability :: "capability_row \<Rightarrow> registry \<Rightarrow> state_error + registry" where
  "upsert_capability cap db =
     (if list_ex (\<lambda>p. pw_domain p = cw_provider_domain cap) (rg_providers db)
      then Inr (db\<lparr>rg_capabilities := upsert_row cw_key (cw_key cap)
             (\<lambda>c. c\<lparr>cw_description := cw_description cap, cw_filters := cw_filters cap,
                  cw_embedding_required := cw_embedding_required cap,
                  cw_embedding_models := cw_embedding_models cap\<rparr>) cap (rg_capabilities db)\<rparr>)
      else Inl (error_from_sqlx (Database (Some ''23503'') (Some ''commonfeed_capabilities_provider_domain_fkey''))))"

definition set_providers :: "string \<Rightarrow> (provider_row \<Rightarrow> provider_row) \<Rightarrow> registry \<Rightarrow> registry" where
  "set_providers domain_name change db =
     db\<lparr>rg_providers := map (\<lambda>p. if pw_domain p = domain_name then change p else p) (rg_providers db)\<rparr>"

text \<open>The check on \<open>status\<close> only meets a row that is changed.\<close>

definition status_check :: "string \<Rightarrow> string \<Rightarrow> registry \<Rightarrow> bool" where
  "status_check domain_name status db \<longleftrightarrow>
     known_status (Some status) \<or> \<not> list_ex (\<lambda>p. pw_domain p = domain_name) (rg_providers db)"

definition status_violation :: state_error where
  "status_violation = error_from_sqlx (Database (Some ''23514'') (Some ''commonfeed_providers_status_check''))"

definition save_registration :: "string \<Rightarrow> string \<Rightarrow> string \<Rightarrow> string \<Rightarrow> string \<Rightarrow> registry \<Rightarrow> state_error + registry" where
  "save_registration domain_name api_key request_id status verify_path db =
     (if status_check domain_name status db
      then Inr (set_providers domain_name (\<lambda>p. p\<lparr>pw_api_key := Some api_key, pw_request_id := Some request_id,
             pw_status := Some status, pw_verify_path := Some verify_path\<rparr>) db)
      else Inl status_violation)"

definition update_status :: "string \<Rightarrow> string \<Rightarrow> registry \<Rightarrow> state_error + registry" where
  "update_status domain_name status db =
     (if status_check domain_name status db
      then Inr (set_providers domain_name (\<lambda>p. p\<lparr>pw_status := Some status\<rparr>) db)
      else Inl status_violation)"

text \<open>
  A conflict changes \<open>enabled\<close> only, so the foreign keys of the row that was not inserted are
  never checked.
\<close>

definition enable_source :: "string \<Rightarrow> string \<Rightarrow> string \<Rightarrow> string \<Rightarrow> registry \<Rightarrow> state_error + registry" where
  "enable_source route domain_name resource algorithm db =
     (let new = \<lparr>sw_route = route, sw_provider_domain = domain_name, sw_resource = resource,
            sw_algorithm = algorithm, sw_enabled = True\<rparr>
      in if list_ex (\<lambda>s. sw_key s = sw_key new) (rg_sources db)
            \<or> list_ex (\<lambda>c. cw_key c = sw_capability new) (rg_capabilities db)
         then Inr (db\<lparr>rg_sources := upsert_row sw_key (sw_key new) (\<lambda>s. s\<lparr>sw_enabled := True\<rparr>) new (rg_sources db)\<rparr>)
         else Inl (error_from_sqlx (Database (Some ''23503'')
                (Some (if list_ex (\<lambda>p. pw_domain p = domain_name) (rg_providers db)
                       then ''commonfeed_sources_provider_domain_resource_algorithm_fkey''
                       else ''commonfeed_sources_provider_domain_fkey'')))))"

text \<open>The number of rows changed, and the tables after.\<close>

definition disable_source :: "string \<Rightarrow> string \<Rightarrow> string \<Rightarrow> registry \<Rightarrow> nat \<times> registry" where
  "disable_source route domain_name algorithm db =
     (let hit = (\<lambda>s. sw_key s = (route, domain_name, algorithm))
      in (length (filter hit (rg_sources db)),
          db\<lparr>rg_sources := map (\<lambda>s. if hit s then s\<lparr>sw_enabled := False\<rparr> else s) (rg_sources db)\<rparr>))"

section \<open>Reading\<close>

record registration =
  rn_api_key :: "string option"
  rn_status :: "string option"

definition find_provider :: "string \<Rightarrow> registry \<Rightarrow> provider_row option" where
  "find_provider domain_name db = find (\<lambda>p. pw_domain p = domain_name) (rg_providers db)"

definition find_base_url :: "string \<Rightarrow> registry \<Rightarrow> string option" where
  "find_base_url domain_name db = map_option pw_base_url (find_provider domain_name db)"

definition find_registration :: "string \<Rightarrow> registry \<Rightarrow> registration option" where
  "find_registration domain_name db =
     map_option (\<lambda>p. \<lparr>rn_api_key = pw_api_key p, rn_status = pw_status p\<rparr>) (find_provider domain_name db)"

text \<open>\<open>usize::try_from(max_results).unwrap_or(100)\<close> and the decoding of a NULL into a \<open>String\<close>.\<close>

definition max_results_usize :: "int \<Rightarrow> nat" where
  "max_results_usize m = (if 0 \<le> m then nat m else 100)"

definition unexpected_null :: state_error where
  "unexpected_null = error_from_sqlx Other_Sqlx"

definition provider_of_row :: "string list \<Rightarrow> provider_row \<Rightarrow> state_error + provider" where
  "provider_of_row filters p =
     (case pw_api_key p of
        None \<Rightarrow> Inl unexpected_null
      | Some key \<Rightarrow> Inr \<lparr>pv_domain = pw_domain p, pv_base_url = pw_base_url p, pv_api_key = key,
          pv_max_results = max_results_usize (pw_max_results p), pv_supported_filters = filters\<rparr>)"

definition usable :: "provider_row \<Rightarrow> bool" where
  "usable p \<longleftrightarrow> pw_status p = Some ''approved'' \<and> pw_enabled p"

definition find_by_domain :: "string \<Rightarrow> registry \<Rightarrow> state_error + provider option" where
  "find_by_domain domain_name db =
     (case find (\<lambda>p. pw_domain p = domain_name \<and> usable p) (rg_providers db) of
        None \<Rightarrow> Inr None
      | Some p \<Rightarrow> map_sum id Some (provider_of_row [] p))"

record bound_provider =
  bp_provider :: provider
  bp_algorithm :: string

definition sources_query :: "string \<Rightarrow> registry \<Rightarrow> (source_row \<times> provider_row \<times> capability_row) list" where
  "sources_query route db =
     [(b, p, c). b \<leftarrow> rg_sources db, p \<leftarrow> rg_providers db, c \<leftarrow> rg_capabilities db,
        pw_domain p = sw_provider_domain b \<and> cw_key c = sw_capability b
        \<and> sw_route b = route \<and> sw_enabled b \<and> usable p]"

text \<open>One row that does not decode fails the whole query.\<close>

fun decode_all :: "('a \<Rightarrow> 'e + 'b) \<Rightarrow> 'a list \<Rightarrow> 'e + 'b list" where
  "decode_all f [] = Inr []"
| "decode_all f (x # xs) =
     (case f x of Inl e \<Rightarrow> Inl e | Inr y \<Rightarrow> map_sum id (\<lambda>ys. y # ys) (decode_all f xs))"

definition bound_of_row :: "source_row \<times> provider_row \<times> capability_row \<Rightarrow> state_error + bound_provider" where
  "bound_of_row row =
     (case row of (b, p, c) \<Rightarrow> map_sum id (\<lambda>v. \<lparr>bp_provider = v, bp_algorithm = sw_algorithm b\<rparr>)
        (provider_of_row (cw_filters c) p))"

definition find_sources :: "string \<Rightarrow> registry \<Rightarrow> state_error + bound_provider list" where
  "find_sources route db = decode_all bound_of_row (sources_query route db)"

section \<open>The handlers\<close>

text \<open>
  What \<open>callback.rs\<close> calls: the parser of the payload, \<open>hex::decode\<close>, the HMAC of a key (or that
  the key is refused), and whether its two statements fail.
\<close>

record callback_env =
  cb_parse :: "string \<Rightarrow> (provider_status \<times> string) option"
  cb_hex :: "string \<Rightarrow> string option"
  cb_mac :: "string \<Rightarrow> (string \<Rightarrow> string) option"
  cb_select_fails :: bool
  cb_update_fails :: bool

definition find_api_key :: "string \<Rightarrow> registry \<Rightarrow> string option" where
  "find_api_key domain_name db =
     Option.bind (find (\<lambda>p. pw_domain p = domain_name \<and> pw_api_key p \<noteq> None) (rg_providers db)) pw_api_key"

definition verify_signature :: "callback_env \<Rightarrow> string \<Rightarrow> string \<Rightarrow> string \<Rightarrow> bool" where
  "verify_signature env api_key body signature =
     (case Option.bind (strip_prefix ''sha256='' signature) (cb_hex env) of
        None \<Rightarrow> False
      | Some expected \<Rightarrow>
          (case cb_mac env api_key of None \<Rightarrow> False | Some mac \<Rightarrow> mac body = expected))"

text \<open>The checks of \<open>handle\<close>, up to the update; \<open>Inl\<close> is the status of an early return.\<close>

definition callback_check :: "callback_env \<Rightarrow> string option \<Rightarrow> string \<Rightarrow> registry \<Rightarrow> nat + string \<times> string" where
  "callback_check env signature body db =
     (case signature of
        None \<Rightarrow> Inl 401
      | Some sg \<Rightarrow>
          (case cb_parse env body of
             None \<Rightarrow> Inl 400
           | Some (status, domain_name) \<Rightarrow>
               (case if cb_select_fails env then None else find_api_key domain_name db of
                  None \<Rightarrow> Inl 404
                | Some api_key \<Rightarrow>
                    if \<not> verify_signature env api_key body sg then Inl 401
                    else Inr (domain_name, provider_status_str status))))"

definition callback_handle :: "callback_env \<Rightarrow> string option \<Rightarrow> string \<Rightarrow> registry \<Rightarrow> nat \<times> registry" where
  "callback_handle env signature body db =
     (case callback_check env signature body db of
        Inl code \<Rightarrow> (code, db)
      | Inr (domain_name, status) \<Rightarrow>
          if cb_update_fails env then (500, db)
          else (case update_status domain_name status db of Inl e \<Rightarrow> (500, db) | Inr db' \<Rightarrow> (200, db')))"

definition verify_handle :: "bool \<Rightarrow> string \<Rightarrow> registry \<Rightarrow> nat" where
  "verify_handle query_fails token db =
     (let verify_path = ''/.well-known/commonfeed/'' @ token;
          exists = \<not> query_fails \<and> list_ex (\<lambda>p. pw_verify_path p = Some verify_path
             \<and> pw_status p = Some ''pending'') (rg_providers db)
      in if exists then 200 else 404)"

end
