(* ===== verification/Cli.thy ===== *)
theory Cli
  imports Providers
begin

text \<open>
  The operator's tool \<open>feedctl\<close>: \<open>apps/cli/src/provider.rs\<close> and \<open>apps/cli/src/main.rs\<close>. Every statement
  commits on its own, so a command that fails keeps what it did before. The HTTP client is a
  parameter: a request that fails at any point (sending, status, body) is \<open>None\<close>. The result of a
  command that succeeds is what it prints, one text per \<open>println!\<close>.
\<close>

section \<open>What providers answer\<close>

record embedding_def =
  ed_required :: bool
  ed_models :: json

record capability_def =
  cd_resource :: string
  cd_algorithm :: string
  cd_description :: string
  cd_filters :: "string list"
  cd_embedding :: "embedding_def option"

record well_known =
  wk_name :: string
  wk_domain :: string
  wk_version :: string
  wk_base_url :: string
  wk_capabilities :: "capability_def list"
  wk_max_results :: int
  wk_rate_limits :: "nat option"   \<comment> \<open>\<open>requests_per_hour\<close>\<close>
  wk_contact :: "string option"

record register_request =
  rq_domain :: string
  rq_name :: string
  rq_callback_url :: string

record register_response =
  rr_request_id :: string
  rr_status :: string
  rr_api_key :: string
  rr_verify_path :: string

record status_response =
  sr_status :: string
  sr_message :: "string option"

text \<open>The three requests: the well-known document, the registration, and its status.\<close>

record web =
  web_well_known :: "string \<Rightarrow> well_known option"
  web_register :: "string \<Rightarrow> register_request \<Rightarrow> register_response option"
  web_status :: "string \<Rightarrow> string \<Rightarrow> status_response option"

datatype cli_error =
    Http_Error
  | Db_Error state_error
  | Not_Registered
  | Provider_Not_Found
  | Source_Not_Found
  | Bad_Capability

type_synonym 'a command = "(cli_error + 'a) \<times> registry"

text \<open>A statement of the registry as a step of a command.\<close>

definition statement :: "(registry \<Rightarrow> state_error + registry) \<Rightarrow> registry \<Rightarrow> unit command" where
  "statement f db = (case f db of Inl e \<Rightarrow> (Inl (Db_Error e), db) | Inr db' \<Rightarrow> (Inr (), db'))"

definition and_then :: "'a command \<Rightarrow> ('a \<Rightarrow> registry \<Rightarrow> 'b command) \<Rightarrow> 'b command" where
  "and_then c f = (case c of (Inl e, db) \<Rightarrow> (Inl e, db) | (Inr x, db) \<Rightarrow> f x db)"

section \<open>Providers\<close>

definition well_known_url :: "string \<Rightarrow> string" where
  "well_known_url domain_name =
     (let base = (if str_contains domain_name ''://'' then domain_name else ''https://'' @ domain_name)
      in base @ ''/.well-known/commonfeed'')"

definition fetch_well_known :: "web \<Rightarrow> string \<Rightarrow> registry \<Rightarrow> well_known command" where
  "fetch_well_known web domain_name db =
     (case web_well_known web (well_known_url domain_name) of
        None \<Rightarrow> (Inl Http_Error, db) | Some wk \<Rightarrow> (Inr wk, db))"

definition capability_of :: "well_known \<Rightarrow> capability_def \<Rightarrow> capability_row" where
  "capability_of wk cap =
     \<lparr>cw_provider_domain = wk_domain wk, cw_resource = cd_resource cap, cw_algorithm = cd_algorithm cap,
      cw_description = cd_description cap, cw_filters = cd_filters cap,
      cw_embedding_required = map_option ed_required (cd_embedding cap),
      cw_embedding_models = map_option ed_models (cd_embedding cap)\<rparr>"

fun statements :: "(registry \<Rightarrow> state_error + registry) list \<Rightarrow> registry \<Rightarrow> unit command" where
  "statements [] db = (Inr (), db)"
| "statements (f # fs) db = and_then (statement f db) (\<lambda>_. statements fs)"

definition sync_provider :: "web \<Rightarrow> string \<Rightarrow> registry \<Rightarrow> well_known command" where
  "sync_provider web domain_name db =
     and_then (fetch_well_known web domain_name db) (\<lambda>wk db.
       and_then (statement (upsert_provider (wk_domain wk) (wk_name wk) (wk_base_url wk) (wk_max_results wk)) db) (\<lambda>_ db.
         and_then (statements (map (\<lambda>cap. upsert_capability (capability_of wk cap)) (wk_capabilities wk)) db)
           (\<lambda>_ db. (Inr wk, db))))"

section \<open>What is printed\<close>

definition newline :: string where "newline = [CHR 0x0A]"
definition em_dash :: string where "em_dash = [CHR 0xE2, CHR 0x80, CHR 0x94]"
definition left_arrow :: string where "left_arrow = [CHR 0xE2, CHR 0x86, CHR 0x90]"

definition capability_lines :: "capability_def \<Rightarrow> string list" where
  "capability_lines cap =
     (''  '' @ cd_resource cap @ ''/'' @ cd_algorithm cap @ '' '' @ em_dash @ '' '' @ cd_description cap)
     # (if cd_filters cap = [] then [] else [''    filters: '' @ join '', '' (cd_filters cap)])"

definition print_well_known :: "well_known \<Rightarrow> string list" where
  "print_well_known wk =
     [wk_name wk @ '' ('' @ wk_domain wk @ '')'',
      ''Spec version: '' @ wk_version wk,
      ''Base URL:     '' @ wk_base_url wk,
      newline @ ''Capabilities:'']
     @ concat (map capability_lines (wk_capabilities wk))
     @ [newline @ ''Max results: '' @ show_int (wk_max_results wk)]
     @ (case wk_rate_limits wk of None \<Rightarrow> [] | Some n \<Rightarrow> [''Rate limit:  '' @ show_nat n @ '' req/hr''])
     @ (case wk_contact wk of None \<Rightarrow> [] | Some c \<Rightarrow> [''Contact:     '' @ c])"

text \<open>\<open>{:<n}\<close> fills up with spaces to \<open>n\<close> characters; the bytes 80 to BF go on with a character.\<close>

definition char_count :: "string \<Rightarrow> nat" where
  "char_count s = length (filter (\<lambda>c. \<not> (128 \<le> (of_char c :: nat) \<and> (of_char c :: nat) < 192)) s)"

definition pad :: "nat \<Rightarrow> string \<Rightarrow> string" where
  "pad n s = s @ replicate (n - char_count s) CHR '' ''"

definition provider_line :: "string \<Rightarrow> string \<Rightarrow> string \<Rightarrow> string \<Rightarrow> string \<Rightarrow> string" where
  "provider_line a b c d e = join '' '' [pad 35 a, pad 25 b, pad 10 c, pad 8 d, e]"

text \<open>\<open>ORDER BY domain\<close> in the collation of the database, an argument.\<close>

definition cli_list :: "(provider_row list \<Rightarrow> provider_row list) \<Rightarrow> registry \<Rightarrow> string list" where
  "cli_list by_domain db =
     (let rows = by_domain (rg_providers db) in
      if rows = [] then [''no providers configured'']
      else [provider_line ''DOMAIN'' ''NAME'' ''STATUS'' ''ENABLED'' ''API KEY'', replicate 110 CHR ''-'']
        @ map (\<lambda>r. provider_line (pw_domain r) (pw_name r) (unwrap_or (pw_status r) em_dash)
            (if pw_enabled r then ''yes'' else ''no'') (unwrap_or (pw_api_key r) em_dash)) rows
        @ [newline @ show_nat (length rows) @ '' provider(s)''])"

section \<open>Commands on providers\<close>

definition cli_info :: "web \<Rightarrow> string \<Rightarrow> registry \<Rightarrow> string list command" where
  "cli_info web domain_name db = and_then (fetch_well_known web domain_name db) (\<lambda>wk db. (Inr (print_well_known wk), db))"

definition cli_add :: "web \<Rightarrow> string \<Rightarrow> registry \<Rightarrow> string list command" where
  "cli_add web domain_name db =
     and_then (sync_provider web domain_name db) (\<lambda>wk db. (Inr (print_well_known wk @ [newline @ ''Provider added.'']), db))"

text \<open>A statement, and what is printed after it.\<close>

definition say :: "string list \<Rightarrow> unit command \<Rightarrow> string list command" where
  "say out c = and_then c (\<lambda>_ db. (Inr out, db))"

definition cli_register :: "web \<Rightarrow> string \<Rightarrow> string \<Rightarrow> string \<Rightarrow> registry \<Rightarrow> string list command" where
  "cli_register web domain_name instance_domain instance_name db =
     and_then (sync_provider web domain_name db) (\<lambda>wk db.
       case web_register web (wk_base_url wk @ ''/register'')
              \<lparr>rq_domain = instance_domain, rq_name = instance_name,
               rq_callback_url = ''https://'' @ instance_domain @ ''/commonfeed/callback''\<rparr> of
         None \<Rightarrow> (Inl Http_Error, db)
       | Some r \<Rightarrow>
           say [''Registration submitted!'', ''  Status:      '' @ rr_status r, ''  Verify path: '' @ rr_verify_path r,
                newline @ ''The provider will verify your domain. Check status with:'',
                ''  feedctl provider status '' @ domain_name]
             (statement (save_registration (wk_domain wk) (rr_api_key r) (rr_request_id r)
                (rr_status r) (rr_verify_path r)) db))"

definition cli_status :: "web \<Rightarrow> string \<Rightarrow> registry \<Rightarrow> string list command" where
  "cli_status web domain_name db =
     and_then (sync_provider web domain_name db) (\<lambda>wk db.
       case find_registration (wk_domain wk) db of
         None \<Rightarrow> (Inl Not_Registered, db)
       | Some rn \<Rightarrow>
           if rn_status rn = Some ''approved'' then (Inr [''Already approved.''], db)
           else (case rn_api_key rn of
             None \<Rightarrow> (Inl Not_Registered, db)
           | Some key \<Rightarrow>
               (case web_status web (wk_base_url wk @ ''/register/status'') key of
                  None \<Rightarrow> (Inl Http_Error, db)
                | Some resp \<Rightarrow>
                    say ([''Status: '' @ sr_status resp]
                         @ (case sr_message resp of None \<Rightarrow> [] | Some m \<Rightarrow> [''Message: '' @ m]))
                      (statement (update_status (wk_domain wk) (sr_status resp)) db))))"

section \<open>Which provider the operator means\<close>

text \<open>
  SQL's \<open>LIKE\<close>: a percent sign stands for any text, an underscore for one character, a backslash
  takes the next character literally. (A pattern that ends in a backslash is an error; the
  patterns here end in a percent sign.)
\<close>

fun sql_like :: "string \<Rightarrow> string \<Rightarrow> bool" where
  "sql_like [] s = (s = [])"
| "sql_like (p # ps) [] = (p = CHR ''%'' \<and> sql_like ps [])"
| "sql_like (p # ps) (c # cs) =
     (if p = CHR ''%'' then sql_like ps (c # cs) \<or> sql_like (p # ps) cs
      else if p = CHR ''_'' then sql_like ps cs
      else if p = CHR 0x5C then (case ps of [] \<Rightarrow> False | q # qs \<Rightarrow> q = c \<and> sql_like qs cs)
      else p = c \<and> sql_like ps cs)"

definition find_by_base_url :: "string \<Rightarrow> registry \<Rightarrow> string option" where
  "find_by_base_url candidate db =
     map_option pw_domain (find (\<lambda>p. trim_end_char CHR ''/'' (pw_base_url p) = candidate
       \<or> sql_like (candidate @ ''/%'') (pw_base_url p)) (rg_providers db))"

fun first_some :: "('a \<Rightarrow> 'b option) \<Rightarrow> 'a list \<Rightarrow> 'b option" where
  "first_some f [] = None"
| "first_some f (x # xs) = (case f x of Some y \<Rightarrow> Some y | None \<Rightarrow> first_some f xs)"

definition resolve_domain :: "string \<Rightarrow> registry \<Rightarrow> string command" where
  "resolve_domain input db =
     (if find_base_url input db \<noteq> None then (Inr input, db)
      else let candidates = (if str_contains input ''://'' then [trim_end_char CHR ''/'' input]
             else [''https://'' @ trim_end_char CHR ''/'' input, ''http://'' @ trim_end_char CHR ''/'' input])
        in case first_some (\<lambda>c. find_by_base_url c db) candidates of
             Some d \<Rightarrow> (Inr d, db) | None \<Rightarrow> (Inl Provider_Not_Found, db))"

section \<open>Enabling and disabling\<close>

definition parse_capability :: "string \<Rightarrow> (string \<times> string) option" where
  "parse_capability capability = split_once ''/'' capability"

definition cli_enable :: "string \<Rightarrow> string \<Rightarrow> string \<Rightarrow> registry \<Rightarrow> string list command" where
  "cli_enable route provider_arg capability db =
     (case parse_capability capability of
        None \<Rightarrow> (Inl Bad_Capability, db)
      | Some (resource, algorithm) \<Rightarrow>
          and_then (resolve_domain provider_arg db) (\<lambda>d db.
            say [''Enabled '' @ route @ '' '' @ left_arrow @ '' '' @ d @ '' ('' @ capability @ '')'']
              (statement (enable_source route d resource algorithm) db)))"

definition cli_disable :: "string \<Rightarrow> string \<Rightarrow> string \<Rightarrow> registry \<Rightarrow> string list command" where
  "cli_disable route provider_arg capability db =
     (case parse_capability capability of
        None \<Rightarrow> (Inl Bad_Capability, db)
      | Some (resource, algorithm) \<Rightarrow>
          and_then (resolve_domain provider_arg db) (\<lambda>d db.
            let (rows, db') = disable_source route d algorithm db
            in (if rows = 0 then Inl Source_Not_Found
                else Inr [''Disabled '' @ route @ '' '' @ left_arrow @ '' '' @ d @ '' ('' @ capability @ '')''], db')))"

end
