(* ===== verification/Registry.thy ===== *)
theory Registry
  imports Cli
begin

text \<open>
  The registry over time: a step relation over the tables and the status updates under way (a
  provider's callback and \<open>feedctl provider status\<close> read the key first and write the status later,
  and other statements run in between), its invariant, and what the feeds and the operator get.
\<close>

section \<open>Steps\<close>

record world =
  wd_registry :: registry
  wd_updates :: "(string \<times> string) list"

definition empty_world :: world where
  "empty_world = \<lparr>wd_registry = \<lparr>rg_providers = [], rg_capabilities = [], rg_sources = []\<rparr>, wd_updates = []\<rparr>"

inductive registry_step :: "world \<Rightarrow> world \<Rightarrow> bool" where
  provider: "upsert_provider d n u m (wd_registry w) = Inr db \<Longrightarrow> registry_step w (w\<lparr>wd_registry := db\<rparr>)"
| capability: "upsert_capability cap (wd_registry w) = Inr db \<Longrightarrow> registry_step w (w\<lparr>wd_registry := db\<rparr>)"
| registration: "save_registration d key req st path (wd_registry w) = Inr db
    \<Longrightarrow> registry_step w (w\<lparr>wd_registry := db\<rparr>)"
| enable: "enable_source route d resource alg (wd_registry w) = Inr db \<Longrightarrow> registry_step w (w\<lparr>wd_registry := db\<rparr>)"
| disable: "disable_source route d alg (wd_registry w) = (n, db) \<Longrightarrow> registry_step w (w\<lparr>wd_registry := db\<rparr>)"
| callback: "callback_check env sg body (wd_registry w) = Inr (d, st)
    \<Longrightarrow> registry_step w (w\<lparr>wd_updates := (d, st) # wd_updates w\<rparr>)"
| status: "find_registration d (wd_registry w) = Some rn \<Longrightarrow> rn_api_key rn = Some key
    \<Longrightarrow> web_status (web :: web) (u @ ''/register/status'') key = Some resp
    \<Longrightarrow> registry_step w (w\<lparr>wd_updates := (d, sr_status resp) # wd_updates w\<rparr>)"
| update: "(d, st) \<in> set (wd_updates w) \<Longrightarrow> update_status d st (wd_registry w) = Inr db
    \<Longrightarrow> registry_step w (w\<lparr>wd_registry := db, wd_updates := remove1 (d, st) (wd_updates w)\<rparr>)"

inductive registry_reachable :: "world \<Rightarrow> bool" where
  start: "registry_reachable empty_world"
| step: "registry_reachable w \<Longrightarrow> registry_step w w' \<Longrightarrow> registry_reachable w'"

section \<open>The invariant\<close>

definition provider_ok :: "provider_row \<Rightarrow> bool" where
  "provider_ok p \<longleftrightarrow> known_status (pw_status p) \<and> pw_enabled p \<and> 0 < pw_max_results p
     \<and> (pw_status p \<noteq> None \<longrightarrow> pw_api_key p \<noteq> None)"

definition keyed :: "string \<Rightarrow> registry \<Rightarrow> bool" where
  "keyed d db \<longleftrightarrow> (\<exists>p \<in> set (rg_providers db). pw_domain p = d \<and> pw_api_key p \<noteq> None)"

definition registry_ok :: "registry \<Rightarrow> bool" where
  "registry_ok db \<longleftrightarrow> distinct (map pw_domain (rg_providers db)) \<and> (\<forall>p \<in> set (rg_providers db). provider_ok p)
     \<and> distinct (map cw_key (rg_capabilities db))
     \<and> cw_provider_domain ` set (rg_capabilities db) \<subseteq> pw_domain ` set (rg_providers db)
     \<and> distinct (map sw_key (rg_sources db))
     \<and> sw_capability ` set (rg_sources db) \<subseteq> cw_key ` set (rg_capabilities db)"

definition world_ok :: "world \<Rightarrow> bool" where
  "world_ok w \<longleftrightarrow> registry_ok (wd_registry w) \<and> (\<forall>(d, st) \<in> set (wd_updates w). keyed d (wd_registry w))"

lemma upsert_row_keys:
  assumes "\<And>r. key (change r) = key r" "key new = k"
  shows "map key (upsert_row key k change new rows)
    = map key rows @ (if list_ex (\<lambda>r. key r = k) rows then [] else [k])"
  using assms by (auto simp: upsert_row_def)

lemma upsert_row_distinct:
  assumes "\<And>r. key (change r) = key r" "key new = k"
  shows "distinct (map key (upsert_row key k change new rows)) = distinct (map key rows)"
  unfolding upsert_row_keys [OF assms] by (auto simp: list_ex_iff)

lemma set_upsert_row:
  "r \<in> set (upsert_row key k change new rows) \<Longrightarrow> r \<in> set rows \<or> r = new \<or> (\<exists>r' \<in> set rows. key r' = k \<and> r = change r')"
  by (auto simp: upsert_row_def split: if_splits)

lemma upsert_row_image:
  assumes "\<And>r. f (change r) = f r"
  shows "f ` set (upsert_row key k change new rows)
    = f ` set rows \<union> (if list_ex (\<lambda>r. key r = k) rows then {} else {f new})"
proof -
  have "map f (map (\<lambda>r. if key r = k then change r else r) rows) = map f rows" using assms by simp
  then have "f ` set (map (\<lambda>r. if key r = k then change r else r) rows) = f ` set rows" by (metis set_map)
  then show ?thesis by (auto simp: upsert_row_def)
qed

lemma set_providers_keys [simp]:
  assumes "\<And>p. pw_domain (change p) = pw_domain p"
  shows "map pw_domain (rg_providers (set_providers d change db)) = map pw_domain (rg_providers db)"
  using assms by (simp add: set_providers_def)

lemma set_providers_sel [simp]:
  "rg_capabilities (set_providers d change db) = rg_capabilities db"
  "rg_sources (set_providers d change db) = rg_sources db"
  by (simp_all add: set_providers_def)

lemma set_providers_ok:
  assumes "registry_ok db" "\<And>p. pw_domain (change p) = pw_domain p"
    "\<And>p. p \<in> set (rg_providers db) \<Longrightarrow> pw_domain p = d \<Longrightarrow> provider_ok p \<Longrightarrow> provider_ok (change p)"
  shows "registry_ok (set_providers d change db)"
proof -
  have "map pw_domain (rg_providers (set_providers d change db)) = map pw_domain (rg_providers db)"
    by (rule set_providers_keys) (rule assms(2))
  moreover from this have "pw_domain ` set (rg_providers (set_providers d change db)) = pw_domain ` set (rg_providers db)"
    by (metis set_map)
  moreover have "\<forall>p \<in> set (rg_providers (set_providers d change db)). provider_ok p"
    using assms(1,3) by (auto simp: registry_ok_def set_providers_def)
  ultimately show ?thesis using assms(1) by (simp add: registry_ok_def)
qed

text \<open>Each statement keeps the invariant of the tables and every stored key.\<close>

lemma provider_statement:
  assumes "upsert_provider d n u m db = Inr db'" "registry_ok db"
  shows "registry_ok db' \<and> (keyed k db \<longrightarrow> keyed k db')"
proof -
  let ?new = "\<lparr>pw_domain = d, pw_name = n, pw_status = None, pw_enabled = True, pw_base_url = u,
      pw_max_results = m, pw_api_key = None, pw_request_id = None, pw_verify_path = None\<rparr>"
  let ?chg = "\<lambda>p. p\<lparr>pw_name := n, pw_base_url := u, pw_max_results := m\<rparr>"
  let ?rows = "upsert_row pw_domain d ?chg ?new (rg_providers db)"
  have m: "0 < m" and db': "db' = db\<lparr>rg_providers := ?rows\<rparr>"
    using assms(1) by (simp_all add: upsert_provider_def split: if_splits)
  have sel: "rg_providers db' = ?rows" "rg_capabilities db' = rg_capabilities db" "rg_sources db' = rg_sources db"
    by (simp_all add: db')
  have c: "\<And>p. pw_domain (?chg p) = pw_domain p" by simp
  have "distinct (map pw_domain ?rows)"
    using upsert_row_distinct [of pw_domain ?chg ?new d "rg_providers db"] assms(2) by (simp add: registry_ok_def)
  moreover have "\<forall>p \<in> set ?rows. provider_ok p"
    using assms(2) m by (auto dest!: set_upsert_row simp: registry_ok_def provider_ok_def known_status_def)
  moreover have "pw_domain ` set (rg_providers db) \<subseteq> pw_domain ` set ?rows"
    unfolding upsert_row_image [of pw_domain ?chg, OF c] by blast
  moreover from this have "cw_provider_domain ` set (rg_capabilities db) \<subseteq> pw_domain ` set ?rows"
    using assms(2) unfolding registry_ok_def by (meson subset_trans)
  ultimately have "registry_ok db'" using assms(2) by (simp only: registry_ok_def sel)
  moreover have key: "keyed k db'" if old: "keyed k db"
  proof -
    obtain p where p: "p \<in> set (rg_providers db)" "pw_domain p = k" "pw_api_key p \<noteq> None"
      using old unfolding keyed_def by blast
    show ?thesis
    proof (cases "list_ex (\<lambda>p. pw_domain p = d) (rg_providers db)")
      case True
      then have "(if pw_domain p = d then ?chg p else p) \<in> set ?rows" using p(1) by (simp add: upsert_row_def)
      then show ?thesis using p(2,3) by (intro keyed_def [THEN iffD2] bexI) (auto simp: db')
    next
      case False
      then show ?thesis using p by (auto simp: keyed_def db' upsert_row_def)
    qed
  qed
  ultimately show ?thesis by blast
qed

lemma capability_statement:
  assumes "upsert_capability cap db = Inr db'" "registry_ok db"
  shows "registry_ok db' \<and> (keyed k db \<longrightarrow> keyed k db')"
proof -
  let ?chg = "\<lambda>c. c\<lparr>cw_description := cw_description cap, cw_filters := cw_filters cap,
     cw_embedding_required := cw_embedding_required cap, cw_embedding_models := cw_embedding_models cap\<rparr>"
  let ?rows = "upsert_row cw_key (cw_key cap) ?chg cap (rg_capabilities db)"
  have e: "list_ex (\<lambda>p. pw_domain p = cw_provider_domain cap) (rg_providers db)"
    and db': "db' = db\<lparr>rg_capabilities := ?rows\<rparr>"
    using assms(1) by (simp_all add: upsert_capability_def split: if_splits)
  have sel: "rg_providers db' = rg_providers db" "rg_capabilities db' = ?rows" "rg_sources db' = rg_sources db"
    by (simp_all add: db')
  have c: "\<And>c. cw_key (?chg c) = cw_key c" "\<And>c. cw_provider_domain (?chg c) = cw_provider_domain c"
    by (simp_all add: cw_key_def)
  have "distinct (map cw_key ?rows)"
    using upsert_row_distinct [of cw_key ?chg cap "cw_key cap" "rg_capabilities db", OF c(1)] assms(2)
    by (simp add: registry_ok_def)
  moreover have "cw_provider_domain ` set ?rows \<subseteq> pw_domain ` set (rg_providers db)"
    unfolding upsert_row_image [of cw_provider_domain ?chg, OF c(2)]
    using assms(2) e by (auto simp: registry_ok_def list_ex_iff) (metis imageI)
  moreover have "cw_key ` set (rg_capabilities db) \<subseteq> cw_key ` set ?rows"
    unfolding upsert_row_image [of cw_key ?chg, OF c(1)] by blast
  moreover from this have "sw_capability ` set (rg_sources db) \<subseteq> cw_key ` set ?rows"
    using assms(2) unfolding registry_ok_def by (meson subset_trans)
  ultimately have "registry_ok db'" using assms(2) by (simp only: registry_ok_def sel) blast
  then show ?thesis by (simp add: db' keyed_def)
qed

lemma set_providers_keyed:
  assumes "keyed k db" "\<And>p. pw_domain (change p) = pw_domain p"
    "\<And>p. pw_api_key p \<noteq> None \<Longrightarrow> pw_api_key (change p) \<noteq> None"
  shows "keyed k (set_providers d change db)"
proof -
  obtain p where p: "p \<in> set (rg_providers db)" "pw_domain p = k" "pw_api_key p \<noteq> None"
    using assms(1) unfolding keyed_def by blast
  let ?p = "if pw_domain p = d then change p else p"
  have "?p \<in> set (rg_providers (set_providers d change db))" using p(1) by (simp add: set_providers_def)
  moreover have "pw_domain ?p = k" "pw_api_key ?p \<noteq> None" using p(2,3) assms(2,3) by simp_all
  ultimately show ?thesis unfolding keyed_def by blast
qed

lemma registration_statement:
  assumes "save_registration d key req st path db = Inr db'" "registry_ok db"
  shows "registry_ok db' \<and> (keyed k db \<longrightarrow> keyed k db')"
proof -
  let ?chg = "\<lambda>p. p\<lparr>pw_api_key := Some key, pw_request_id := Some req, pw_status := Some st, pw_verify_path := Some path\<rparr>"
  have chk: "status_check d st db" and db': "db' = set_providers d ?chg db"
    using assms(1) by (simp_all add: save_registration_def split: if_splits)
  have "registry_ok db'" unfolding db'
    by (rule set_providers_ok [OF assms(2)])
      (use chk in \<open>auto simp: provider_ok_def status_check_def list_ex_iff\<close>)
  moreover have "keyed k db \<Longrightarrow> keyed k db'" unfolding db' by (erule set_providers_keyed) simp_all
  ultimately show ?thesis by blast
qed

lemma status_statement:
  assumes "update_status d st db = Inr db'" "registry_ok db" "keyed d db"
  shows "registry_ok db' \<and> (keyed k db \<longrightarrow> keyed k db')"
proof -
  let ?chg = "\<lambda>p. p\<lparr>pw_status := Some st\<rparr>"
  have chk: "status_check d st db" and db': "db' = set_providers d ?chg db"
    using assms(1) by (simp_all add: update_status_def split: if_splits)
  obtain q where q: "q \<in> set (rg_providers db)" "pw_domain q = d" "pw_api_key q \<noteq> None"
    using assms(3) by (auto simp: keyed_def)
  have "pw_api_key p \<noteq> None" if "p \<in> set (rg_providers db)" "pw_domain p = d" for p
    using q that assms(2) by (metis distinct_map inj_on_eq_iff registry_ok_def)
  then have "registry_ok db'" unfolding db'
    by (intro set_providers_ok [OF assms(2)])
      (use chk in \<open>auto simp: provider_ok_def status_check_def list_ex_iff\<close>)
  moreover have "keyed k db \<Longrightarrow> keyed k db'" unfolding db' by (erule set_providers_keyed) simp_all
  ultimately show ?thesis by blast
qed

lemma enable_statement:
  assumes "enable_source route d resource alg db = Inr db'" "registry_ok db"
  shows "registry_ok db' \<and> (keyed k db \<longrightarrow> keyed k db')"
proof -
  let ?new = "\<lparr>sw_route = route, sw_provider_domain = d, sw_resource = resource, sw_algorithm = alg, sw_enabled = True\<rparr>"
  let ?chg = "\<lambda>s. s\<lparr>sw_enabled := True\<rparr>"
  let ?rows = "upsert_row sw_key (sw_key ?new) ?chg ?new (rg_sources db)"
  have ex: "list_ex (\<lambda>s. sw_key s = sw_key ?new) (rg_sources db) \<or> list_ex (\<lambda>c. cw_key c = sw_capability ?new) (rg_capabilities db)"
    and db': "db' = db\<lparr>rg_sources := ?rows\<rparr>"
    using assms(1) by (simp_all add: enable_source_def Let_def split: if_splits)
  have c: "\<And>s. sw_key (?chg s) = sw_key s" "\<And>s. sw_capability (?chg s) = sw_capability s"
    by (simp_all add: sw_key_def sw_capability_def)
  have "distinct (map sw_key ?rows)"
    using upsert_row_distinct [of sw_key ?chg ?new "sw_key ?new" "rg_sources db", OF c(1)] assms(2)
    by (simp add: registry_ok_def)
  moreover have "sw_capability ` set ?rows \<subseteq> cw_key ` set (rg_capabilities db)"
  proof (cases "list_ex (\<lambda>s. sw_key s = sw_key ?new) (rg_sources db)")
    case True
    then show ?thesis
      unfolding upsert_row_image [of sw_capability ?chg, OF c(2)] using assms(2) by (simp add: registry_ok_def)
  next
    case False
    with ex have "sw_capability ?new \<in> cw_key ` set (rg_capabilities db)"
      by (simp add: list_ex_iff) (metis imageI)
    with False show ?thesis
      unfolding upsert_row_image [of sw_capability ?chg, OF c(2)] using assms(2) by (simp add: registry_ok_def)
  qed
  ultimately show ?thesis using assms(2) by (auto simp: registry_ok_def db' keyed_def)
qed

lemma disable_statement:
  assumes "disable_source route d alg db = (n, db')" "registry_ok db"
  shows "registry_ok db' \<and> (keyed k db \<longrightarrow> keyed k db')"
proof -
  let ?f = "\<lambda>s. if sw_key s = (route, d, alg) then s\<lparr>sw_enabled := False\<rparr> else s"
  have db': "db' = db\<lparr>rg_sources := map ?f (rg_sources db)\<rparr>"
    using assms(1) by (auto simp: disable_source_def Let_def)
  have c: "\<And>s. sw_key (?f s) = sw_key s" "\<And>s. sw_capability (?f s) = sw_capability s"
    by (simp_all add: sw_key_def sw_capability_def)
  have m: "map sw_key (rg_sources db') = map sw_key (rg_sources db)"
      "map sw_capability (rg_sources db') = map sw_capability (rg_sources db)"
    unfolding db' by (simp_all add: c del: list.set_map)
  moreover from this have "sw_capability ` set (rg_sources db') = sw_capability ` set (rg_sources db)"
    by (metis set_map)
  moreover have "rg_providers db' = rg_providers db" "rg_capabilities db' = rg_capabilities db"
    by (simp_all add: db')
  ultimately show ?thesis using assms(2) by (simp only: registry_ok_def keyed_def) blast
qed

lemma find_member: "find P xs = Some x \<Longrightarrow> x \<in> set xs \<and> P x"
  by (induction xs) (auto split: if_splits)

lemma callback_keyed:
  assumes "callback_check env sg body db = Inr (d, st)"
  shows "keyed d db"
proof -
  obtain key where "find_api_key d db = Some key"
    using assms by (auto simp: callback_check_def split: option.splits prod.splits if_splits)
  then show ?thesis by (force simp: find_api_key_def keyed_def bind_eq_Some_conv dest: find_member)
qed

lemma world_step_ok: "registry_step w w' \<Longrightarrow> world_ok w \<Longrightarrow> world_ok w'"
proof (induction rule: registry_step.induct)
  case (provider d n u m w db)
  then show ?case using provider_statement [OF provider(1)] by (fastforce simp: world_ok_def)
next
  case (capability cap w db)
  then show ?case using capability_statement [OF capability(1)] by (fastforce simp: world_ok_def)
next
  case (registration d key req st path w db)
  then show ?case using registration_statement [OF registration(1)] by (fastforce simp: world_ok_def)
next
  case (enable route d resource alg w db)
  then show ?case using enable_statement [OF enable(1)] by (fastforce simp: world_ok_def)
next
  case (disable route d alg w n db)
  then show ?case using disable_statement [OF disable(1)] by (fastforce simp: world_ok_def)
next
  case (callback env sg body w d st)
  then show ?case using callback_keyed [OF callback(1)] by (auto simp: world_ok_def)
next
  case (status d w rn key web u st)
  then have "keyed d (wd_registry w)"
    by (force simp: find_registration_def find_provider_def keyed_def dest: find_member)
  with status show ?case by (auto simp: world_ok_def)
next
  case (update d st w db)
  then have "keyed d (wd_registry w)" by (auto simp: world_ok_def)
  with update show ?case using status_statement [OF update(2)] notin_set_remove1
    by (fastforce simp: world_ok_def dest: notin_set_remove1)
qed

lemma registry_reachable_ok: "registry_reachable w \<Longrightarrow> world_ok w"
proof (induction rule: registry_reachable.induct)
  case start
  show ?case by (simp add: empty_world_def world_ok_def registry_ok_def)
next
  case (step w w')
  then show ?case by (blast intro: world_step_ok)
qed

section \<open>What the feeds read\<close>

lemma concat_unique:
  assumes "distinct (map key xs)" "x \<in> set xs"
  shows "concat (map (\<lambda>c. if key c = key x then f c else []) xs) = f x"
  using assms
proof (induction xs)
  case (Cons y ys)
  show ?case
  proof (cases "y = x")
    case True
    then have "\<forall>c \<in> set ys. key c \<noteq> key x"
      using Cons.prems(1) by (auto simp: image_iff)
    then have "concat (map (\<lambda>c. if key c = key x then f c else []) ys) = []" by auto
    then show ?thesis using True by simp
  next
    case False
    then show ?thesis using Cons by auto
  qed
qed simp

definition active :: "string \<Rightarrow> registry \<Rightarrow> source_row \<Rightarrow> bool" where
  "active route db s \<longleftrightarrow> sw_route s = route \<and> sw_enabled s
     \<and> (\<exists>p \<in> set (rg_providers db). pw_domain p = sw_provider_domain s \<and> usable p)"

text \<open>The one provider and the one capability of a source.\<close>

lemma source_parts:
  assumes "registry_ok db" "s \<in> set (rg_sources db)"
  obtains (parts) p c where "p \<in> set (rg_providers db)" "pw_domain p = sw_provider_domain s"
    "c \<in> set (rg_capabilities db)" "cw_key c = sw_capability s" "provider_ok p"
proof -
  have "sw_capability s \<in> cw_key ` set (rg_capabilities db)"
    using assms unfolding registry_ok_def by blast
  then obtain c where c: "c \<in> set (rg_capabilities db)" "cw_key c = sw_capability s" by auto
  then have "cw_provider_domain c \<in> pw_domain ` set (rg_providers db)"
    using assms(1) unfolding registry_ok_def by blast
  then obtain p where "p \<in> set (rg_providers db)" "pw_domain p = cw_provider_domain c" by auto
  moreover from c have "cw_provider_domain c = sw_provider_domain s" by (simp add: cw_key_def sw_capability_def)
  ultimately show thesis using c assms(1) parts unfolding registry_ok_def by metis
qed

definition source_rows :: "string \<Rightarrow> registry \<Rightarrow> source_row \<Rightarrow> (source_row \<times> provider_row \<times> capability_row) list" where
  "source_rows route db s = concat (map (\<lambda>p. if pw_domain p = sw_provider_domain s then
      concat (map (\<lambda>c. if cw_key c = sw_capability s then
        (if sw_route s = route \<and> sw_enabled s \<and> usable p then [(s, p, c)] else []) else [])
        (rg_capabilities db)) else []) (rg_providers db))"

lemma sources_query_eq: "sources_query route db = concat (map (source_rows route db) (rg_sources db))"
proof -
  have "concat (map (\<lambda>c. if P \<and> cw_key c = k \<and> Q then [(b, p, c)] else []) cs)
      = (if P then concat (map (\<lambda>c. if cw_key c = k then (if Q then [(b, p, c)] else []) else []) cs) else [])"
    for P Q k and b :: source_row and p :: provider_row and cs
    by (induction cs) auto
  then show ?thesis by (simp add: sources_query_def source_rows_def [abs_def])
qed

lemma source_rows_one:
  assumes "registry_ok db" "s \<in> set (rg_sources db)" "p \<in> set (rg_providers db)"
    "pw_domain p = sw_provider_domain s" "c \<in> set (rg_capabilities db)" "cw_key c = sw_capability s"
  shows "source_rows route db s = (if active route db s then [(s, p, c)] else [])"
proof -
  have d: "distinct (map pw_domain (rg_providers db))" "distinct (map cw_key (rg_capabilities db))"
    using assms(1) by (simp_all add: registry_ok_def)
  have "q = p" if "q \<in> set (rg_providers db)" "pw_domain q = sw_provider_domain s" for q
    using that assms(3,4) d(1) by (metis distinct_map inj_on_eq_iff)
  then have "active route db s = (sw_route s = route \<and> sw_enabled s \<and> usable p)"
    using assms(3,4) unfolding active_def by blast
  then have a: "(if active route db s then [(s, p, c)] else [])
      = (if sw_route s = route \<and> sw_enabled s \<and> usable p then [(s, p, c)] else [])" by simp
  show ?thesis
    unfolding a source_rows_def concat_unique [OF d(1) assms(3), unfolded assms(4)]
    by (rule concat_unique [OF d(2) assms(5), unfolded assms(6)])
qed

text \<open>The provider of a source, as the query decodes it.\<close>

definition bound_to :: "registry \<Rightarrow> source_row \<Rightarrow> bound_provider \<Rightarrow> bool" where
  "bound_to db s b \<longleftrightarrow> bp_algorithm b = sw_algorithm s
     \<and> (\<exists>p \<in> set (rg_providers db). usable p \<and> pw_domain p = sw_provider_domain s
        \<and> pv_domain (bp_provider b) = pw_domain p \<and> pv_base_url (bp_provider b) = pw_base_url p
        \<and> pw_api_key p = Some (pv_api_key (bp_provider b))
        \<and> int (pv_max_results (bp_provider b)) = pw_max_results p
        \<and> (\<exists>c \<in> set (rg_capabilities db). cw_key c = sw_capability s
             \<and> pv_supported_filters (bp_provider b) = cw_filters c))"

lemma find_sources_bound:
  assumes "registry_ok db"
  shows "\<exists>bs. find_sources route db = Inr bs \<and> list_all2 (bound_to db) (filter (active route db) (rg_sources db)) bs"
proof -
  have "\<exists>bs. decode_all bound_of_row (concat (map (source_rows route db) ss)) = Inr bs
      \<and> list_all2 (bound_to db) (filter (active route db) ss) bs"
    if "set ss \<subseteq> set (rg_sources db)" for ss
    using that
  proof (induction ss)
    case (Cons s ss)
    from Cons.prems have "set ss \<subseteq> set (rg_sources db)" by simp
    from Cons.IH [OF this] obtain bs where
        bs: "decode_all bound_of_row (concat (map (source_rows route db) ss)) = Inr bs"
        "list_all2 (bound_to db) (filter (active route db) ss) bs" by blast
    have s: "s \<in> set (rg_sources db)" using Cons.prems by simp
    then obtain p c where pc: "p \<in> set (rg_providers db)" "pw_domain p = sw_provider_domain s"
        "c \<in> set (rg_capabilities db)" "cw_key c = sw_capability s" "provider_ok p"
      by (rule source_parts [OF assms])
    have q: "source_rows route db s = (if active route db s then [(s, p, c)] else [])"
      by (rule source_rows_one [OF assms s pc(1-4)])
    show ?case
    proof (cases "active route db s")
      case False
      then show ?thesis using bs q by simp
    next
      case True
      then obtain p' where p': "p' \<in> set (rg_providers db)" "pw_domain p' = sw_provider_domain s" "usable p'"
        by (auto simp: active_def)
      then have "p' = p" using pc(1,2) assms unfolding registry_ok_def by (metis distinct_map inj_on_eq_iff)
      with p' have u: "usable p" by simp
      then obtain key where key: "pw_api_key p = Some key" and m: "0 < pw_max_results p"
        using pc(5) by (auto simp: usable_def provider_ok_def)
      let ?b = "\<lparr>bp_provider = \<lparr>pv_domain = pw_domain p, pv_base_url = pw_base_url p, pv_api_key = key,
          pv_max_results = max_results_usize (pw_max_results p), pv_supported_filters = cw_filters c\<rparr>,
          bp_algorithm = sw_algorithm s\<rparr>"
      have "bound_of_row (s, p, c) = Inr ?b" by (simp add: bound_of_row_def provider_of_row_def key)
      moreover have "bound_to db s ?b"
        using pc u key m by (auto simp: bound_to_def max_results_usize_def)
      moreover have "concat (map (source_rows route db) (s # ss)) = (s, p, c) # concat (map (source_rows route db) ss)"
        using q True by simp
      ultimately show ?thesis using bs True by (intro exI [of _ "?b # bs"]) simp
    qed
  qed simp
  then show ?thesis unfolding find_sources_def sources_query_eq by blast
qed

section \<open>Registering a provider\<close>

text \<open>What the synchronisation and the statement after it leave in the tables.\<close>

lemma upsert_row_there:
  "\<exists>r \<in> set (upsert_row key k change new rows). r = new \<or> (\<exists>r' \<in> set rows. key r' = k \<and> r = change r')"
proof (cases "list_ex (\<lambda>r. key r = k) rows")
  case True
  then obtain r where r: "r \<in> set rows" "key r = k" by (auto simp: list_ex_iff)
  then have "(if key r = k then change r else r) \<in> set (upsert_row key k change new rows)"
    using True by (simp add: upsert_row_def)
  with r show ?thesis by auto
qed (simp add: upsert_row_def)

lemma set_providers_member:
  assumes "p \<in> set (rg_providers db)" "pw_domain p = d"
  shows "change p \<in> set (rg_providers (set_providers d change db))"
proof -
  have "(if pw_domain p = d then change p else p) \<in> set (rg_providers (set_providers d change db))"
    using assms(1) by (simp add: set_providers_def)
  with assms(2) show ?thesis by simp
qed

lemma upsert_provider_row:
  assumes "upsert_provider d n u m db = Inr db'"
  shows "\<exists>p \<in> set (rg_providers db'). pw_domain p = d \<and> pw_base_url p = u"
proof -
  let ?new = "\<lparr>pw_domain = d, pw_name = n, pw_status = None, pw_enabled = True, pw_base_url = u,
      pw_max_results = m, pw_api_key = None, pw_request_id = None, pw_verify_path = None\<rparr>"
  let ?chg = "\<lambda>p. p\<lparr>pw_name := n, pw_base_url := u, pw_max_results := m\<rparr>"
  have "rg_providers db' = upsert_row pw_domain d ?chg ?new (rg_providers db)"
    using assms by (auto simp: upsert_provider_def split: if_splits)
  moreover obtain r where "r \<in> set (upsert_row pw_domain d ?chg ?new (rg_providers db))"
      "r = ?new \<or> (\<exists>r' \<in> set (rg_providers db). pw_domain r' = d \<and> r = ?chg r')"
    using upsert_row_there [of pw_domain d ?chg ?new "rg_providers db"] by blast
  ultimately show ?thesis by (intro bexI [of _ r]) auto
qed

lemma upsert_row_old: "key r \<noteq> k \<Longrightarrow> r \<in> set rows \<Longrightarrow> r \<in> set (upsert_row key k change new rows)"
  by (force simp: upsert_row_def)

definition has_capability :: "string \<times> string \<times> string \<Rightarrow> registry \<Rightarrow> bool" where
  "has_capability k db \<longleftrightarrow> k \<in> cw_key ` set (rg_capabilities db)"

lemma upsert_capability_keys:
  assumes "upsert_capability cap db = Inr db'"
  shows "cw_key ` set (rg_capabilities db') = insert (cw_key cap) (cw_key ` set (rg_capabilities db))"
    and "rg_providers db' = rg_providers db" and "rg_sources db' = rg_sources db"
proof -
  let ?chg = "\<lambda>c. c\<lparr>cw_description := cw_description cap, cw_filters := cw_filters cap,
     cw_embedding_required := cw_embedding_required cap, cw_embedding_models := cw_embedding_models cap\<rparr>"
  have db': "db' = db\<lparr>rg_capabilities := upsert_row cw_key (cw_key cap) ?chg cap (rg_capabilities db)\<rparr>"
    using assms by (simp add: upsert_capability_def split: if_splits)
  have c: "\<And>c. cw_key (?chg c) = cw_key c" by (simp add: cw_key_def)
  show "cw_key ` set (rg_capabilities db') = insert (cw_key cap) (cw_key ` set (rg_capabilities db))"
    using upsert_row_image [of cw_key ?chg cw_key "cw_key cap" cap "rg_capabilities db", OF c]
    by (cases "list_ex (\<lambda>c. cw_key c = cw_key cap) (rg_capabilities db)")
      (simp_all add: db' list_ex_iff, metis imageI insert_absorb)
  show "rg_providers db' = rg_providers db" "rg_sources db' = rg_sources db" by (simp_all add: db')
qed

lemma and_then_Inr: "and_then c f = (Inr y, db') \<longleftrightarrow> (\<exists>x db. c = (Inr x, db) \<and> f x db = (Inr y, db'))"
  by (auto simp: and_then_def split: prod.splits sum.splits)

lemma say_Inr: "say out c = (Inr out', db) \<longleftrightarrow> c = (Inr (), db) \<and> out' = out"
  by (auto simp: say_def and_then_Inr)

lemma statement_Inr: "statement f db = (Inr y, db') \<longleftrightarrow> f db = Inr db'"
  by (auto simp: statement_def split: sum.splits)

lemma capabilities_synced:
  assumes "statements (map (\<lambda>cap. upsert_capability (capability_of wk cap)) caps) db = (Inr y, db')" "registry_ok db"
  shows "registry_ok db' \<and> rg_providers db' = rg_providers db \<and> rg_sources db' = rg_sources db
    \<and> (\<forall>cap \<in> set caps. has_capability (wk_domain wk, cd_resource cap, cd_algorithm cap) db')
    \<and> (\<forall>k. has_capability k db \<longrightarrow> has_capability k db')"
  using assms
proof (induction caps arbitrary: db)
  case (Cons cap caps)
  then obtain db1 where 1: "upsert_capability (capability_of wk cap) db = Inr db1"
      "statements (map (\<lambda>cap. upsert_capability (capability_of wk cap)) caps) db1 = (Inr y, db')"
    by (auto simp: and_then_Inr statement_Inr)
  have ok: "registry_ok db1" using capability_statement [OF 1(1) Cons.prems(2)] by blast
  have k: "cw_key (capability_of wk cap) = (wk_domain wk, cd_resource cap, cd_algorithm cap)"
    by (simp add: cw_key_def capability_of_def)
  show ?case
    using Cons.IH [OF 1(2) ok] upsert_capability_keys [OF 1(1)] by (auto simp: has_capability_def k)
qed simp

lemma synced:
  assumes "sync_provider web d db = (Inr wk, db')" "registry_ok db"
  shows "web_well_known web (well_known_url d) = Some wk \<and> registry_ok db'
    \<and> (\<exists>p \<in> set (rg_providers db'). pw_domain p = wk_domain wk \<and> pw_base_url p = wk_base_url wk)
    \<and> rg_sources db' = rg_sources db
    \<and> (\<forall>cap \<in> set (wk_capabilities wk). has_capability (wk_domain wk, cd_resource cap, cd_algorithm cap) db')"
proof -
  obtain db1 where 1: "web_well_known web (well_known_url d) = Some wk"
      "upsert_provider (wk_domain wk) (wk_name wk) (wk_base_url wk) (wk_max_results wk) db = Inr db1"
      "statements (map (\<lambda>cap. upsert_capability (capability_of wk cap)) (wk_capabilities wk)) db1 = (Inr (), db')"
    using assms(1) by (auto simp: sync_provider_def and_then_Inr statement_Inr fetch_well_known_def split: option.splits)
  have ok: "registry_ok db1" using provider_statement [OF 1(2) assms(2)] by blast
  have "rg_sources db1 = rg_sources db" using 1(2) by (auto simp: upsert_provider_def split: if_splits)
  then show ?thesis using capabilities_synced [OF 1(3) ok] 1(1) upsert_provider_row [OF 1(2)] by auto
qed

section \<open>Properties\<close>

text \<open>
  C8: Whatever the operator and the providers do, in any order and interleaving of their
  statements, reading the sources of a route succeeds (no approved provider is without a key) and
  gives each enabled source of an approved provider exactly once, with that provider's address,
  key and limit and with the filters of the capability the source is bound to.
\<close>

theorem registry_sources_readable:
  assumes "registry_reachable w"
  shows "\<exists>bs. find_sources route (wd_registry w) = Inr bs
    \<and> list_all2 (bound_to (wd_registry w)) (filter (active route (wd_registry w)) (rg_sources (wd_registry w))) bs"
  using registry_reachable_ok [OF assms] by (simp add: world_ok_def find_sources_bound)

text \<open>
  C14: A provider's callback changes its status, and is answered 200, exactly when its signature is
  the hex form of the MAC of the body under the key stored for the provider it names and both
  statements of the database succeed; whatever else arrives changes nothing at all and is answered
  with an error, 500 only for a call that is signed rightly.
\<close>

theorem callback_authentic:
  "let (code, db') = callback_handle env sg body db;
       signed = (\<lambda>st d. \<exists>key h mac. sg = Some (''sha256='' @ h) \<and> cb_parse env body = Some (st, d)
          \<and> \<not> cb_select_fails env \<and> find_api_key d db = Some key
          \<and> cb_mac env key = Some mac \<and> cb_hex env h = Some (mac body))
   in (\<forall>st d. signed st d \<and> \<not> cb_update_fails env \<longrightarrow>
         code = 200 \<and> db' = set_providers d (\<lambda>p. p\<lparr>pw_status := Some (provider_status_str st)\<rparr>) db)
    \<and> (\<forall>st d. signed st d \<and> cb_update_fails env \<longrightarrow> code = 500 \<and> db' = db)
    \<and> ((\<nexists>st d. signed st d) \<longrightarrow> code \<in> {400, 401, 404} \<and> db' = db)"
proof -
  have k: "known_status (Some (provider_status_str st))" for st
    by (cases st) (simp_all add: known_status_def)
  show ?thesis
  proof (cases "callback_check env sg body db")
    case (Inl code)
    moreover have "code \<in> {400, 401, 404}"
      using Inl by (auto simp: callback_check_def split: option.splits if_splits)
    moreover have "callback_check env sg body db \<noteq> Inl code"
      if "sg = Some (''sha256='' @ h)" "cb_parse env body = Some (st, d)" "\<not> cb_select_fails env" "find_api_key d db = Some key"
        "cb_mac env key = Some mac" "cb_hex env h = Some (mac body)" for h st d key mac
      unfolding callback_check_def verify_signature_def using that by simp
    ultimately show ?thesis by (auto simp: callback_handle_def Let_def)
  next
    case (Inr r)
    then obtain st d key h mac where s: "sg = Some (''sha256='' @ h)" "cb_parse env body = Some (st, d)"
        "\<not> cb_select_fails env" "find_api_key d db = Some key" "cb_mac env key = Some mac" "cb_hex env h = Some (mac body)"
        "r = (d, provider_status_str st)"
      by (auto simp: callback_check_def verify_signature_def bind_eq_Some_conv strip_prefix_Some split: option.splits if_splits)
    then show ?thesis using Inr by (auto simp: callback_handle_def Let_def update_status_def status_check_def k)
  qed
qed

text \<open>Where the keys are unique, the stored key is the key of the row.\<close>

lemma find_api_key_ok:
  assumes "registry_ok db" "p \<in> set (rg_providers db)" "pw_domain p = d" "pw_api_key p = Some key"
  shows "find_api_key d db = Some key"
proof (cases "find (\<lambda>p. pw_domain p = d \<and> pw_api_key p \<noteq> None) (rg_providers db)")
  case None
  then show ?thesis using assms(2-4) by (auto simp: find_None_iff)
next
  case (Some q)
  from find_member [OF Some] have "q \<in> set (rg_providers db)" "pw_domain q = d" by simp_all
  then have "q = p" using assms(1-3) unfolding registry_ok_def by (metis distinct_map inj_on_eq_iff)
  with Some assms(4) show ?thesis by (simp add: find_api_key_def)
qed

lemma registered:
  assumes "cli_register web d inst nm db = (Inr out, db1)" "registry_ok db"
    "web_well_known web (well_known_url d) = Some wk"
    "web_register web (wk_base_url wk @ ''/register'')
       \<lparr>rq_domain = inst, rq_name = nm, rq_callback_url = ''https://'' @ inst @ ''/commonfeed/callback''\<rparr> = Some r"
  shows "registry_ok db1 \<and> rg_sources db1 = rg_sources db
    \<and> (\<exists>p \<in> set (rg_providers db1). pw_domain p = wk_domain wk \<and> pw_base_url p = wk_base_url wk
         \<and> pw_api_key p = Some (rr_api_key r))
    \<and> (\<forall>cap \<in> set (wk_capabilities wk). has_capability (wk_domain wk, cd_resource cap, cd_algorithm cap) db1)"
proof -
  obtain wk' db0 where sync: "sync_provider web d db = (Inr wk', db0)"
    using assms(1) unfolding cli_register_def and_then_Inr by blast
  note s = synced [OF sync assms(2)]
  have wk: "wk' = wk" using s assms(3) by simp
  have save: "save_registration (wk_domain wk) (rr_api_key r) (rr_request_id r) (rr_status r) (rr_verify_path r) db0 = Inr db1"
    using assms(1,4) unfolding cli_register_def sync and_then_def
    by (auto simp: wk and_then_def say_Inr statement_Inr)
  have "registry_ok db1" using registration_statement [OF save] s by blast
  moreover have db1: "db1 = set_providers (wk_domain wk) (\<lambda>p. p\<lparr>pw_api_key := Some (rr_api_key r),
      pw_request_id := Some (rr_request_id r), pw_status := Some (rr_status r), pw_verify_path := Some (rr_verify_path r)\<rparr>) db0"
    using save by (simp add: save_registration_def split: if_splits)
  moreover have "\<exists>p \<in> set (rg_providers db1). pw_domain p = wk_domain wk \<and> pw_base_url p = wk_base_url wk
         \<and> pw_api_key p = Some (rr_api_key r)"
  proof -
    obtain p where p: "p \<in> set (rg_providers db0)" "pw_domain p = wk_domain wk" "pw_base_url p = wk_base_url wk"
      using s wk by blast
    from p(2,3) show ?thesis
      unfolding db1 by (intro bexI [OF _ set_providers_member [OF p(1,2)]]) simp
  qed
  moreover have "rg_sources db1 = rg_sources db"
    "\<forall>cap \<in> set (wk_capabilities wk). has_capability (wk_domain wk, cd_resource cap, cd_algorithm cap) db1"
    using s by (simp_all add: wk db1 has_capability_def)
  ultimately show ?thesis by blast
qed

lemma find_slash: "CHR ''/'' \<notin> set r \<Longrightarrow> find_str ''/'' (r @ CHR ''/'' # a) = Some (length r)"
  by (induction r) (auto simp: starts_with_def)

lemma parse_capability_slash:
  "CHR ''/'' \<notin> set r \<Longrightarrow> parse_capability (r @ ''/'' @ a) = Some (r, a)"
  by (simp add: parse_capability_def split_once_def find_slash)

lemma resolve_known: "p \<in> set (rg_providers db) \<Longrightarrow> resolve_domain (pw_domain p) db = (Inr (pw_domain p), db)"
  by (auto simp: resolve_domain_def find_base_url_def find_provider_def find_None_iff)

lemma enabled_source:
  assumes "registry_ok db" "has_capability (d, res, alg) db" "\<forall>s \<in> set (rg_sources db). sw_key s \<noteq> (route, d, alg)"
    "p \<in> set (rg_providers db)" "pw_domain p = d" "usable p"
  shows "\<exists>db' bs b. enable_source route d res alg db = Inr db' \<and> find_sources route db' = Inr bs
    \<and> b \<in> set bs \<and> pv_domain (bp_provider b) = d \<and> pv_base_url (bp_provider b) = pw_base_url p
    \<and> pw_api_key p = Some (pv_api_key (bp_provider b)) \<and> bp_algorithm b = alg"
proof -
  let ?s = "\<lparr>sw_route = route, sw_provider_domain = d, sw_resource = res, sw_algorithm = alg, sw_enabled = True\<rparr>"
  let ?db = "db\<lparr>rg_sources := rg_sources db @ [?s]\<rparr>"
  have no: "\<not> list_ex (\<lambda>s. sw_key s = sw_key ?s) (rg_sources db)"
    using assms(3) by (auto simp: list_ex_iff sw_key_def)
  have cap: "list_ex (\<lambda>c. cw_key c = sw_capability ?s) (rg_capabilities db)"
    using assms(2) by (auto simp: has_capability_def list_ex_iff sw_capability_def)
  have e: "enable_source route d res alg db = Inr ?db"
    using no cap by (simp add: enable_source_def Let_def upsert_row_def)
  then have ok: "registry_ok ?db" using enable_statement [OF e assms(1)] by blast
  have act: "active route ?db ?s" using assms(4-6) by (auto simp: active_def)
  from find_sources_bound [OF ok, of route] obtain bs where
    bs: "find_sources route ?db = Inr bs" "list_all2 (bound_to ?db) (filter (active route ?db) (rg_sources ?db)) bs" by blast
  have "filter (active route ?db) (rg_sources ?db) = filter (active route ?db) (rg_sources db) @ [?s]"
    using act by simp
  with bs(2) obtain bs1 b where b: "bs = bs1 @ [b]" "bound_to ?db ?s b"
    by (auto simp: list_all2_append1 list_all2_Cons1)
  then obtain q where q: "q \<in> set (rg_providers db)" "pw_domain q = d" "pv_domain (bp_provider b) = pw_domain q"
      "pv_base_url (bp_provider b) = pw_base_url q" "pw_api_key q = Some (pv_api_key (bp_provider b))" "bp_algorithm b = alg"
    by (auto simp: bound_to_def)
  have "q = p" using q(1,2) assms(1,4,5) unfolding registry_ok_def by (metis distinct_map inj_on_eq_iff)
  with q b(1) bs(1) e show ?thesis by (intro exI [of _ ?db] exI [of _ bs] exI [of _ b]) simp
qed

text \<open>
  C17: A registration comes to its end: when \<open>provider register\<close> has succeeded and the provider
  calls back with a body that approves it, signed with the key it gave out, the callback is
  accepted, enabling any capability it announced for a route not yet bound succeeds, and from then
  on reading the route's sources returns the provider with its address and that key.
\<close>

theorem registered_provider_serves:
  assumes "registry_reachable w" "cli_register web d inst nm (wd_registry w) = (Inr out, db1)"
    "web_well_known web (well_known_url d) = Some wk"
    "web_register web (wk_base_url wk @ ''/register'')
       \<lparr>rq_domain = inst, rq_name = nm, rq_callback_url = ''https://'' @ inst @ ''/commonfeed/callback''\<rparr> = Some r"
    "cap \<in> set (wk_capabilities wk)" "CHR ''/'' \<notin> set (cd_resource cap)"
    "\<forall>s \<in> set (rg_sources (wd_registry w)). sw_key s \<noteq> (route, wk_domain wk, cd_algorithm cap)"
    "cb_parse env body = Some (Approved, wk_domain wk)" "cb_mac env (rr_api_key r) = Some mac"
    "cb_hex env h = Some (mac body)" "\<not> cb_select_fails env" "\<not> cb_update_fails env"
  shows "\<exists>db2 db3 bs b out'. callback_handle env (Some (''sha256='' @ h)) body db1 = (200, db2)
    \<and> cli_enable route (wk_domain wk) (cd_resource cap @ ''/'' @ cd_algorithm cap) db2 = (Inr out', db3)
    \<and> find_sources route db3 = Inr bs \<and> b \<in> set bs \<and> pv_domain (bp_provider b) = wk_domain wk
    \<and> pv_base_url (bp_provider b) = wk_base_url wk \<and> pv_api_key (bp_provider b) = rr_api_key r
    \<and> bp_algorithm b = cd_algorithm cap"
proof -
  have ok: "registry_ok (wd_registry w)" using registry_reachable_ok [OF assms(1)] by (simp add: world_ok_def)
  note reg = registered [OF assms(2) ok assms(3,4)]
  then obtain p where p: "p \<in> set (rg_providers db1)" "pw_domain p = wk_domain wk"
      "pw_base_url p = wk_base_url wk" "pw_api_key p = Some (rr_api_key r)" by blast
  let ?chg = "\<lambda>p. p\<lparr>pw_status := Some ''approved''\<rparr>"
  let ?db2 = "set_providers (wk_domain wk) ?chg db1"
  have key: "find_api_key (wk_domain wk) db1 = Some (rr_api_key r)"
    by (rule find_api_key_ok) (use reg p in auto)
  have known: "known_status (Some ''approved'')" by (simp add: known_status_def)
  then have upd: "update_status (wk_domain wk) ''approved'' db1 = Inr ?db2"
    by (simp add: update_status_def status_check_def)
  have cb: "callback_handle env (Some (''sha256='' @ h)) body db1 = (200, ?db2)"
    using assms(8-12) key upd by (simp add: callback_handle_def callback_check_def verify_signature_def)
  have kd: "keyed (wk_domain wk) db1" using p by (auto simp: keyed_def)
  have ok2: "registry_ok ?db2" using status_statement [OF upd] reg kd by blast
  have p2: "?chg p \<in> set (rg_providers ?db2)" using set_providers_member [OF p(1,2), of ?chg] .
  have "provider_ok p" using reg p(1) by (simp add: registry_ok_def)
  then have u: "usable (?chg p)" by (simp add: usable_def provider_ok_def)
  have "has_capability (wk_domain wk, cd_resource cap, cd_algorithm cap) ?db2"
    using reg assms(5) by (simp add: has_capability_def)
  moreover have "\<forall>s \<in> set (rg_sources ?db2). sw_key s \<noteq> (route, wk_domain wk, cd_algorithm cap)"
    using reg assms(7) by simp
  ultimately obtain db3 bs b where
    e: "enable_source route (wk_domain wk) (cd_resource cap) (cd_algorithm cap) ?db2 = Inr db3"
    and b: "find_sources route db3 = Inr bs" "b \<in> set bs" "pv_domain (bp_provider b) = wk_domain wk"
      "pv_base_url (bp_provider b) = pw_base_url p" "pw_api_key p = Some (pv_api_key (bp_provider b))"
      "bp_algorithm b = cd_algorithm cap"
    using enabled_source [OF ok2 _ _ p2 _ u, of "wk_domain wk" "cd_resource cap" "cd_algorithm cap" route] p(2) by auto
  have "resolve_domain (wk_domain wk) ?db2 = (Inr (wk_domain wk), ?db2)"
    using resolve_known [OF p2] p(2) by simp
  then have "cli_enable route (wk_domain wk) (cd_resource cap @ ''/'' @ cd_algorithm cap) ?db2
      = (Inr [''Enabled '' @ route @ '' '' @ left_arrow @ '' '' @ wk_domain wk @ '' ('' @ (cd_resource cap @ ''/'' @ cd_algorithm cap) @ '')''], db3)"
    unfolding cli_enable_def parse_capability_slash [OF assms(6)] by (simp add: and_then_def say_def statement_def e)
  with cb b p(3,4) show ?thesis by auto
qed

text \<open>
  Enabling a second resource under an algorithm already bound reports success and keeps the
  first resource: the conflict is on route, provider and algorithm only.
\<close>

lemma enable_keeps_resource:
  assumes "s \<in> set (rg_sources db)" "sw_key s = (route, d, alg)"
  shows "\<exists>db'. enable_source route d resource alg db = Inr db' \<and> map sw_resource (rg_sources db') = map sw_resource (rg_sources db)"
proof -
  let ?new = "\<lparr>sw_route = route, sw_provider_domain = d, sw_resource = resource, sw_algorithm = alg, sw_enabled = True\<rparr>"
  have ex: "list_ex (\<lambda>s. sw_key s = sw_key ?new) (rg_sources db)"
    using assms by (auto simp: list_ex_iff sw_key_def)
  then have "enable_source route d resource alg db
      = Inr (db\<lparr>rg_sources := map (\<lambda>s. if sw_key s = sw_key ?new then s\<lparr>sw_enabled := True\<rparr> else s) (rg_sources db)\<rparr>)"
    by (simp add: enable_source_def Let_def upsert_row_def)
  then show ?thesis by auto
qed

section \<open>Examples\<close>

definition run_statement :: "(registry \<Rightarrow> state_error + registry) \<Rightarrow> world \<Rightarrow> world" where
  "run_statement f w = (case f (wd_registry w) of Inl e \<Rightarrow> w | Inr db \<Rightarrow> w\<lparr>wd_registry := db\<rparr>)"

definition hot_posts :: capability_row where
  "hot_posts = \<lparr>cw_provider_domain = ''p.test'', cw_resource = ''posts'', cw_algorithm = ''hot'',
     cw_description = [], cw_filters = [''language''], cw_embedding_required = None, cw_embedding_models = None\<rparr>"

definition demo_world :: world where
  "demo_world =
     run_statement (enable_source ''timelines/tag'' ''p.test'' ''posts'' ''hot'')
       (run_statement (save_registration ''p.test'' ''key'' ''1'' ''approved'' ''/.well-known/commonfeed/x'')
         (run_statement (upsert_capability hot_posts)
           (run_statement (upsert_provider ''p.test'' ''P'' ''https://p.test'' 50) empty_world)))"

lemma run_reachable:
  assumes "\<And>db. f (wd_registry w) = Inr db \<Longrightarrow> registry_step w (w\<lparr>wd_registry := db\<rparr>)" "registry_reachable w"
  shows "registry_reachable (run_statement f w)"
  using assms by (auto simp: run_statement_def intro: registry_reachable.step split: sum.splits)

lemma demo_world_reachable: "registry_reachable demo_world"
  unfolding demo_world_def
  by (intro run_reachable registry_reachable.start) (rule registry_step.intros, assumption)+

theorem registry_sources_readable_witness:
  "\<exists>bs. find_sources ''timelines/tag'' (wd_registry demo_world) = Inr bs \<and> length bs = 1"
proof -
  have "length (filter (active ''timelines/tag'' (wd_registry demo_world)) (rg_sources (wd_registry demo_world))) = 1"
    by code_simp
  then show ?thesis
    using registry_sources_readable [OF demo_world_reachable, of "''timelines/tag''"]
    by (auto dest: list_all2_lengthD)
qed

definition demo_wk :: well_known where
  "demo_wk = \<lparr>wk_name = ''P'', wk_domain = ''p.test'', wk_version = ''1'', wk_base_url = ''https://p.test'',
     wk_capabilities = [\<lparr>cd_resource = ''posts'', cd_algorithm = ''hot'', cd_description = [], cd_filters = [],
       cd_embedding = None\<rparr>], wk_max_results = 50, wk_rate_limits = None, wk_contact = None\<rparr>"

definition demo_answer :: register_response where
  "demo_answer = \<lparr>rr_request_id = ''1'', rr_status = ''pending'', rr_api_key = ''key'', rr_verify_path = ''/v''\<rparr>"

definition demo_web :: web where
  "demo_web = \<lparr>web_well_known = (\<lambda>u. Some demo_wk), web_register = (\<lambda>u q. Some demo_answer),
     web_status = (\<lambda>u k. None)\<rparr>"

definition demo_env :: callback_env where
  "demo_env = \<lparr>cb_parse = (\<lambda>b. Some (Approved, ''p.test'')), cb_hex = Some, cb_mac = (\<lambda>k. Some (\<lambda>b. k @ b)),
     cb_select_fails = False, cb_update_fails = False\<rparr>"

definition demo_registered :: registry where
  "demo_registered = snd (cli_register demo_web ''p.test'' ''a.test'' ''A'' (wd_registry empty_world))"

theorem registered_provider_serves_witness:
  "\<exists>db2 db3 bs b out. callback_handle demo_env (Some ''sha256=keyok'') ''ok'' demo_registered = (200, db2)
    \<and> cli_enable ''timelines/tag'' ''p.test'' ''posts/hot'' db2 = (Inr out, db3)
    \<and> find_sources ''timelines/tag'' db3 = Inr bs \<and> b \<in> set bs \<and> pv_api_key (bp_provider b) = ''key''"
proof -
  obtain out where r: "cli_register demo_web ''p.test'' ''a.test'' ''A'' (wd_registry empty_world) = (Inr out, demo_registered)"
    unfolding demo_registered_def
    by (simp add: cli_register_def sync_provider_def and_then_def say_def statement_def fetch_well_known_def
        demo_web_def demo_wk_def demo_answer_def empty_world_def upsert_provider_def upsert_capability_def
        capability_of_def upsert_row_def save_registration_def status_check_def known_status_def)
  show ?thesis
    using registered_provider_serves [OF registry_reachable.start r, of demo_wk demo_answer
        "hd (wk_capabilities demo_wk)" "''timelines/tag''" demo_env "''ok''" "(@) ''key''" "''keyok''"]
    by (simp add: demo_web_def demo_wk_def demo_answer_def demo_env_def empty_world_def) blast
qed

theorem callback_authentic_witness:
  "fst (callback_handle demo_env (Some ''sha256=keyno'') ''ok'' demo_registered) \<in> {400, 401, 404}
    \<and> snd (callback_handle demo_env (Some ''sha256=keyno'') ''ok'' demo_registered) = demo_registered
    \<and> fst (callback_handle demo_env (Some ''sha256=keyok'') ''ok'' demo_registered) = 200"
proof -
  have key: "find_api_key ''p.test'' demo_registered = Some ''key''"
    unfolding demo_registered_def
    by (simp add: cli_register_def sync_provider_def and_then_def say_def statement_def fetch_well_known_def
        demo_web_def demo_wk_def demo_answer_def empty_world_def upsert_provider_def upsert_capability_def
        capability_of_def upsert_row_def save_registration_def status_check_def known_status_def find_api_key_def
        set_providers_def)
  show ?thesis
    using callback_authentic [of demo_env "Some ''sha256=keyno''" "''ok''" demo_registered]
      callback_authentic [of demo_env "Some ''sha256=keyok''" "''ok''" demo_registered] key
    by (auto simp: demo_env_def Let_def split: prod.splits)
qed

end
