(* ===== verification/Feeds.thy ===== *)
theory Feeds
  imports Feed_Pipeline Policy Commonfeed_Sources Network_Source Providers
begin

text \<open>
  The feeds of \<open>apps/server/src/feeds\<close>: how each one builds its pipeline from what was loaded
  (interest vector, policy, bound providers) and how it collects. The pipeline's sources are asked
  when it runs; what they see then (providers' answers, the database, the clock, the logarithm and
  the exponential of the platform) is a value of its own. A load that failed is an error value,
  replaced by its default as the code does.
\<close>

section \<open>The server's state and the outside world\<close>

record app_state =
  as_instance_domain :: string
  as_media :: media_config
  as_model_name :: string

text \<open>
  \<open>fw_db n\<close> is the database when query \<open>n\<close> runs, or that it fails: 0 to 2 are the queries of the
  network source, 3 and 4 those of the native and the federated tag source.
\<close>

record feed_world =
  fw_posts :: "http_request \<Rightarrow> query_response http_response"
  fw_links :: "http_request \<Rightarrow> link_response http_response"
  fw_tags :: "http_request \<Rightarrow> tag_response http_response"
  fw_db :: "nat \<Rightarrow> mastodon_db option"
  fw_now :: instant
  fw_ln :: "fl \<Rightarrow> fl"
  fw_exp :: "fl \<Rightarrow> fl"
  fw_lower :: "string \<Rightarrow> string"

text \<open>\<open>unwrap_or_else\<close> on a result.\<close>

definition or_default :: "'e + 'a \<Rightarrow> 'a \<Rightarrow> 'a" where
  "or_default r d = (case r of Inl e \<Rightarrow> d | Inr x \<Rightarrow> x)"

section \<open>Parts shared by the feeds\<close>

text \<open>The key of a post: its ActivityPub URI, or its URL.\<close>

definition uri_or_url :: "post \<Rightarrow> string" where
  "uri_or_url p = unwrap_or (po_uri (post_of p)) (po_url (post_of p))"

definition author_handle :: "post \<Rightarrow> string" where
  "author_handle p = au_handle (po_author (post_of p))"

definition posts_sources :: "feed_world \<Rightarrow> query_filters \<Rightarrow> bound_provider list \<Rightarrow> post source list" where
  "posts_sources w filters bs =
     map (\<lambda>b. posts_source (fw_posts w) (posts_with_filters (posts_source_new (bp_provider b) (bp_algorithm b)) filters)) bs"

definition recommended_sources :: "feed_world \<Rightarrow> query_filters \<Rightarrow> fl list \<Rightarrow> string \<Rightarrow> bound_provider list \<Rightarrow> post source list" where
  "recommended_sources w filters vector model bs =
     map (\<lambda>b. recommended_source (fw_posts w)
       (recommended_with_filters (recommended_source_new (bp_provider b) (bp_algorithm b) vector model) filters)) bs"

text \<open>\<open>execute(POOL_SIZE, &()).await.items\<close>; \<open>None\<close> is a panic of the sampler.\<close>

definition feed_collect :: "('i, unit) pipeline \<Rightarrow> nat \<Rightarrow> 'i candidate list option" where
  "feed_collect p pool_size = map_option pr_items (execute p pool_size ())"

section \<open>The home feed\<close>

definition home_pool_size :: nat where "home_pool_size = 300"
definition network_pool :: nat where "network_pool = 180"
definition recommended_pool :: nat where "recommended_pool = 180"
definition trending_pool_cold :: nat where "trending_pool_cold = 300"
definition trending_pool_warm :: nat where "trending_pool_warm = 60"

text \<open>What \<open>HomeFeed::new\<close> loads.\<close>

record home_loads =
  hl_vector :: "state_error + (fl list \<times> int) option"
  hl_policy :: "state_error + user_policy"
  hl_trending :: "state_error + bound_provider list"
  hl_bound :: "state_error + bound_provider list"

definition home_sources :: "app_state \<Rightarrow> int \<Rightarrow> query_filters \<Rightarrow> home_loads \<Rightarrow> feed_world
    \<Rightarrow> (post, unit) pipeline_builder" where
  "home_sources st account filters ld w =
     (let user_vector = or_default (hl_vector ld) None;
          b1 = builder_group ''network''
                 [network_source (fw_ln w) (fw_exp w) (fw_now w) (fw_db w 0) (fw_db w 1) (fw_db w 2)
                    \<lparr>ns_user_id = account, ns_instance_domain = as_instance_domain st, ns_media = as_media st\<rparr>]
                 network_pool (builder_name ''timelines/home'' builder_new);
          b2 = builder_group ''trending'' (posts_sources w filters (or_default (hl_trending ld) []))
                 (if user_vector \<noteq> None then trending_pool_warm else trending_pool_cold) b1
      in case user_vector of
           Some (vector, n) \<Rightarrow> builder_group ''recommended''
             (recommended_sources w filters vector (as_model_name st) (or_default (hl_bound ld) [])) recommended_pool b2
         | None \<Rightarrow> b2)"

definition home_sampler :: "bool \<Rightarrow> quota_sampler" where
  "home_sampler has_vector =
     (if has_vector
      then quota_sampler_new [group_quota_new ''network'' (fl_lit binary64 (60 / 100)),
             group_quota_new ''recommended'' (fl_lit binary64 (30 / 100)),
             group_quota_new ''trending'' (fl_lit binary64 (10 / 100))]
      else quota_sampler_new [group_quota_new ''network'' (fl_lit binary64 (70 / 100)),
             group_quota_new ''trending'' (fl_lit binary64 (30 / 100))])"

definition home_pipeline :: "app_state \<Rightarrow> int \<Rightarrow> query_filters \<Rightarrow> home_loads \<Rightarrow> feed_world \<Rightarrow> (post, unit) pipeline" where
  "home_pipeline st account filters ld w =
     builder_build
       (builder_sampler (quota_pick (home_sampler (or_default (hl_vector ld) None \<noteq> None)))
         (builder_score (diversity_score (diversity_new (fl_lit binary64 (15 / 100)) author_handle))
           (builder_filter (policy_apply (policy_filter_new (or_default (hl_policy ld) policy_default)))
             (builder_filter (dedup_apply (dedup_new (\<lambda>c. uri_or_url (c_item c))))
               (home_sources st account filters ld w)))))"

definition home_collect :: "app_state \<Rightarrow> int \<Rightarrow> query_filters \<Rightarrow> home_loads \<Rightarrow> feed_world \<Rightarrow> post candidate list option" where
  "home_collect st account filters ld w = feed_collect (home_pipeline st account filters ld w) home_pool_size"

section \<open>The tag timeline\<close>

definition tag_pool_size :: nat where "tag_pool_size = 100"
definition local_per_source_limit :: nat where "local_per_source_limit = 50"
definition external_per_source_limit :: nat where "external_per_source_limit = 100"

text \<open>The policy of the viewer, if there is one: \<open>None\<close> is an anonymous request.\<close>

definition viewer_policy :: "(state_error + user_policy) option \<Rightarrow> user_policy" where
  "viewer_policy loaded = (case loaded of Some r \<Rightarrow> or_default r policy_default | None \<Rightarrow> policy_default)"

definition tag_preference :: "post candidate \<Rightarrow> int" where
  "tag_preference c = (if c_group c = ''native'' then 0 else if c_group c = ''federated'' then 1 else 2)"

definition tag_sampler :: quota_sampler where
  "tag_sampler = quota_sampler_new [group_quota_new ''native'' (fl_lit binary64 (50 / 100)),
     group_quota_new ''federated'' (fl_lit binary64 (20 / 100)),
     group_quota_new ''external'' (fl_lit binary64 (30 / 100))]"

definition tag_pipeline :: "app_state \<Rightarrow> query_filters \<Rightarrow> string \<Rightarrow> (state_error + user_policy) option
    \<Rightarrow> state_error + bound_provider list \<Rightarrow> feed_world \<Rightarrow> (post, unit) pipeline" where
  "tag_pipeline st filters hashtag policy bound w =
     (let filters1 = filters\<lparr>qf_tag := Some hashtag\<rparr>;
          src = \<lparr>ts_tag = hashtag, ts_instance_domain = as_instance_domain st, ts_media = as_media st\<rparr>
      in builder_build
        (builder_sampler (quota_pick tag_sampler)
          (builder_score (diversity_score (diversity_new (fl_lit binary64 (1 / 10)) author_handle))
            (builder_filter (policy_apply (without_mutes (policy_filter_new (viewer_policy policy))))
              (builder_filter (dedup_apply (dedup_prefer (dedup_new (\<lambda>c. uri_or_url (c_item c))) tag_preference))
                (builder_group ''external'' (posts_sources w filters1 (or_default bound [])) external_per_source_limit
                  (builder_group ''federated'' [federated_tag_source (fw_lower w) (fw_db w 4) src] local_per_source_limit
                    (builder_group ''native'' [native_tag_source (fw_lower w) (fw_db w 3) src] local_per_source_limit
                      (builder_name ''timelines/tag'' builder_new)))))))))"

definition tag_collect :: "app_state \<Rightarrow> query_filters \<Rightarrow> string \<Rightarrow> (state_error + user_policy) option
    \<Rightarrow> state_error + bound_provider list \<Rightarrow> feed_world \<Rightarrow> post candidate list option" where
  "tag_collect st filters hashtag policy bound w = feed_collect (tag_pipeline st filters hashtag policy bound w) tag_pool_size"

section \<open>The link timeline\<close>

definition link_pool_size :: nat where "link_pool_size = 100"

definition link_pipeline :: "query_filters \<Rightarrow> string \<Rightarrow> (state_error + user_policy) option
    \<Rightarrow> state_error + bound_provider list \<Rightarrow> feed_world \<Rightarrow> (post, unit) pipeline" where
  "link_pipeline filters url policy bound w =
     builder_build
       (builder_score (diversity_score (diversity_new (fl_lit binary64 (1 / 10)) author_handle))
         (builder_filter (policy_apply (without_mutes (policy_filter_new (viewer_policy policy))))
           (builder_sources (posts_sources w (filters\<lparr>qf_link := Some url\<rparr>) (or_default bound [])) link_pool_size
             (builder_name ''timelines/link'' builder_new))))"

definition link_collect :: "query_filters \<Rightarrow> string \<Rightarrow> (state_error + user_policy) option
    \<Rightarrow> state_error + bound_provider list \<Rightarrow> feed_world \<Rightarrow> post candidate list option" where
  "link_collect filters url policy bound w = feed_collect (link_pipeline filters url policy bound w) link_pool_size"

section \<open>The trends\<close>

definition trend_pool_size :: nat where "trend_pool_size = 100"
definition max_link_results :: nat where "max_link_results = 7"

definition trending_statuses_pipeline :: "query_filters \<Rightarrow> state_error + bound_provider list \<Rightarrow> feed_world \<Rightarrow> (post, unit) pipeline" where
  "trending_statuses_pipeline filters bound w =
     builder_build
       (builder_score (diversity_score (diversity_new (fl_lit binary64 (1 / 10)) author_handle))
         (builder_filter (dedup_apply (dedup_new (\<lambda>c. po_url (post_of (c_item c)))))
           (builder_sources (posts_sources w filters (or_default bound [])) trend_pool_size
             (builder_name ''trends/statuses'' builder_new))))"

definition trending_statuses_collect :: "query_filters \<Rightarrow> state_error + bound_provider list \<Rightarrow> feed_world
    \<Rightarrow> post candidate list option" where
  "trending_statuses_collect filters bound w = feed_collect (trending_statuses_pipeline filters bound w) trend_pool_size"

definition trending_tags_pipeline :: "query_filters \<Rightarrow> state_error + bound_provider list \<Rightarrow> feed_world \<Rightarrow> (tag, unit) pipeline" where
  "trending_tags_pipeline filters bound w =
     builder_build
       (builder_score (diversity_score (diversity_new (fl_lit binary64 (1 / 10)) tg_name))
         (builder_filter (dedup_apply (dedup_new (\<lambda>c. tg_name (c_item c))))
           (builder_sources (map (\<lambda>b. tags_source (fw_tags w)
                (posts_with_filters (posts_source_new (bp_provider b) (bp_algorithm b)) filters)) (or_default bound []))
              trend_pool_size (builder_name ''trends/tags'' builder_new))))"

definition trending_tags_collect :: "query_filters \<Rightarrow> state_error + bound_provider list \<Rightarrow> feed_world
    \<Rightarrow> tag candidate list option" where
  "trending_tags_collect filters bound w = feed_collect (trending_tags_pipeline filters bound w) trend_pool_size"

definition trending_links_pipeline :: "query_filters \<Rightarrow> state_error + bound_provider list \<Rightarrow> feed_world \<Rightarrow> (link, unit) pipeline" where
  "trending_links_pipeline filters bound w =
     builder_build
       (builder_score (diversity_score (diversity_new (fl_lit binary64 (1 / 10)) (\<lambda>l. unwrap_or (li_provider_name l) [])))
         (builder_filter (dedup_apply (dedup_new (\<lambda>c. li_url (c_item c))))
           (builder_sources (map (\<lambda>b. links_source (fw_links w)
                (posts_with_filters (posts_source_new (bp_provider b) (bp_algorithm b)) filters)) (or_default bound []))
              trend_pool_size (builder_name ''trends/links'' builder_new))))"

definition trending_links_collect :: "query_filters \<Rightarrow> state_error + bound_provider list \<Rightarrow> feed_world
    \<Rightarrow> link candidate list option" where
  "trending_links_collect filters bound w = feed_collect (trending_links_pipeline filters bound w) max_link_results"

section \<open>Every feed's pipeline is well formed\<close>

named_theorems feed_defs \<open>the pipelines of the feeds\<close>

declare home_pipeline_def [feed_defs] tag_pipeline_def [feed_defs] link_pipeline_def [feed_defs]
  trending_statuses_pipeline_def [feed_defs] trending_tags_pipeline_def [feed_defs]
  trending_links_pipeline_def [feed_defs] Let_def [feed_defs]

lemmas stage_contracts =
  dedup.pool_filter_axioms policy.pool_filter_axioms diversity.pool_scorer_axioms quota.sampler_axioms

lemma home_sources_well_formed: "well_formed_builder (home_sources st account filters ld w)"
  by (auto simp: home_sources_def Let_def split: option.splits intro!: pool_intros)

lemma feeds_well_formed:
  "well_formed (home_pipeline st account filters ld w)"
  "well_formed (tag_pipeline st filters hashtag policy bound w)"
  "well_formed (link_pipeline filters url policy bound w)"
  "well_formed (trending_statuses_pipeline filters bound w)"
  "well_formed (trending_tags_pipeline filters bound w)"
  "well_formed (trending_links_pipeline filters bound w)"
  unfolding feed_defs
  by (intro build_well_formed pool_intros stage_contracts home_sources_well_formed)+

lemma feed_collect_total:
  assumes "well_formed p"
  shows "\<exists>cs. feed_collect p n = Some cs \<and> length cs \<le> n"
  using execute_sound [OF assms, of n "()"] by (auto simp: feed_collect_def)

section \<open>What a feed collects\<close>

lemma execute_filtered:
  assumes "well_formed p" "execute p limit ctx = Some r"
  shows "mset (map unscored (pr_items r)) \<subseteq># mset (map unscored (run_stages (pl_filters p) (gathered p limit) ctx))"
proof -
  let ?f = "run_stages (pl_filters p) (gathered p limit) ctx"
  let ?s = "run_stages (pl_scorers p) ?f ctx"
  have parts: "sampler (pl_sampler p)" "pool_scorer (run_stages (pl_scorers p))"
    using assms(1) by (simp_all add: well_formed_def run_stages_scorer)
  have "sample (pl_sampler p) ?s limit = Some (pr_items r)"
    using assms(2) by (auto simp: execute_def Let_def)
  from sampler.sample_sub [OF parts(1) this]
  have "mset (map unscored (pr_items r)) \<subseteq># mset (map unscored ?s)"
    by (simp add: image_mset_subseteq_mono)
  also have "map unscored ?s = map unscored ?f" by (rule pool_scorer.scorer_frame [OF parts(2)])
  finally show ?thesis .
qed

lemma distinct_sub_mset:
  assumes "distinct ys" "mset xs \<subseteq># mset ys"
  shows "distinct xs"
proof -
  obtain M where "mset ys = mset xs + M" using assms(2) by (auto simp: subset_mset.le_iff_add)
  moreover obtain zs where "mset zs = M" using ex_mset by blast
  ultimately have "mset ys = mset (xs @ zs)" by simp
  then have "distinct (xs @ zs)" using assms(1) mset_eq_imp_distinct_iff by blast
  then show ?thesis by simp
qed

lemma item_of_unscored: "fst \<circ> unscored = c_item"
  by (rule ext) (simp add: unscored_def)

text \<open>
  A pipeline that first deduplicates and then applies a policy yields items with distinct keys
  that the policy allows.
\<close>

lemma dedup_policy_collect:
  assumes wf: "well_formed p" and fs: "pl_filters p = [dedup_apply d, policy_apply f]"
    and key: "key_fn d = k \<circ> c_item"
  shows "\<exists>cs. feed_collect p n = Some cs \<and> length cs \<le> n \<and> distinct (map (k \<circ> c_item) cs)
    \<and> list_all (policy_allows f \<circ> c_item) cs"
proof -
  obtain r where r: "execute p n () = Some r" "length (pr_items r) \<le> n"
    using execute_sound [OF wf, of n "()"] by auto
  let ?f = "run_stages (pl_filters p) (gathered p n) ()"
  have f: "?f = filter (\<lambda>c. policy_allows f (c_item c)) (dedup_apply d (gathered p n) ())"
    by (simp add: fs run_stages_def policy_apply_filter)
  have "mset (map fst (map unscored (pr_items r))) \<subseteq># mset (map fst (map unscored ?f))"
    using image_mset_subseteq_mono [OF execute_filtered [OF wf r(1)], of fst]
    unfolding mset_map .
  then have sub: "mset (map c_item (pr_items r)) \<subseteq># mset (map c_item ?f)"
    unfolding map_map item_of_unscored .
  have "distinct (map (key_fn d) ?f)"
    unfolding f using dedup_distinct [of d "gathered p n" "()"] by (simp add: distinct_map_filter)
  then have "distinct (map k (map c_item ?f))"
    unfolding map_map key .
  moreover have "mset (map k (map c_item (pr_items r))) \<subseteq># mset (map k (map c_item ?f))"
    using image_mset_subseteq_mono [OF sub, of k] unfolding mset_map .
  ultimately have "distinct (map k (map c_item (pr_items r)))"
    by (rule distinct_sub_mset)
  moreover have "policy_allows f (c_item c)" if "c \<in> set (pr_items r)" for c
  proof -
    have "c_item c \<in> set (map c_item ?f)"
      using mset_subset_eqD [OF sub, of "c_item c"] that by auto
    then show ?thesis unfolding f by auto
  qed
  ultimately show ?thesis using r by (auto simp: feed_collect_def list_all_iff)
qed

section \<open>Properties\<close>

text \<open>
  C13: Building and running the home feed or a tag timeline always yields a page, whatever failed
  to load and whatever the sources answer: at most 300 (100) posts, no two with the same URI (or
  URL, where there is none), and none the user's policy forbids; the tag timeline leaves the mutes
  out. A policy that failed to load forbids nothing.
\<close>

theorem feeds_collect_filtered:
  "\<exists>home tags. home_collect st account filters ld w = Some home
    \<and> tag_collect st filters hashtag policy bound w = Some tags
    \<and> length home \<le> 300 \<and> length tags \<le> 100
    \<and> distinct (map (uri_or_url \<circ> c_item) home) \<and> distinct (map (uri_or_url \<circ> c_item) tags)
    \<and> list_all (policy_allows (policy_filter_new (or_default (hl_policy ld) policy_default)) \<circ> c_item) home
    \<and> list_all (policy_allows (without_mutes (policy_filter_new (viewer_policy policy))) \<circ> c_item) tags"
proof -
  have h: "pl_filters (home_pipeline st account filters ld w) =
      [dedup_apply (dedup_new (\<lambda>c. uri_or_url (c_item c))),
       policy_apply (policy_filter_new (or_default (hl_policy ld) policy_default))]"
    by (simp add: home_pipeline_def home_sources_def builder_build_def builder_sampler_def builder_score_def
        builder_filter_def builder_group_def builder_name_def builder_new_def Let_def split: option.split)
  have t: "pl_filters (tag_pipeline st filters hashtag policy bound w) =
      [dedup_apply (dedup_prefer (dedup_new (\<lambda>c. uri_or_url (c_item c))) tag_preference),
       policy_apply (without_mutes (policy_filter_new (viewer_policy policy)))]"
    by (simp add: tag_pipeline_def builder_build_def builder_sampler_def builder_score_def
        builder_filter_def builder_group_def builder_name_def builder_new_def Let_def)
  have key: "key_fn (dedup_new (\<lambda>c. uri_or_url (c_item c))) = uri_or_url \<circ> c_item"
    "key_fn (dedup_prefer (dedup_new (\<lambda>c. uri_or_url (c_item c))) tag_preference) = uri_or_url \<circ> c_item"
    by (simp_all add: dedup_new_def dedup_prefer_def o_def)
  show ?thesis
    using dedup_policy_collect [OF feeds_well_formed(1) h key(1), of home_pool_size]
      dedup_policy_collect [OF feeds_well_formed(2) t key(2), of tag_pool_size]
    unfolding home_collect_def tag_collect_def home_pool_size_def tag_pool_size_def by blast
qed

end
