(* ===== verification/Home_Feed.thy ===== *)
theory Home_Feed
  imports Feeds Seen Statuses
begin

text \<open>
  Serving the home feed, \<open>apps/server/src/feeds/home.rs\<close>: the ranked pool kept in the cache for
  fifteen minutes, what the user has already seen, and the page built from the next unseen items.
  The encoding of a pool in the cache (\<open>serde\<close>'s for a list of tuples) is a parameter. Each call of
  the cache has its own time and outcome, and each rebuild of the pool asks the sources anew.
\<close>

section \<open>The code\<close>

type_synonym pool_item = "string \<times> string \<times> feed_item"

definition home_ttl :: int where "home_ttl = 15 * 60"

record timeline_params =
  tp_limit :: nat
  tp_max_id :: "string option"
  tp_min_id :: "string option"
  tp_since_id :: "string option"

definition default_limit :: nat where "default_limit = 20"

record pool_codec =
  pc_ser :: "pool_item list \<Rightarrow> json option"
  pc_de :: "json \<Rightarrow> pool_item list option"

record home_feed =
  hf_collect :: "feed_world \<Rightarrow> post candidate list option"
  hf_user_id :: int

definition home_feed_new :: "app_state \<Rightarrow> int \<Rightarrow> query_filters \<Rightarrow> home_loads \<Rightarrow> home_feed" where
  "home_feed_new st account filters ld = \<lparr>hf_collect = home_collect st account filters ld, hf_user_id = account\<rparr>"

text \<open>The calls of the cache in a request, and what the sources and the database see.\<close>

record home_env =
  he_load :: call
  he_store :: call
  he_world :: feed_world
  he_seen :: call
  he_restore :: call
  he_reworld :: feed_world
  he_old :: call
  he_extend :: call
  he_detail :: detail_env
  he_conn :: conn
  he_table :: table_env

definition home_key :: "int \<Rightarrow> string" where
  "home_key user_id = ''home:'' @ show_int user_id"

definition pool_of :: "string \<Rightarrow> post candidate list \<Rightarrow> pool_item list" where
  "pool_of instance_domain cs =
     map (\<lambda>c. (uri_or_url (c_item c), c_group c, feed_item_from_post (c_item c) instance_domain)) cs"

definition rebuild_pool :: "pool_codec \<Rightarrow> app_state \<Rightarrow> home_feed \<Rightarrow> feed_world \<Rightarrow> call \<Rightarrow> cache
    \<Rightarrow> (pool_item list \<times> cache) option" where
  "rebuild_pool pc st feed w e c =
     map_option (\<lambda>cs. let pool = pool_of (as_instance_domain st) cs
        in (pool, cache_set (pc_ser pc) e (home_key (hf_user_id feed)) pool home_ttl c)) (hf_collect feed w)"

definition load_pool :: "pool_codec \<Rightarrow> app_state \<Rightarrow> home_feed \<Rightarrow> home_env \<Rightarrow> cache \<Rightarrow> (pool_item list \<times> cache) option" where
  "load_pool pc st feed env c =
     (let (v, c1) = cache_get (pc_de pc) (he_load env) (home_key (hf_user_id feed)) c
      in case v of
           Some pool \<Rightarrow> if pool \<noteq> [] then Some (pool, c1) else rebuild_pool pc st feed (he_world env) (he_store env) c1
         | None \<Rightarrow> rebuild_pool pc st feed (he_world env) (he_store env) c1)"

definition reload_bypasses_seen :: "string list" where
  "reload_bypasses_seen = [''network'']"

definition keep :: "bool \<Rightarrow> string set \<Rightarrow> pool_item \<Rightarrow> bool" where
  "keep is_reload seen item =
     (case item of (uri, grp, _) \<Rightarrow>
        if is_reload \<and> grp \<in> set reload_bypasses_seen then True else uri \<notin> seen)"

definition page_limit :: "timeline_params \<Rightarrow> nat" where
  "page_limit params = max 1 (min 40 (tp_limit params))"

text \<open>The items of the page; \<open>None\<close> is a panic of the pipeline.\<close>

definition home_choose :: "pool_codec \<Rightarrow> app_state \<Rightarrow> home_feed \<Rightarrow> home_env \<Rightarrow> timeline_params \<Rightarrow> cache
    \<Rightarrow> (pool_item list \<times> cache) option" where
  "home_choose pc st feed env params c =
     (case load_pool pc st feed env c of
        None \<Rightarrow> None
      | Some (pool, c1) \<Rightarrow>
          let (seen, c2) = seen_load (he_seen env) c1 (hf_user_id feed);
              is_reload = (tp_max_id params = None);
              chosen = take (page_limit params) (filter (keep is_reload seen) pool)
          in if chosen \<noteq> [] then Some (chosen, c2)
             else map_option (\<lambda>(pool', c3). (take (page_limit params) (filter (keep is_reload seen) pool'), c3))
                    (rebuild_pool pc st feed (he_reworld env) (he_restore env) c2))"

definition home_link :: "string \<Rightarrow> status list \<Rightarrow> string option" where
  "home_link instance_domain statuses =
     (if statuses = [] then None
      else header_value (page_link instance_domain ''/api/v1/timelines/home'' ''max_id''
             (st_id (status_of (last statuses))) ''next''))"

text \<open>The statuses and the \<open>Link\<close> header. A page that cannot be built is empty.\<close>

definition home_serve :: "pool_codec \<Rightarrow> app_state \<Rightarrow> home_feed \<Rightarrow> home_env \<Rightarrow> timeline_params \<Rightarrow> cache \<times> status_table
    \<Rightarrow> (status list \<times> string option) run \<times> cache \<times> status_table" where
  "home_serve pc st feed env params s =
     (case s of (c, tab) \<Rightarrow>
        case home_choose pc st feed env params c of
          None \<Rightarrow> (Panicked, c, tab)
        | Some (chosen, c1) \<Rightarrow>
            let served = map fst chosen;
                items = map (snd \<circ> snd) chosen;
                (r, tab') = to_statuses (he_detail env) (he_conn env) (he_table env) (as_instance_domain st)
                              (as_media st) items (Some (hf_user_id feed)) tab
            in (case r of
                  Panicked \<Rightarrow> (Panicked, c1, tab')
                | _ \<Rightarrow>
                    let statuses = (case r of Done ss \<Rightarrow> ss | _ \<Rightarrow> [])
                    in (Done (statuses, home_link (as_instance_domain st) statuses),
                        seen_extend (he_old env) (he_extend env) c1 (hf_user_id feed) served, tab')))"

section \<open>The page without the cache\<close>

text \<open>What a request does to the ranked pool and the list of seen items of a user.\<close>

record home_view =
  hv_pool :: "pool_item list"
  hv_seen :: "string list"

definition spec_choose :: "pool_item list \<Rightarrow> pool_item list \<Rightarrow> nat \<Rightarrow> bool \<Rightarrow> home_view \<Rightarrow> pool_item list \<times> pool_item list" where
  "spec_choose fresh again limit is_reload v =
     (let pool = (if hv_pool v = [] then fresh else hv_pool v);
          page = (\<lambda>p. take limit (filter (keep is_reload (set (hv_seen v))) p))
      in if page pool \<noteq> [] then (page pool, pool) else (page again, again))"

definition spec_serve :: "pool_item list \<Rightarrow> pool_item list \<Rightarrow> nat \<Rightarrow> bool \<Rightarrow> home_view \<Rightarrow> pool_item list \<times> home_view" where
  "spec_serve fresh again limit is_reload v =
     (let (page, pool) = spec_choose fresh again limit is_reload v
      in (page, \<lparr>hv_pool = pool, hv_seen = (if page = [] then hv_seen v else cap_urls (hv_seen v @ map fst page))\<rparr>))"

text \<open>The cache holds the view until \<open>t'\<close>.\<close>

definition home_rel :: "pool_codec \<Rightarrow> int \<Rightarrow> int \<Rightarrow> int \<Rightarrow> cache \<Rightarrow> home_view \<Rightarrow> bool" where
  "home_rel pc t t' user_id c v \<longleftrightarrow> healthy t c
     \<and> keeps_list (pc_de pc) t' c (home_key user_id) (hv_pool v)
     \<and> keeps_list json_strings t' c (seen_key user_id) (hv_seen v)"

definition calls_within :: "int \<Rightarrow> int \<Rightarrow> home_env \<Rightarrow> bool" where
  "calls_within t t' env \<longleftrightarrow> in_window t t' (he_load env) \<and> in_window t t' (he_store env)
     \<and> in_window t t' (he_seen env) \<and> in_window t t' (he_restore env) \<and> in_window t t' (he_old env)
     \<and> in_window t t' (he_extend env)"

text \<open>The pool a rebuild makes, and that the encoding keeps it.\<close>

definition rebuilt :: "pool_codec \<Rightarrow> app_state \<Rightarrow> home_feed \<Rightarrow> feed_world \<Rightarrow> pool_item list \<Rightarrow> bool" where
  "rebuilt pc st feed w pool \<longleftrightarrow> map_option (pool_of (as_instance_domain st)) (hf_collect feed w) = Some pool
     \<and> Option.bind (pc_ser pc pool) (pc_de pc) = Some pool"

lemma keys_differ [simp]: "home_key u \<noteq> seen_key u'" "seen_key u' \<noteq> home_key u"
  by (simp_all add: home_key_def seen_key_def)

lemma rebuild_pool_rel:
  assumes "rebuilt pc st feed w pool" "home_rel pc t t' (hf_user_id feed) c v" "in_window t t' e" "t' \<le> t + home_ttl"
  shows "\<exists>c'. rebuild_pool pc st feed w e c = Some (pool, c')
    \<and> home_rel pc t t' (hf_user_id feed) c' (v\<lparr>hv_pool := pool\<rparr>)"
proof -
  obtain j where j: "pc_ser pc pool = Some j" "pc_de pc j = Some pool"
    using assms(1) by (auto simp: rebuilt_def bind_eq_Some_conv)
  let ?c = "cache_set (pc_ser pc) e (home_key (hf_user_id feed)) pool home_ttl c"
  have "rebuild_pool pc st feed w e c = Some (pool, ?c)"
    using assms(1) by (auto simp: rebuild_pool_def rebuilt_def Let_def)
  moreover have "home_rel pc t t' (hf_user_id feed) ?c (v\<lparr>hv_pool := pool\<rparr>)"
    using assms(2-4) set_keeps_list [where ser = "pc_ser pc" and de = "pc_de pc", OF _ assms(3) j assms(4)]
    by (simp add: home_rel_def set_keeps_other [OF _ assms(3)])
  ultimately show ?thesis by blast
qed

lemma load_pool_rel:
  assumes "rebuilt pc st feed (he_world env) fresh" "home_rel pc t t' (hf_user_id feed) c v" "calls_within t t' env"
    "t' \<le> t + home_ttl"
  shows "\<exists>c'. load_pool pc st feed env c = Some (if hv_pool v = [] then fresh else hv_pool v, c')
    \<and> home_rel pc t t' (hf_user_id feed) c' (v\<lparr>hv_pool := if hv_pool v = [] then fresh else hv_pool v\<rparr>)"
proof -
  have w: "in_window t t' (he_load env)" "in_window t t' (he_store env)"
    using assms(3) by (simp_all add: calls_within_def)
  have h: "healthy t c" "keeps_list (pc_de pc) t' c (home_key (hf_user_id feed)) (hv_pool v)"
      "keeps_list json_strings t' c (seen_key (hf_user_id feed)) (hv_seen v)"
    using assms(2) by (simp_all add: home_rel_def)
  obtain got c1 where g: "cache_get (pc_de pc) (he_load env) (home_key (hf_user_id feed)) c = (got, c1)"
    by (cases "cache_get (pc_de pc) (he_load env) (home_key (hf_user_id feed)) c")
  have got: "unwrap_or got [] = hv_pool v" using get_keeps_list(1) [OF h(1) w(1) h(2)] g by simp
  have c1: "home_rel pc t t' (hf_user_id feed) c1 v"
    using get_frame(1) [OF h(1) w(1)] get_keeps_list(2) [OF h(1) w(1) h(2)] get_keeps_list(2) [OF h(1) w(1) h(3)] g
    by (metis home_rel_def snd_conv)
  show ?thesis
  proof (cases "hv_pool v = []")
    case True
    with got have "load_pool pc st feed env c = rebuild_pool pc st feed (he_world env) (he_store env) c1"
      by (auto simp: load_pool_def g split: option.splits)
    with rebuild_pool_rel [OF assms(1) c1 w(2) assms(4)] True show ?thesis by simp
  next
    case False
    with got have "load_pool pc st feed env c = Some (hv_pool v, c1)"
      by (cases got) (auto simp: load_pool_def g)
    with c1 False show ?thesis by simp
  qed
qed

lemma seen_load_rel:
  assumes "home_rel pc t t' u c v" "in_window t t' e"
  shows "fst (seen_load e c u) = set (hv_seen v) \<and> home_rel pc t t' u (snd (seen_load e c u)) v"
proof -
  have h: "healthy t c" "keeps_list (pc_de pc) t' c (home_key u) (hv_pool v)"
      "keeps_list json_strings t' c (seen_key u) (hv_seen v)"
    using assms(1) by (simp_all add: home_rel_def)
  have "snd (seen_load e c u) = snd (cache_get json_strings e (seen_key u) c)"
    by (simp add: seen_load_def split: prod.split)
  then show ?thesis
    by (simp add: fst_seen_load home_rel_def get_keeps_list(1) [OF h(1) assms(2) h(3)]
        get_keeps_list(2) [OF h(1) assms(2) h(3)] get_keeps_list(2) [OF h(1) assms(2) h(2)]
        get_frame(1) [OF h(1) assms(2)])
qed

lemma home_choose_rel:
  assumes "rebuilt pc st feed (he_world env) fresh" "rebuilt pc st feed (he_reworld env) again"
    "home_rel pc t t' (hf_user_id feed) c v" "calls_within t t' env" "t' \<le> t + home_ttl"
    "spec_choose fresh again (page_limit params) (tp_max_id params = None) v = (page, pool)"
  shows "\<exists>c'. home_choose pc st feed env params c = Some (page, c')
    \<and> home_rel pc t t' (hf_user_id feed) c' (v\<lparr>hv_pool := pool\<rparr>)"
proof -
  let ?pool = "if hv_pool v = [] then fresh else hv_pool v"
  have w: "in_window t t' (he_seen env)" "in_window t t' (he_restore env)"
    using assms(4) by (simp_all add: calls_within_def)
  obtain c1 where c1: "load_pool pc st feed env c = Some (?pool, c1)"
      "home_rel pc t t' (hf_user_id feed) c1 (v\<lparr>hv_pool := ?pool\<rparr>)"
    using load_pool_rel [OF assms(1,3,4,5)] by blast
  obtain seen c2 where s: "seen_load (he_seen env) c1 (hf_user_id feed) = (seen, c2)" by (cases "seen_load (he_seen env) c1 (hf_user_id feed)")
  have c2: "seen = set (hv_seen v)" "home_rel pc t t' (hf_user_id feed) c2 (v\<lparr>hv_pool := ?pool\<rparr>)"
    using seen_load_rel [OF c1(2) w(1)] s by simp_all
  obtain c3 where c3: "rebuild_pool pc st feed (he_reworld env) (he_restore env) c2 = Some (again, c3)"
      "home_rel pc t t' (hf_user_id feed) c3 (v\<lparr>hv_pool := again\<rparr>)"
    using rebuild_pool_rel [OF assms(2) c2(2) w(2) assms(5)] by auto
  show ?thesis
    using assms(6) c1(1) c2 c3 by (auto simp: home_choose_def spec_choose_def s Let_def split: if_splits)
qed

lemma seen_extend_rel:
  assumes "home_rel pc t t' u c v" "in_window t t' e1" "in_window t t' e2" "t' \<le> t + home_ttl"
  shows "home_rel pc t t' u (seen_extend e1 e2 c u new)
    (v\<lparr>hv_seen := if new = [] then hv_seen v else cap_urls (hv_seen v @ new)\<rparr>)"
proof (cases "new = []")
  case True
  then show ?thesis using assms(1) by (simp add: seen_extend_def)
next
  case False
  have h: "healthy t c" "keeps_list (pc_de pc) t' c (home_key u) (hv_pool v)"
      "keeps_list json_strings t' c (seen_key u) (hv_seen v)"
    using assms(1) by (simp_all add: home_rel_def)
  obtain got c1 where g: "cache_get json_strings e1 (seen_key u) c = (got, c1)"
    by (cases "cache_get json_strings e1 (seen_key u) c")
  have c1: "unwrap_or got [] = hv_seen v" "healthy t c1" "keeps_list (pc_de pc) t' c1 (home_key u) (hv_pool v)"
    using get_keeps_list(1) [OF h(1) assms(2) h(3)] get_keeps_list(2) [OF h(1) assms(2) h(2), of json_strings "seen_key u"]
      get_frame(1) [OF h(1) assms(2), of json_strings "seen_key u"] g by simp_all
  let ?new = "cap_urls (hv_seen v @ new)"
  obtain j where j: "strings_json ?new = Some j" "json_strings j = Some ?new"
    using json_strings_round_trip by blast
  have "seen_extend e1 e2 c u new = cache_set strings_json e2 (seen_key u) ?new seen_ttl c1"
    using False c1(1) by (simp add: seen_extend_def g Let_def)
  moreover have "keeps_list json_strings t' (cache_set strings_json e2 (seen_key u) ?new seen_ttl c1) (seen_key u) ?new"
    by (rule set_keeps_list [where ser = strings_json and de = json_strings, OF c1(2) assms(3) j]) (use assms(4) in \<open>simp add: home_ttl_def seen_ttl_def\<close>)
  ultimately show ?thesis
    using False c1(2,3) by (simp add: home_rel_def set_keeps_other [OF _ assms(3)] set_frame(1) [OF _ assms(3)])
qed

lemma home_serve_rel:
  assumes "rebuilt pc st feed (he_world env) fresh" "rebuilt pc st feed (he_reworld env) again"
    "home_rel pc t t' (hf_user_id feed) c v" "calls_within t t' env" "t' \<le> t + home_ttl"
    "home_serve pc st feed env params (c, tab) = (Done r, c', tab')"
    "spec_serve fresh again (page_limit params) (tp_max_id params = None) v = (page, v')"
  shows "(\<exists>c1. home_choose pc st feed env params c = Some (page, c1)) \<and> home_rel pc t t' (hf_user_id feed) c' v'"
proof -
  obtain pool where spec: "spec_choose fresh again (page_limit params) (tp_max_id params = None) v = (page, pool)"
      and v': "v' = \<lparr>hv_pool = pool, hv_seen = (if page = [] then hv_seen v else cap_urls (hv_seen v @ map fst page))\<rparr>"
    using assms(7) by (auto simp: spec_serve_def split: prod.splits)
  obtain c1 where c1: "home_choose pc st feed env params c = Some (page, c1)"
      "home_rel pc t t' (hf_user_id feed) c1 (v\<lparr>hv_pool := pool\<rparr>)"
    using home_choose_rel [OF assms(1-5) spec] by blast
  have w: "in_window t t' (he_old env)" "in_window t t' (he_extend env)"
    using assms(4) by (simp_all add: calls_within_def)
  have "c' = seen_extend (he_old env) (he_extend env) c1 (hf_user_id feed) (map fst page)"
    using assms(6) c1(1) by (auto simp: home_serve_def Let_def split: prod.splits run.splits)
  moreover have "v' = v\<lparr>hv_pool := pool,
      hv_seen := if map fst page = [] then hv_seen (v\<lparr>hv_pool := pool\<rparr>)
        else cap_urls (hv_seen (v\<lparr>hv_pool := pool\<rparr>) @ map fst page)\<rparr>"
    by (cases v) (simp add: v')
  ultimately have "home_rel pc t t' (hf_user_id feed) c' v'"
    using seen_extend_rel [OF c1(2) w assms(5), of "map fst page"] by simp
  with c1(1) show ?thesis by blast
qed

section \<open>A sequence of requests\<close>

text \<open>The responses of requests that are all answered, one after the other.\<close>

fun home_session :: "pool_codec \<Rightarrow> app_state \<Rightarrow> home_feed \<Rightarrow> (home_env \<times> timeline_params) list
    \<Rightarrow> cache \<times> status_table \<Rightarrow> (status list \<times> string option) list option" where
  "home_session pc st feed [] s = Some []"
| "home_session pc st feed ((env, params) # rs) s =
     (case home_serve pc st feed env params s of
        (Done r, s') \<Rightarrow> map_option (\<lambda>rest. r # rest) (home_session pc st feed rs s')
      | _ \<Rightarrow> None)"

text \<open>
  The responses that show given pages of items, one page each: the statuses built from the page,
  whose mappings go into the table for the next one, and the link to what follows. When building
  fails there is no status to show.
\<close>

fun shown :: "app_state \<Rightarrow> home_feed \<Rightarrow> home_env list \<Rightarrow> pool_item list list \<Rightarrow> status_table
    \<Rightarrow> (status list \<times> string option) list" where
  "shown st feed (env # envs) (page # pages) tab =
     (let (r, tab') = to_statuses (he_detail env) (he_conn env) (he_table env) (as_instance_domain st) (as_media st)
                        (map (\<lambda>(uri, grp, item). item) page) (Some (hf_user_id feed)) tab;
          ss = (case r of Done ss \<Rightarrow> ss | _ \<Rightarrow> [])
      in (ss, home_link (as_instance_domain st) ss) # shown st feed envs pages tab')"
| "shown st feed envs pages tab = []"

lemma home_serve_shown:
  assumes "home_serve pc st feed env params (c, tab) = (Done r, c', tab')"
    "home_choose pc st feed env params c = Some (page, c1)"
  shows "shown st feed (env # envs) (page # pages) tab = r # shown st feed envs pages tab'"
proof -
  have "snd \<circ> snd = (\<lambda>(uri :: string, grp :: string, item :: feed_item). item)" by (auto simp: fun_eq_iff)
  then show ?thesis
    using assms by (auto simp: home_serve_def Let_def split: prod.splits run.splits)
qed

definition unseen :: "string list \<Rightarrow> pool_item list \<Rightarrow> pool_item list" where
  "unseen seen pool = filter (\<lambda>i. fst i \<notin> set seen) pool"

lemma keep_unseen: "filter (keep False (set seen)) pool = unseen seen pool"
  unfolding unseen_def by (rule filter_cong) (auto simp: keep_def)

lemma unseen_served:
  assumes "distinct (map fst pool)"
  shows "unseen (seen @ map fst (take n (unseen seen pool))) pool = drop n (unseen seen pool)"
proof -
  let ?u = "unseen seen pool"
  let ?Q = "\<lambda>i. fst i \<notin> fst ` set (take n ?u)"
  have "distinct (map fst ?u)" using assms by (simp add: unseen_def distinct_map_filter)
  then have d: "distinct (map fst (take n ?u @ drop n ?u))" by simp
  have "unseen (seen @ map fst (take n ?u)) pool = filter ?Q ?u"
    by (auto simp: unseen_def intro!: filter_cong)
  also have "\<dots> = filter ?Q (take n ?u @ drop n ?u)" by simp
  also have "\<dots> = filter ?Q (take n ?u) @ filter ?Q (drop n ?u)" by (rule filter_append)
  also have "filter ?Q (take n ?u) = []" by simp
  also have "filter ?Q (drop n ?u) = drop n ?u"
    using d unfolding map_append distinct_append by (intro filter_True) (auto simp: disjoint_iff)
  finally show ?thesis by simp
qed

lemma pages_left:
  assumes "0 < (L :: nat)" "Suc n = (u + L - 1) div L"
  shows "n = (u - L + L - 1) div L" "0 < u"
proof -
  show "0 < u" using assms by (cases u) auto
  then have "u + L - 1 = (u - 1) + L" by simp
  then have "Suc n = ((u - 1) + L) div L" using assms(2) by (simp only:)
  also have "\<dots> = Suc ((u - 1) div L)" using assms(1) by (simp only: div_add_self2 neq0_conv Suc_eq_plus1)
  finally have n: "n = (u - 1) div L" by simp
  show "n = (u - L + L - 1) div L"
  proof (cases "u \<le> L")
    case True
    then have "u - 1 < L" using assms(1) by simp
    then show ?thesis using n True assms(1) by simp
  next
    case False
    then show ?thesis using n by simp
  qed
qed

lemma page_limit_pos: "0 < page_limit params" "page_limit params \<le> 40"
  by (simp_all add: page_limit_def)

definition follows_up :: "pool_codec \<Rightarrow> app_state \<Rightarrow> home_feed \<Rightarrow> int \<Rightarrow> int \<Rightarrow> nat \<Rightarrow> home_env \<times> timeline_params \<Rightarrow> bool" where
  "follows_up pc st feed t t' limit r \<longleftrightarrow>
     (case r of (env, params) \<Rightarrow> calls_within t t' env \<and> tp_max_id params \<noteq> None \<and> page_limit params = limit
        \<and> Ex (rebuilt pc st feed (he_world env)) \<and> Ex (rebuilt pc st feed (he_reworld env)))"

lemma home_session_unseen:
  assumes "home_rel pc t t' (hf_user_id feed) c \<lparr>hv_pool = pool, hv_seen = seen\<rparr>" "t' \<le> t + home_ttl"
    "pool \<noteq> []" "distinct (map fst pool)" "length seen + length (unseen seen pool) \<le> seen_cap"
    "list_all (follows_up pc st feed t t' limit) rs" "0 < limit"
    "length rs = (length (unseen seen pool) + limit - 1) div limit"
    "home_session pc st feed rs (c, tab) = Some responses"
  shows "\<exists>pages. concat pages = unseen seen pool \<and> length pages = length rs
    \<and> (\<forall>page \<in> set pages. page \<noteq> [] \<and> length page \<le> limit)
    \<and> responses = shown st feed (map fst rs) pages tab"
  using assms(1,5,6,8,9)
proof (induction rs arbitrary: c tab seen responses)
  case Nil
  then have "unseen seen pool = []" using assms(7) by (cases "unseen seen pool") auto
  then show ?case using Nil by simp
next
  case (Cons r rs)
  obtain env params where r: "r = (env, params)" by (cases r)
  from Cons.prems(5) obtain resp c' tab' rest where
      serve: "home_serve pc st feed env params (c, tab) = (Done resp, c', tab')"
      and rest: "home_session pc st feed rs (c', tab') = Some rest" "responses = resp # rest"
    unfolding r by (auto split: run.splits option.splits prod.splits)
  have q: "calls_within t t' env" "tp_max_id params \<noteq> None" "page_limit params = limit"
    using Cons.prems(3) by (auto simp: r follows_up_def)
  obtain fresh again where f: "rebuilt pc st feed (he_world env) fresh" "rebuilt pc st feed (he_reworld env) again"
    using Cons.prems(3) by (auto simp: r follows_up_def)
  let ?u = "unseen seen pool"
  have n: "length rs = (length ?u - limit + limit - 1) div limit" "0 < length ?u"
    using pages_left [OF assms(7), of "length rs" "length ?u"] Cons.prems(4) by simp_all
  have ne: "take limit ?u \<noteq> []" using n(2) assms(7) by auto
  have cap: "cap_urls (seen @ map fst (take limit ?u)) = seen @ map fst (take limit ?u)"
    using Cons.prems(2) by (auto simp: cap_urls_def min_def)
  have spec: "spec_serve fresh again (page_limit params) (tp_max_id params = None) \<lparr>hv_pool = pool, hv_seen = seen\<rparr>
      = (take limit ?u, \<lparr>hv_pool = pool, hv_seen = seen @ map fst (take limit ?u)\<rparr>)"
  proof -
    have reload: "(tp_max_id params = None) = False" using q(2) by simp
    show ?thesis
      unfolding spec_serve_def spec_choose_def Let_def q(3) reload using ne assms(3) cap by (simp add: keep_unseen)
  qed
  from home_serve_rel [OF f Cons.prems(1) q(1) assms(2) serve spec] obtain c1 where
    choose: "home_choose pc st feed env params c = Some (take limit ?u, c1)"
    and rel: "home_rel pc t t' (hf_user_id feed) c' \<lparr>hv_pool = pool, hv_seen = seen @ map fst (take limit ?u)\<rparr>"
    by blast
  have u': "unseen (seen @ map fst (take limit ?u)) pool = drop limit ?u" by (rule unseen_served [OF assms(4)])
  have "\<exists>pages. concat pages = drop limit ?u \<and> length pages = length rs
    \<and> (\<forall>page \<in> set pages. page \<noteq> [] \<and> length page \<le> limit) \<and> rest = shown st feed (map fst rs) pages tab'"
    unfolding u' [symmetric]
    by (rule Cons.IH [OF rel]) (use Cons.prems(2,3) n rest u' in auto)
  then obtain pages where "concat pages = drop limit ?u" "length pages = length rs"
    "\<forall>page \<in> set pages. page \<noteq> [] \<and> length page \<le> limit" "rest = shown st feed (map fst rs) pages tab'" by blast
  then show ?case
    using home_serve_shown [OF serve choose] rest(2) ne by (intro exI [of _ "take limit ?u # pages"]) (simp add: r)
qed

section \<open>Properties\<close>

text \<open>
  C2: While Redis answers (or the cache is in memory), serving the home feed refines the step on a
  user's ranked pool and seen list: the page is the next unseen items of the cached pool, of a fresh
  one where none is cached, and of a second fresh one where everything was seen (a reload shows posts
  of the network group again), and afterwards the cache holds that pool and the seen list extended
  by the page, cut to its newest 500, even where building the statuses failed.
\<close>

theorem home_serve_refines:
  assumes "rebuilt pc st feed (he_world env) fresh" "rebuilt pc st feed (he_reworld env) again"
    "home_rel pc t t' (hf_user_id feed) c v" "calls_within t t' env" "t' \<le> t + home_ttl"
    "home_serve pc st feed env params (c, tab) = (Done r, c', tab')"
    "spec_serve fresh again (page_limit params) (tp_max_id params = None) v = (page, v')"
  shows "(\<exists>c1. home_choose pc st feed env params c = Some (page, c1)) \<and> home_rel pc t t' (hf_user_id feed) c' v'"
  using assms by (rule home_serve_rel)


section \<open>Examples\<close>

definition quiet_world :: feed_world where
  "quiet_world = \<lparr>fw_posts = (\<lambda>q. Send_Failed), fw_links = (\<lambda>q. Send_Failed), fw_tags = (\<lambda>q. Send_Failed),
     fw_db = (\<lambda>n. None), fw_now = 0, fw_ln = id, fw_exp = id, fw_lower = id\<rparr>"

definition cold_loads :: home_loads where
  "cold_loads = \<lparr>hl_vector = Inr None, hl_policy = Inr policy_default, hl_trending = Inr [], hl_bound = Inr []\<rparr>"

definition demo_state :: app_state where
  "demo_state = \<lparr>as_instance_domain = ''i.test'', as_media = media_config_new ''i.test'' False, as_model_name = ''m''\<rparr>"

definition cold_feed :: home_feed where
  "cold_feed = home_feed_new demo_state 5 query_filters_default cold_loads"

definition demo_pool :: "pool_item list" where
  "demo_pool = [(''u8'', ''network'', Local 8), (''u7'', ''trending'', Local 7)]"

text \<open>A codec that is faithful on the two pools of the example.\<close>

definition demo_codec :: pool_codec where
  "demo_codec = \<lparr>pc_ser = (\<lambda>p. Some (if p = [] then JArr [] else JNull)),
     pc_de = (\<lambda>j. case j of JNull \<Rightarrow> Some demo_pool | JArr js \<Rightarrow> Some [] | _ \<Rightarrow> None)\<rparr>"

definition demo_cache :: cache where
  "demo_cache = cache_in_memory\<lparr>ca_backend := Memory ((\<lambda>k. None)('':home:5'' := Some JNull))\<rparr>"

definition demo_request :: "home_env \<times> timeline_params" where
  "demo_request = (\<lparr>he_load = now_call, he_store = now_call, he_world = quiet_world, he_seen = now_call,
     he_restore = now_call, he_reworld = quiet_world, he_old = now_call, he_extend = now_call,
     he_detail = plain_env, he_conn = detail_conn, he_table = plain_table\<rparr>,
     \<lparr>tp_limit = 1, tp_max_id = Some ''9'', tp_min_id = None, tp_since_id = None\<rparr>)"

lemma cold_rebuilt: "rebuilt demo_codec demo_state cold_feed quiet_world []"
proof -
  have "map_option length (hf_collect cold_feed quiet_world) = Some 0" by code_simp
  then obtain cs where "hf_collect cold_feed quiet_world = Some cs" "cs = []" by auto
  then show ?thesis by (simp add: rebuilt_def pool_of_def demo_codec_def)
qed

lemma demo_rel: "home_rel demo_codec 0 200 5 demo_cache \<lparr>hv_pool = demo_pool, hv_seen = []\<rparr>"
proof -
  have "entry demo_cache (home_key 5) = Some (JNull, None)" "entry demo_cache (seen_key 5) = None"
    by code_simp+
  then show ?thesis
    by (simp add: home_rel_def healthy_def demo_cache_def keeps_list_def lasts_def demo_codec_def)
qed

lemma demo_follows: "follows_up demo_codec demo_state cold_feed 0 200 1 demo_request"
  using cold_rebuilt
  by (auto simp: follows_up_def demo_request_def calls_within_def in_window_def now_call_def page_limit_def)


theorem home_serve_refines_witness:
  "\<exists>c1. home_choose demo_codec demo_state cold_feed (fst demo_request) (snd demo_request) demo_cache
     = Some ([(''u8'', ''network'', Local 8)], c1)"
proof -
  let ?v = "\<lparr>hv_pool = demo_pool, hv_seen = []\<rparr>"
  have "case home_serve demo_codec demo_state cold_feed (fst demo_request) (snd demo_request) (demo_cache, []) of
      (Done r, s') \<Rightarrow> True | _ \<Rightarrow> False" by code_simp
  then obtain r c' tab' where s: "home_serve demo_codec demo_state cold_feed (fst demo_request) (snd demo_request) (demo_cache, [])
      = (Done r, c', tab')" by (auto split: prod.splits run.splits)
  have w: "he_world (fst demo_request) = quiet_world" "he_reworld (fst demo_request) = quiet_world"
      "page_limit (snd demo_request) = 1" "tp_max_id (snd demo_request) \<noteq> None" "hf_user_id cold_feed = 5"
    by (simp_all add: demo_request_def page_limit_def cold_feed_def home_feed_new_def)
  have calls: "calls_within 0 200 (fst demo_request)"
    by (simp add: demo_request_def calls_within_def in_window_def now_call_def)
  have rel: "home_rel demo_codec 0 200 (hf_user_id cold_feed) demo_cache ?v" using demo_rel w(5) by simp
  obtain page v' where spec: "spec_serve [] [] (page_limit (snd demo_request)) (tp_max_id (snd demo_request) = None) ?v = (page, v')"
    by (cases "spec_serve [] [] (page_limit (snd demo_request)) (tp_max_id (snd demo_request) = None) ?v")
  have reb: "rebuilt demo_codec demo_state cold_feed (he_world (fst demo_request)) []"
      "rebuilt demo_codec demo_state cold_feed (he_reworld (fst demo_request)) []"
    using cold_rebuilt w by simp_all
  have "page = [(''u8'', ''network'', Local 8)]"
    using spec w(3,4) by (auto simp: spec_serve_def spec_choose_def demo_pool_def keep_def Let_def split: if_splits)
  with home_serve_refines [OF reb rel calls _ s spec] show ?thesis by (simp add: home_ttl_def)
qed

end
