(* ===== verification/Auth.thy ===== *)
theory Auth
  imports Commonfeed Rust_Float
begin

text \<open>
  Who asks, and in which languages: \<open>apps/server/src/auth.rs\<close> (the account behind a bearer token),
  \<open>language.rs\<close> (the languages of a request) and \<open>routes/mastodon/extract.rs\<close>. The header values
  are the ones \<open>to_str\<close> yields, which are printable ASCII and tabs. The rows of the three tables of
  Mastodon's database are the columns the query names.
\<close>

section \<open>Accounts\<close>

record token_row =
  tk_token :: string
  tk_resource_owner_id :: "int option"
  tk_revoked_at :: "instant option"
  tk_expires_in :: "int option"
  tk_created_at :: instant

record user_row =
  us_id :: int
  us_account_id :: int
  us_chosen_languages :: "string list option"
  us_locale :: "string option"
  us_confirmed_at :: "instant option"
  us_approved :: bool
  us_disabled :: bool

record login_row =
  lg_id :: int
  lg_username :: string
  lg_suspended_at :: "instant option"
  lg_memorial :: bool
  lg_moved_to_account_id :: "int option"

record auth_db =
  ad_tokens :: "token_row list"
  ad_users :: "user_row list"
  ad_accounts :: "login_row list"

record account =
  ac_id :: int
  ac_username :: string
  ac_chosen_languages :: "string list"
  ac_token :: string

record request_headers =
  rh_authorization :: "string option"
  rh_accept_language :: "string option"

definition ascii_space :: "char \<Rightarrow> bool" where
  "ascii_space c = (let n = of_char c :: nat in n = 32 \<or> 9 \<le> n \<and> n \<le> 13)"

definition trim :: "string \<Rightarrow> string" where
  "trim s = rev (dropWhile ascii_space (rev (dropWhile ascii_space s)))"

definition extract_token :: "request_headers \<Rightarrow> string option" where
  "extract_token hs =
     Option.bind (rh_authorization hs) (\<lambda>header.
       Option.bind (strip_prefix ''Bearer '' header) (\<lambda>rest.
         let token = trim rest in if token = [] then None else Some token))"

text \<open>\<open>t.created_at + t.expires_in * INTERVAL '1 second' > NOW()\<close>, in microseconds.\<close>

definition token_live :: "instant \<Rightarrow> token_row \<Rightarrow> bool" where
  "token_live now t \<longleftrightarrow> tk_revoked_at t = None
     \<and> (case tk_expires_in t of None \<Rightarrow> True | Some s \<Rightarrow> tk_created_at t + s * 1000000 > now)"

definition token_rows :: "auth_db \<Rightarrow> instant \<Rightarrow> string \<Rightarrow> (user_row \<times> login_row) list" where
  "token_rows db now token =
     [(u, a). t \<leftarrow> ad_tokens db, u \<leftarrow> ad_users db, a \<leftarrow> ad_accounts db,
        tk_resource_owner_id t = Some (us_id u) \<and> lg_id a = us_account_id u \<and> tk_token t = token
        \<and> token_live now t \<and> us_confirmed_at u \<noteq> None \<and> us_approved u \<and> \<not> us_disabled u
        \<and> lg_suspended_at a = None \<and> \<not> lg_memorial a \<and> lg_moved_to_account_id a = None]"

definition account_of :: "string \<Rightarrow> user_row \<times> login_row \<Rightarrow> account" where
  "account_of token row =
     (case row of (u, a) \<Rightarrow>
        \<lparr>ac_id = us_account_id u, ac_username = lg_username a,
         ac_chosen_languages =
           (case us_chosen_languages u of
              Some langs \<Rightarrow> if langs \<noteq> [] then langs else (case us_locale u of None \<Rightarrow> [] | Some l \<Rightarrow> [l])
            | None \<Rightarrow> (case us_locale u of None \<Rightarrow> [] | Some l \<Rightarrow> [l])),
         ac_token = token\<rparr>)"

text \<open>The database is \<open>None\<close> when the query fails.\<close>

definition resolve_account :: "auth_db option \<Rightarrow> instant \<Rightarrow> string \<Rightarrow> account option option" where
  "resolve_account db now token =
     map_option (\<lambda>d. case token_rows d now token of [] \<Rightarrow> None | row # _ \<Rightarrow> Some (account_of token row)) db"

text \<open>The extractor of a route that needs an account, and of one that takes anonymous requests.\<close>

definition account_required :: "auth_db option \<Rightarrow> instant \<Rightarrow> request_headers \<Rightarrow> nat + account" where
  "account_required db now hs =
     (case extract_token hs of
        None \<Rightarrow> Inl 401
      | Some token \<Rightarrow>
          (case resolve_account db now token of
             Some (Some a) \<Rightarrow> Inr a | Some None \<Rightarrow> Inl 401 | None \<Rightarrow> Inl 500))"

definition account_optional :: "auth_db option \<Rightarrow> instant \<Rightarrow> request_headers \<Rightarrow> nat + account option" where
  "account_optional db now hs =
     (case extract_token hs of
        None \<Rightarrow> Inr None
      | Some token \<Rightarrow>
          (case resolve_account db now token of
             Some (Some a) \<Rightarrow> Inr (Some a) | Some None \<Rightarrow> Inr None | None \<Rightarrow> Inl 500))"

section \<open>Parsing an \<open>f32\<close>\<close>

text \<open>\<open>str::parse::<f32>\<close>: the grammar of the standard library, rounded to the nearest value.\<close>

definition is_digit :: "char \<Rightarrow> bool" where
  "is_digit c \<longleftrightarrow> digit_val c \<noteq> None"

definition ascii_lower :: "string \<Rightarrow> string" where
  "ascii_lower s = map (\<lambda>c. let n = of_char c :: nat in if 65 \<le> n \<and> n \<le> 90 then char_of (n + 32) else c) s"

definition take_sign :: "string \<Rightarrow> bool \<times> string" where
  "take_sign s =
     (case s of [] \<Rightarrow> (False, [])
      | c # cs \<Rightarrow> if c = CHR ''-'' then (True, cs) else if c = CHR ''+'' then (False, cs) else (False, s))"

definition parse_exponent :: "string \<Rightarrow> int option" where
  "parse_exponent s =
     (case s of
        [] \<Rightarrow> Some 0
      | c # cs \<Rightarrow>
          if c = CHR ''e'' \<or> c = CHR ''E''
          then let (neg, ds) = take_sign cs
               in map_option (\<lambda>n. if neg then - int n else int n) (parse_digits ds)
          else None)"

definition scale10 :: "rat \<Rightarrow> int \<Rightarrow> rat" where
  "scale10 x e = (if 0 \<le> e then x * 10 ^ nat e else x / 10 ^ nat (- e))"

definition parse_decimal :: "string \<Rightarrow> rat option" where
  "parse_decimal s =
     (let a = takeWhile is_digit s; r = dropWhile is_digit s;
          dot = (r \<noteq> [] \<and> hd r = CHR ''.'');
          b = (if dot then takeWhile is_digit (tl r) else []);
          e = (if dot then dropWhile is_digit (tl r) else r)
      in if a = [] \<and> b = [] then None
         else case (parse_exponent e, parse_digits (a @ b)) of
                (Some k, Some n) \<Rightarrow> Some (scale10 (of_nat n) (k - int (length b)))
              | _ \<Rightarrow> None)"

definition parse_float :: "fmt \<Rightarrow> string \<Rightarrow> fl option" where
  "parse_float F s =
     (let (neg, r) = take_sign s; low = ascii_lower r
      in if low = ''inf'' \<or> low = ''infinity'' then Some (Infty neg)
         else if low = ''nan'' then Some NaN
         else map_option (\<lambda>x. rnd F (if neg then - x else x)) (parse_decimal r))"

section \<open>Languages\<close>

text \<open>
  \<open>sort_by\<close> with \<open>b.partial_cmp(a).unwrap_or(Equal)\<close>: a stable sort, here by insertion from the
  right, as the standard library does for up to 20 elements. (A \<open>NaN\<close> among the qualities makes the
  comparison no total order; for longer lists the library then leaves the order open and may
  panic.)
\<close>

fun insert_tail :: "string \<times> fl \<Rightarrow> (string \<times> fl) list \<Rightarrow> (string \<times> fl) list" where
  "insert_tail x [] = [x]"
| "insert_tail x (y # ys) =
     (if partial_cmp (snd y) (snd x) = Some Less then y # insert_tail x ys else x # y # ys)"

definition sort_quality :: "(string \<times> fl) list \<Rightarrow> (string \<times> fl) list" where
  "sort_quality xs = rev (fold insert_tail xs [])"

text \<open>\<open>Vec::dedup_by\<close> compares each element with the last one kept.\<close>

fun dedup_consecutive :: "('a \<Rightarrow> 'a \<Rightarrow> bool) \<Rightarrow> 'a list \<Rightarrow> 'a list" where
  "dedup_consecutive same (x # y # zs) =
     (if same y x then dedup_consecutive same (x # zs) else x # dedup_consecutive same (y # zs))"
| "dedup_consecutive same xs = xs"

definition language_entry :: "string \<Rightarrow> (string \<times> fl) option" where
  "language_entry raw =
     (let entry = trim raw;
          (lang, quality) = (case split_once '';q='' entry of
              Some (l, q) \<Rightarrow> (trim l, unwrap_or (parse_float binary32 (trim q)) (Fin 0))
            | None \<Rightarrow> (entry, Fin 1));
          primary = hd (split_char CHR ''-'' lang)
      in if primary = [] \<or> primary = ''*'' then None else Some (ascii_lower primary, quality))"

definition parse_accept_language :: "request_headers \<Rightarrow> string list" where
  "parse_accept_language hs =
     (case rh_accept_language hs of
        None \<Rightarrow> []
      | Some header \<Rightarrow>
          map fst (dedup_consecutive (\<lambda>a b. fst a = fst b)
            (sort_quality (List.map_filter language_entry (split_char CHR '','' header)))))"

definition resolve_languages :: "account option \<Rightarrow> request_headers \<Rightarrow> string list" where
  "resolve_languages acc hs =
     (case acc of
        Some a \<Rightarrow> if ac_chosen_languages a \<noteq> [] then ac_chosen_languages a else parse_accept_language hs
      | None \<Rightarrow> parse_accept_language hs)"

definition request_filters :: "account option \<Rightarrow> request_headers \<Rightarrow> query_filters" where
  "request_filters acc hs = query_filters_default\<lparr>qf_language := resolve_languages acc hs\<rparr>"

section \<open>Lemmas\<close>

text \<open>The two extractors agree on who is asking.\<close>

lemma optional_required:
  "account_optional db now hs = Inr (Some a) \<longleftrightarrow> account_required db now hs = Inr a"
  by (auto simp: account_optional_def account_required_def split: option.splits)

lemma token_rows_iff:
  "(u, a) \<in> set (token_rows db now token) \<longleftrightarrow> u \<in> set (ad_users db) \<and> a \<in> set (ad_accounts db)
     \<and> lg_id a = us_account_id u \<and> us_confirmed_at u \<noteq> None \<and> us_approved u \<and> \<not> us_disabled u
     \<and> lg_suspended_at a = None \<and> \<not> lg_memorial a \<and> lg_moved_to_account_id a = None
     \<and> (\<exists>t \<in> set (ad_tokens db). tk_resource_owner_id t = Some (us_id u) \<and> tk_token t = token \<and> token_live now t)"
  by (auto simp: token_rows_def)

text \<open>
  A language whose regional variants have different qualities is listed twice when another one
  comes between them: duplicates are removed only where they are adjacent.
\<close>

lemma languages_listed_twice:
  "parse_accept_language \<lparr>rh_authorization = None, rh_accept_language = Some ''en-US,de;q=0.8,en;q=0.7''\<rparr>
     = [''en'', ''de'', ''en'']"
  by code_simp

end
