(* ===== verification/Timelines.thy ===== *)
theory Timelines
  imports Home_Feed Auth
begin

text \<open>
  Serving timelines and trends: \<open>feeds/timeline_feed.rs\<close> (tag and link timelines),
  \<open>feeds/trend_feed.rs\<close> with the three trend feeds, and the routes of
  \<open>routes/mastodon/timelines.rs\<close> and \<open>trends.rs\<close>. The list of a trend is cached for a minute; a
  request that finds it cached answers from it and rebuilds it in the background, which is an
  operation of its own here because it runs after the request and beside others.
\<close>

section \<open>Timelines\<close>

text \<open>What a page of statuses is built from: the environment, the database and the mapping table.\<close>

record page_env =
  pe_detail :: detail_env
  pe_conn :: conn
  pe_table :: table_env

definition timeline_serve :: "app_state \<Rightarrow> string \<Rightarrow> int option \<Rightarrow> page_env \<Rightarrow> post candidate list \<Rightarrow> timeline_params
    \<Rightarrow> status_table \<Rightarrow> (status list \<times> string option) run \<times> status_table" where
  "timeline_serve st path viewer env candidates params tab =
     (let cached = map (\<lambda>c. feed_item_from_post (c_item c) (as_instance_domain st)) candidates;
          (r, tab') = to_statuses (pe_detail env) (pe_conn env) (pe_table env) (as_instance_domain st)
                        (as_media st) cached viewer tab
      in (case r of
            Panicked \<Rightarrow> Panicked
          | _ \<Rightarrow> Done (paginate (case r of Done ss \<Rightarrow> ss | _ \<Rightarrow> []) (min 40 (tp_limit params)) (tp_max_id params)
                   (tp_min_id params) (tp_since_id params) (as_instance_domain st) path), tab'))"

definition tag_path :: "string \<Rightarrow> string" where
  "tag_path hashtag = ''/api/v1/timelines/tag/'' @ hashtag"

definition link_path :: string where
  "link_path = ''/api/v1/timelines/link''"

definition tag_serve :: "app_state \<Rightarrow> account option \<Rightarrow> query_filters \<Rightarrow> string \<Rightarrow> state_error + user_policy
    \<Rightarrow> state_error + bound_provider list \<Rightarrow> feed_world \<Rightarrow> page_env \<Rightarrow> timeline_params \<Rightarrow> status_table
    \<Rightarrow> (status list \<times> string option) run \<times> status_table" where
  "tag_serve st acc filters hashtag policy bound w env params tab =
     (case tag_collect st filters hashtag (map_option (\<lambda>a. policy) acc) bound w of
        None \<Rightarrow> (Panicked, tab)
      | Some cs \<Rightarrow> timeline_serve st (tag_path hashtag) (map_option ac_id acc) env cs params tab)"

definition link_serve :: "app_state \<Rightarrow> account option \<Rightarrow> query_filters \<Rightarrow> string \<Rightarrow> state_error + user_policy
    \<Rightarrow> state_error + bound_provider list \<Rightarrow> feed_world \<Rightarrow> page_env \<Rightarrow> timeline_params \<Rightarrow> status_table
    \<Rightarrow> (status list \<times> string option) run \<times> status_table" where
  "link_serve st acc filters url policy bound w env params tab =
     (case link_collect filters url (map_option (\<lambda>a. policy) acc) bound w of
        None \<Rightarrow> (Panicked, tab)
      | Some cs \<Rightarrow> timeline_serve st link_path (map_option ac_id acc) env cs params tab)"

section \<open>Trends\<close>

definition trend_ttl :: int where "trend_ttl = 60"

text \<open>A trend's list is stored with the encoding of its items.\<close>

record 'i trend_codec =
  tc_ser :: "'i list \<Rightarrow> json option"
  tc_de :: "json \<Rightarrow> 'i list option"

definition trend_key :: "string \<Rightarrow> query_filters \<Rightarrow> string" where
  "trend_key resource filters =
     (let langs = sort_key (map (of_char :: char \<Rightarrow> nat)) (qf_language filters);
          lang = (if langs = [] then ''*'' else join '','' langs)
      in ''trends:'' @ resource @ '':'' @ lang)"

text \<open>The items of a request and whether they came from the cache; \<open>None\<close> is a panic.\<close>

definition trend_items :: "'i trend_codec \<Rightarrow> string \<Rightarrow> 'i candidate list option \<Rightarrow> call \<Rightarrow> call \<Rightarrow> cache
    \<Rightarrow> ('i list \<times> bool \<times> cache) option" where
  "trend_items tc key collected e1 e2 c =
     (let (v, c1) = cache_get (tc_de tc) e1 key c
      in case v of
           Some cached \<Rightarrow> Some (cached, True, c1)
         | None \<Rightarrow> map_option (\<lambda>cs. let fresh = map c_item cs
              in (fresh, False, cache_set (tc_ser tc) e2 key fresh trend_ttl c1)) collected)"

text \<open>The task spawned when the items were cached.\<close>

definition trend_refresh :: "'i trend_codec \<Rightarrow> string \<Rightarrow> 'i candidate list option \<Rightarrow> call \<Rightarrow> cache \<Rightarrow> cache" where
  "trend_refresh tc key collected e c =
     (case collected of None \<Rightarrow> c | Some cs \<Rightarrow> cache_set (tc_ser tc) e key (map c_item cs) trend_ttl c)"

definition trend_link :: "string \<Rightarrow> string \<Rightarrow> string option \<Rightarrow> string option" where
  "trend_link instance_domain path cursor =
     Option.bind cursor (\<lambda>c. header_value (page_link instance_domain path ''offset'' c ''next''))"

definition trend_page :: "app_state \<Rightarrow> string \<Rightarrow> ('i list \<Rightarrow> 'r) \<Rightarrow> 'i list \<Rightarrow> string option \<Rightarrow> nat \<Rightarrow> 'r \<times> string option" where
  "trend_page st path to_response items cursor limit =
     (let page = engine_paginate items cursor limit
      in (to_response (p_items page), trend_link (as_instance_domain st) path (p_cursor page)))"

record trend_params =
  tr_limit :: nat
  tr_offset :: "string option"

text \<open>The three trends; the route cuts the limit to 40. The statuses are mapped to ids of the table.\<close>

definition trending_statuses_serve :: "app_state \<Rightarrow> post trend_codec \<Rightarrow> query_filters \<Rightarrow> post candidate list option
    \<Rightarrow> call \<Rightarrow> call \<Rightarrow> table_env \<Rightarrow> html_env \<Rightarrow> trend_params \<Rightarrow> cache \<times> status_table
    \<Rightarrow> ((status list \<times> string option) \<times> bool \<times> cache \<times> status_table) option" where
  "trending_statuses_serve st tc filters collected e1 e2 te env params s =
     (case s of (c, tab) \<Rightarrow>
        map_option (\<lambda>(items, cached, c1).
          let ((statuses, tab'), next_link) = trend_page st ''/api/v1/trends/statuses''
                (\<lambda>posts. from_posts te env (as_instance_domain st) posts tab) items (tr_offset params) (min 40 (tr_limit params))
          in ((statuses, next_link), cached, c1, tab'))
          (trend_items tc (trend_key ''statuses'' filters) collected e1 e2 c))"

definition trending_tags_serve :: "app_state \<Rightarrow> tag trend_codec \<Rightarrow> query_filters \<Rightarrow> tag candidate list option
    \<Rightarrow> call \<Rightarrow> call \<Rightarrow> trend_params \<Rightarrow> cache \<Rightarrow> ((entity_tag list \<times> string option) \<times> bool \<times> cache) option" where
  "trending_tags_serve st tc filters collected e1 e2 params c =
     map_option (\<lambda>(items, cached, c1).
        (trend_page st ''/api/v1/trends/tags'' (map tag_from) items (tr_offset params) (min 40 (tr_limit params)), cached, c1))
       (trend_items tc (trend_key ''tags'' filters) collected e1 e2 c)"

definition trending_links_serve :: "app_state \<Rightarrow> html_env \<Rightarrow> instant \<Rightarrow> link trend_codec \<Rightarrow> query_filters \<Rightarrow> link candidate list option
    \<Rightarrow> call \<Rightarrow> call \<Rightarrow> trend_params \<Rightarrow> cache \<Rightarrow> ((card_entity list \<times> string option) \<times> bool \<times> cache) option" where
  "trending_links_serve st env now tc filters collected e1 e2 params c =
     map_option (\<lambda>(items, cached, c1).
        (trend_page st ''/api/v1/trends/links'' (map (card_from_link env now)) items (tr_offset params) (min 40 (tr_limit params)), cached, c1))
       (trend_items tc (trend_key ''links'' filters) collected e1 e2 c)"

section \<open>Routes\<close>

text \<open>\<open>GET /api/v1/timelines/home\<close>: without an account nothing is served and nothing changes.\<close>

definition home_route :: "pool_codec \<Rightarrow> app_state \<Rightarrow> auth_db option \<Rightarrow> instant \<Rightarrow> request_headers \<Rightarrow> (int \<Rightarrow> home_loads)
    \<Rightarrow> home_env \<Rightarrow> timeline_params \<Rightarrow> cache \<times> status_table \<Rightarrow> (nat + (status list \<times> string option) run) \<times> cache \<times> status_table" where
  "home_route pc st db now hs loads env params s =
     (case account_required db now hs of
        Inl code \<Rightarrow> (Inl code, s)
      | Inr a \<Rightarrow>
          let feed = home_feed_new st (ac_id a) (request_filters (Some a) hs) (loads (ac_id a));
              (r, s') = home_serve pc st feed env params s
          in (Inr r, s'))"

definition tag_route :: "app_state \<Rightarrow> auth_db option \<Rightarrow> instant \<Rightarrow> request_headers \<Rightarrow> string \<Rightarrow> (int \<Rightarrow> state_error + user_policy)
    \<Rightarrow> state_error + bound_provider list \<Rightarrow> feed_world \<Rightarrow> page_env \<Rightarrow> timeline_params \<Rightarrow> status_table
    \<Rightarrow> (nat + (status list \<times> string option) run) \<times> status_table" where
  "tag_route st db now hs hashtag policies bound w env params tab =
     (case account_optional db now hs of
        Inl code \<Rightarrow> (Inl code, tab)
      | Inr acc \<Rightarrow>
          let (r, tab') = tag_serve st acc (request_filters acc hs) hashtag
                (case acc of None \<Rightarrow> Inr policy_default | Some a \<Rightarrow> policies (ac_id a)) bound w env params tab
          in (Inr r, tab'))"

definition link_route :: "app_state \<Rightarrow> auth_db option \<Rightarrow> instant \<Rightarrow> request_headers \<Rightarrow> string \<Rightarrow> (int \<Rightarrow> state_error + user_policy)
    \<Rightarrow> state_error + bound_provider list \<Rightarrow> feed_world \<Rightarrow> page_env \<Rightarrow> timeline_params \<Rightarrow> status_table
    \<Rightarrow> (nat + (status list \<times> string option) run) \<times> status_table" where
  "link_route st db now hs url policies bound w env params tab =
     (case account_optional db now hs of
        Inl code \<Rightarrow> (Inl code, tab)
      | Inr acc \<Rightarrow>
          let (r, tab') = link_serve st acc (request_filters acc hs) url
                (case acc of None \<Rightarrow> Inr policy_default | Some a \<Rightarrow> policies (ac_id a)) bound w env params tab
          in (Inr r, tab'))"

text \<open>\<open>GET /api/v1/trends/..\<close>: what a trend of given filters serves, for an account or for nobody.\<close>

definition trend_route :: "auth_db option \<Rightarrow> instant \<Rightarrow> request_headers \<Rightarrow> (query_filters \<Rightarrow> 's \<Rightarrow> 'r \<times> 's) \<Rightarrow> 's \<Rightarrow> (nat + 'r) \<times> 's" where
  "trend_route db now hs serve s =
     (case account_optional db now hs of
        Inl code \<Rightarrow> (Inl code, s)
      | Inr acc \<Rightarrow> (case serve (request_filters acc hs) s of (r, s') \<Rightarrow> (Inr r, s')))"

definition statuses_trend_route :: "app_state \<Rightarrow> auth_db option \<Rightarrow> instant \<Rightarrow> request_headers \<Rightarrow> post trend_codec
    \<Rightarrow> (query_filters \<Rightarrow> post candidate list option) \<Rightarrow> call \<Rightarrow> call \<Rightarrow> table_env \<Rightarrow> html_env \<Rightarrow> trend_params \<Rightarrow> cache \<times> status_table
    \<Rightarrow> (nat + (status list \<times> string option) option) \<times> cache \<times> status_table" where
  "statuses_trend_route st db now hs tc collected e1 e2 te env params =
     trend_route db now hs (\<lambda>filters s.
       case trending_statuses_serve st tc filters (collected filters) e1 e2 te env params s of
         None \<Rightarrow> (None, s) | Some (r, cached, s') \<Rightarrow> (Some r, s'))"

definition tags_trend_route :: "app_state \<Rightarrow> auth_db option \<Rightarrow> instant \<Rightarrow> request_headers \<Rightarrow> tag trend_codec
    \<Rightarrow> (query_filters \<Rightarrow> tag candidate list option) \<Rightarrow> call \<Rightarrow> call \<Rightarrow> trend_params \<Rightarrow> cache
    \<Rightarrow> (nat + (entity_tag list \<times> string option) option) \<times> cache" where
  "tags_trend_route st db now hs tc collected e1 e2 params =
     trend_route db now hs (\<lambda>filters c.
       case trending_tags_serve st tc filters (collected filters) e1 e2 params c of
         None \<Rightarrow> (None, c) | Some (r, cached, c') \<Rightarrow> (Some r, c'))"

definition links_trend_route :: "app_state \<Rightarrow> html_env \<Rightarrow> auth_db option \<Rightarrow> instant \<Rightarrow> request_headers \<Rightarrow> link trend_codec
    \<Rightarrow> (query_filters \<Rightarrow> link candidate list option) \<Rightarrow> call \<Rightarrow> call \<Rightarrow> trend_params \<Rightarrow> cache
    \<Rightarrow> (nat + (card_entity list \<times> string option) option) \<times> cache" where
  "links_trend_route st env db now hs tc collected e1 e2 params =
     trend_route db now hs (\<lambda>filters c.
       case trending_links_serve st env now tc filters (collected filters) e1 e2 params c of
         None \<Rightarrow> (None, c) | Some (r, cached, c') \<Rightarrow> (Some r, c'))"

section \<open>Properties\<close>

text \<open>
  Who may act with a token: the owner of one that is neither revoked nor expired, if they are a
  confirmed, approved and enabled user whose account is not suspended, not a memorial and has not
  moved.
\<close>

definition may_act :: "auth_db \<Rightarrow> instant \<Rightarrow> string \<Rightarrow> user_row \<Rightarrow> login_row \<Rightarrow> bool" where
  "may_act db now token u a \<longleftrightarrow> u \<in> set (ad_users db) \<and> a \<in> set (ad_accounts db) \<and> lg_id a = us_account_id u
     \<and> (\<exists>t \<in> set (ad_tokens db). tk_token t = token \<and> tk_resource_owner_id t = Some (us_id u) \<and> tk_revoked_at t = None
          \<and> (\<forall>sec. tk_expires_in t = Some sec \<longrightarrow> now < tk_created_at t + sec * 1000000))
     \<and> us_confirmed_at u \<noteq> None \<and> us_approved u \<and> \<not> us_disabled u
     \<and> lg_suspended_at a = None \<and> \<not> lg_memorial a \<and> lg_moved_to_account_id a = None"

lemma token_rows_may_act: "(u, a) \<in> set (token_rows db now token) \<longleftrightarrow> may_act db now token u a"
  unfolding token_rows_iff may_act_def token_live_def by (auto split: option.splits)

lemma token_rows_none: "token_rows db now token = [] \<longleftrightarrow> (\<forall>u a. \<not> may_act db now token u a)"
  unfolding token_rows_may_act [symmetric] by (cases "token_rows db now token") auto

text \<open>
  C12: The home timeline answers only who may act with the bearer token they send. A request
  without a token, or with one nobody may act with, is refused with 401; when the database cannot
  be asked about the token the answer is 500; in both cases neither the cache nor the mapping table changes. Otherwise
  what is served is the feed of the account that may act, in the languages of this account and
  the request.
\<close>

theorem home_route_authorised:
  "case home_route pc st db now hs loads env params s of
     (Inl code, s') \<Rightarrow> s' = s
       \<and> (code = 401 \<and> (\<forall>token. extract_token hs = Some token \<longrightarrow> (\<exists>d. db = Some d \<and> (\<forall>u a. \<not> may_act d now token u a)))
          \<or> code = 500 \<and> extract_token hs \<noteq> None \<and> db = None)
   | (Inr r, s') \<Rightarrow> \<exists>token d u a. extract_token hs = Some token \<and> db = Some d \<and> may_act d now token u a
       \<and> home_serve pc st (home_feed_new st (us_account_id u) (request_filters (Some (account_of token (u, a))) hs)
           (loads (us_account_id u))) env params s = (r, s')"
proof (cases "account_required db now hs")
  case (Inl code)
  then have "code = 401 \<and> (\<forall>token. extract_token hs = Some token \<longrightarrow> (\<exists>d. db = Some d \<and> token_rows d now token = []))
      \<or> code = 500 \<and> extract_token hs \<noteq> None \<and> db = None"
    by (auto simp: account_required_def resolve_account_def split: option.splits list.splits)
  with Inl show ?thesis by (simp add: home_route_def token_rows_none)
next
  case (Inr acc)
  then obtain token d row rest where r: "extract_token hs = Some token" "db = Some d" "token_rows d now token = row # rest"
      "acc = account_of token row"
    by (auto simp: account_required_def resolve_account_def split: option.splits list.splits)
  obtain u a where row: "row = (u, a)" by (cases row)
  then have "may_act d now token u a" using r(3) by (simp flip: token_rows_may_act)
  moreover have "ac_id acc = us_account_id u" by (simp add: r(4) row account_of_def)
  moreover obtain q s' where "home_serve pc st (home_feed_new st (us_account_id u) (request_filters (Some acc) hs)
      (loads (us_account_id u))) env params s = (q, s')"
    by (cases "home_serve pc st (home_feed_new st (us_account_id u) (request_filters (Some acc) hs)
      (loads (us_account_id u))) env params s")
  ultimately show ?thesis
    using Inr r row by (simp add: home_route_def Let_def) blast
qed

definition live_db :: auth_db where
  "live_db = \<lparr>ad_tokens = [\<lparr>tk_token = ''t'', tk_resource_owner_id = Some 2, tk_revoked_at = None, tk_expires_in = Some 60,
       tk_created_at = 0\<rparr>],
     ad_users = [\<lparr>us_id = 2, us_account_id = 3, us_chosen_languages = None, us_locale = None, us_confirmed_at = Some 0,
       us_approved = True, us_disabled = False\<rparr>],
     ad_accounts = [\<lparr>lg_id = 3, lg_username = ''ann'', lg_suspended_at = None, lg_memorial = False, lg_moved_to_account_id = None\<rparr>]\<rparr>"

theorem home_route_authorised_witness:
  "fst (home_route demo_codec demo_state (Some live_db) 60000000 \<lparr>rh_authorization = Some ''Bearer t'', rh_accept_language = None\<rparr>
      (\<lambda>_. cold_loads) (fst demo_request) (snd demo_request) (demo_cache, [])) = Inl 401
   \<and> (\<exists>u a. may_act live_db 59999999 ''t'' u a)"
proof -
  let ?hs = "\<lparr>rh_authorization = Some ''Bearer t'', rh_accept_language = None\<rparr>"
  let ?route = "home_route demo_codec demo_state (Some live_db) 60000000 ?hs (\<lambda>_. cold_loads) (fst demo_request) (snd demo_request) (demo_cache, [])"
  have t: "extract_token ?hs = Some ''t''" by code_simp
  have none: "\<not> may_act live_db 60000000 ''t'' u a" for u a by (simp add: may_act_def live_db_def)
  obtain r s' where r: "?route = (r, s')" by (cases ?route)
  have "fst ?route = Inl 401"
    using home_route_authorised [where pc = demo_codec and st = demo_state and db = "Some live_db" and now = 60000000
        and hs = ?hs and loads = "\<lambda>_. cold_loads" and env = "fst demo_request" and params = "snd demo_request"
        and s = "(demo_cache, [])"] t none unfolding r
    by (cases r) auto
  moreover have "\<exists>u a. may_act live_db 59999999 ''t'' u a" by (simp add: may_act_def live_db_def)
  ultimately show ?thesis by blast
qed

end
