(* ===== verification/Resolver.thy ===== *)
theory Resolver
  imports Status_Map
begin

text \<open>
  \<open>apps/server/src/mastodon/resolve.rs\<close>: finding the Mastodon id of a status of a provider. Callers
  of one status share a flight, a future in a map under a lock. The operations are given twice: for
  one caller alone, as the handlers use it, and as a step relation in which callers and flights are
  interleaved at every lookup, lock, request and statement.
\<close>

section \<open>Errors and the search\<close>

datatype resolve_error =
    RE_Unreachable
  | RE_Not_Found
  | RE_Unresolvable
  | RE_Blocked
  | RE_Forbidden
  | RE_Rate_Limited "nat option"
  | RE_Upstream nat
  | RE_Db

fun resolve_metric :: "resolve_error \<Rightarrow> string" where
  "resolve_metric RE_Unreachable = ''unreachable''"
| "resolve_metric RE_Not_Found = ''not_found''"
| "resolve_metric RE_Unresolvable = ''unresolvable''"
| "resolve_metric RE_Blocked = ''blocked''"
| "resolve_metric RE_Forbidden = ''forbidden''"
| "resolve_metric (RE_Rate_Limited r) = ''rate_limited''"
| "resolve_metric (RE_Upstream s) = ''upstream''"
| "resolve_metric RE_Db = ''db''"

text \<open>
  Mastodon's answer to \<open>/api/v2/search\<close>: none, or a status, the \<open>Retry-After\<close> header and the ids
  of the statuses found (\<open>None\<close> when the body does not parse).
\<close>

datatype search_answer = No_Answer | Search_Answer (sa_status: nat) (sa_retry_after: "string option") (sa_ids: "string list option")

definition status_code :: "nat \<Rightarrow> nat" where
  "status_code code = (if 100 \<le> code \<and> code < 1000 then code else 502)"

definition is_success :: "nat \<Rightarrow> bool" where
  "is_success st \<longleftrightarrow> 200 \<le> st \<and> st < 300"

definition read_search :: "search_answer \<Rightarrow> resolve_error + int" where
  "read_search a =
     (case a of
        No_Answer \<Rightarrow> Inl RE_Unreachable
      | Search_Answer st retry ids \<Rightarrow>
          if \<not> is_success st
          then Inl (if st = 401 \<or> st = 403 then RE_Forbidden
                    else if st = 422 then RE_Blocked
                    else if st = 429 then RE_Rate_Limited (Option.bind retry parse_usize)
                    else RE_Upstream (status_code st))
          else (case ids of
                  None \<Rightarrow> Inl (RE_Upstream 502)
                | Some [] \<Rightarrow> Inl RE_Unresolvable
                | Some (i # _) \<Rightarrow> (case parse_i64 i of None \<Rightarrow> Inl (RE_Upstream 502) | Some m \<Rightarrow> Inr m)))"

text \<open>A lookup: the database may fail.\<close>

definition lookup_row :: "bool \<Rightarrow> int \<Rightarrow> status_table \<Rightarrow> resolve_error + cached_status option" where
  "lookup_row fails snowflake tab = (if fails then Inl RE_Db else Inr (find_by_id snowflake tab))"

text \<open>The beginning of \<open>drive_search\<close>: a result at once, or the URI to search for.\<close>

definition drive_start :: "string option \<Rightarrow> bool \<Rightarrow> int \<Rightarrow> status_table \<Rightarrow> (resolve_error + int) + string" where
  "drive_start base fails snowflake tab =
     (if base = None then Inl (Inl RE_Unreachable)
      else case lookup_row fails snowflake tab of
             Inl e \<Rightarrow> Inl (Inl e)
           | Inr None \<Rightarrow> Inl (Inl RE_Not_Found)
           | Inr (Some row) \<Rightarrow>
               (case cs_mastodon_local_id row of
                  Some m \<Rightarrow> Inl (Inr m)
                | None \<Rightarrow> if cs_post_uri row = [] then Inl (Inl RE_Not_Found) else Inr (cs_post_uri row)))"

definition persist :: "bool \<Rightarrow> int \<Rightarrow> int \<Rightarrow> status_table \<Rightarrow> (resolve_error + int) \<times> status_table" where
  "persist fails snowflake m tab =
     (if fails then (Inl RE_Db, tab) else (Inr m, snd (set_mastodon_local_id snowflake m tab)))"

text \<open>
  What the outside does in one call: the search, and whether the lookup of \<open>resolve\<close>, the lookup of
  \<open>drive_search\<close> and the update fail.
\<close>

record resolve_env =
  rv_base :: "string option"
  rv_search :: "string \<Rightarrow> string \<Rightarrow> search_answer"
  rv_lookup_fails :: bool
  rv_relookup_fails :: bool
  rv_persist_fails :: bool

definition drive_search :: "resolve_env \<Rightarrow> int \<Rightarrow> string \<Rightarrow> status_table \<Rightarrow> (resolve_error + int) \<times> status_table" where
  "drive_search env snowflake token tab =
     (case drive_start (rv_base env) (rv_relookup_fails env) snowflake tab of
        Inl r \<Rightarrow> (r, tab)
      | Inr uri \<Rightarrow>
          (case read_search (rv_search env token uri) of
             Inl e \<Rightarrow> (Inl e, tab)
           | Inr m \<Rightarrow> persist (rv_persist_fails env) snowflake m tab))"

text \<open>The first part of \<open>resolve\<close>: a result at once, or the flight.\<close>

definition resolve_enter :: "bool \<Rightarrow> int \<Rightarrow> status_table \<Rightarrow> (resolve_error + int) option" where
  "resolve_enter fails snowflake tab =
     (case lookup_row fails snowflake tab of
        Inl e \<Rightarrow> Some (Inl e)
      | Inr None \<Rightarrow> Some (Inl RE_Not_Found)
      | Inr (Some row) \<Rightarrow> map_option Inr (cs_mastodon_local_id row))"

definition resolve :: "resolve_env \<Rightarrow> int \<Rightarrow> string \<Rightarrow> status_table \<Rightarrow> (resolve_error + int) \<times> status_table" where
  "resolve env snowflake token tab =
     (case resolve_enter (rv_lookup_fails env) snowflake tab of
        Some r \<Rightarrow> (r, tab)
      | None \<Rightarrow> drive_search env snowflake token tab)"

section \<open>Callers and flights\<close>

datatype caller_state =
    Entered
  | Joining
  | Waiting nat
  | Woken nat
  | Returned "resolve_error + int" "nat option"

datatype flight_state =
    Started
  | Requested string
  | Answered int
  | Finished "resolve_error + int"

record caller =
  cl_snowflake :: int
  cl_token :: string
  cl_state :: caller_state

record flight =
  fl_snowflake :: int
  fl_token :: string
  fl_state :: flight_state

text \<open>
  The resolver with all flights ever made (the map holds indexes of the list). \<open>rs_late\<close> counts for
  each status how often a caller removed a flight that was not the one it had waited for.
\<close>

record resolver =
  rs_table :: status_table
  rs_map :: "int \<rightharpoonup> nat"
  rs_flights :: "flight list"
  rs_callers :: "caller list"
  rs_late :: "int \<Rightarrow> nat"

definition resolver_new :: "status_table \<Rightarrow> resolver" where
  "resolver_new tab = \<lparr>rs_table = tab, rs_map = Map.empty, rs_flights = [], rs_callers = [], rs_late = (\<lambda>s. 0)\<rparr>"

definition set_caller :: "nat \<Rightarrow> caller_state \<Rightarrow> resolver \<Rightarrow> resolver" where
  "set_caller i st rs = rs\<lparr>rs_callers := (rs_callers rs)[i := (rs_callers rs ! i)\<lparr>cl_state := st\<rparr>]\<rparr>"

definition set_flight :: "nat \<Rightarrow> flight_state \<Rightarrow> resolver \<Rightarrow> resolver" where
  "set_flight f st rs = rs\<lparr>rs_flights := (rs_flights rs)[f := (rs_flights rs ! f)\<lparr>fl_state := st\<rparr>]\<rparr>"

text \<open>The first critical section: join the flight of the status or start one.\<close>

definition join_flight :: "nat \<Rightarrow> resolver \<Rightarrow> resolver" where
  "join_flight i rs =
     (let c = rs_callers rs ! i in
      case rs_map rs (cl_snowflake c) of
        Some f \<Rightarrow> set_caller i (Waiting f) rs
      | None \<Rightarrow>
          let f = length (rs_flights rs)
          in set_caller i (Waiting f)
               (rs\<lparr>rs_flights := rs_flights rs @ [\<lparr>fl_snowflake = cl_snowflake c, fl_token = cl_token c, fl_state = Started\<rparr>],
                   rs_map := (rs_map rs)(cl_snowflake c \<mapsto> f)\<rparr>))"

text \<open>The second critical section: remove whatever flight the status has.\<close>

definition leave_flight :: "nat \<Rightarrow> nat \<Rightarrow> resolve_error + int \<Rightarrow> resolver \<Rightarrow> resolver" where
  "leave_flight i f r rs =
     (let s = cl_snowflake (rs_callers rs ! i);
          late = (case rs_map rs s of None \<Rightarrow> False | Some f' \<Rightarrow> f' \<noteq> f)
      in set_caller i (Returned r (Some f))
           (rs\<lparr>rs_map := (rs_map rs)(s := None),
               rs_late := (if late then (rs_late rs)(s := Suc (rs_late rs s)) else rs_late rs)\<rparr>))"

inductive resolver_step :: "string option \<Rightarrow> resolver \<Rightarrow> resolver \<Rightarrow> bool" for base where
  call: "resolver_step base rs
      (rs\<lparr>rs_callers := rs_callers rs @ [\<lparr>cl_snowflake = s, cl_token = t, cl_state = Entered\<rparr>]\<rparr>)"
| hit: "i < length (rs_callers rs) \<Longrightarrow> cl_state (rs_callers rs ! i) = Entered
    \<Longrightarrow> resolve_enter fails (cl_snowflake (rs_callers rs ! i)) (rs_table rs) = Some r
    \<Longrightarrow> resolver_step base rs (set_caller i (Returned r None) rs)"
| miss: "i < length (rs_callers rs) \<Longrightarrow> cl_state (rs_callers rs ! i) = Entered
    \<Longrightarrow> resolve_enter fails (cl_snowflake (rs_callers rs ! i)) (rs_table rs) = None
    \<Longrightarrow> resolver_step base rs (set_caller i Joining rs)"
| join: "i < length (rs_callers rs) \<Longrightarrow> cl_state (rs_callers rs ! i) = Joining
    \<Longrightarrow> resolver_step base rs (join_flight i rs)"
| start: "f < length (rs_flights rs) \<Longrightarrow> fl_state (rs_flights rs ! f) = Started
    \<Longrightarrow> drive_start base fails (fl_snowflake (rs_flights rs ! f)) (rs_table rs) = d
    \<Longrightarrow> resolver_step base rs (set_flight f (case d of Inl r \<Rightarrow> Finished r | Inr uri \<Rightarrow> Requested uri) rs)"
| answer: "f < length (rs_flights rs) \<Longrightarrow> fl_state (rs_flights rs ! f) = Requested uri
    \<Longrightarrow> resolver_step base rs (set_flight f (case read_search a of Inl e \<Rightarrow> Finished (Inl e) | Inr m \<Rightarrow> Answered m) rs)"
| persist: "f < length (rs_flights rs) \<Longrightarrow> fl_state (rs_flights rs ! f) = Answered m
    \<Longrightarrow> persist fails (fl_snowflake (rs_flights rs ! f)) m (rs_table rs) = (r, tab)
    \<Longrightarrow> resolver_step base rs (set_flight f (Finished r) (rs\<lparr>rs_table := tab\<rparr>))"
| wake: "i < length (rs_callers rs) \<Longrightarrow> cl_state (rs_callers rs ! i) = Waiting f
    \<Longrightarrow> fl_state (rs_flights rs ! f) = Finished r
    \<Longrightarrow> resolver_step base rs (set_caller i (Woken f) rs)"
| leave: "i < length (rs_callers rs) \<Longrightarrow> cl_state (rs_callers rs ! i) = Woken f
    \<Longrightarrow> fl_state (rs_flights rs ! f) = Finished r
    \<Longrightarrow> resolver_step base rs (leave_flight i f r rs)"
| outside: "resolver_step base rs (rs\<lparr>rs_table := tab\<rparr>)"

inductive resolver_reachable :: "string option \<Rightarrow> resolver \<Rightarrow> bool" for base where
  new: "resolver_reachable base (resolver_new tab)"
| step: "resolver_reachable base rs \<Longrightarrow> resolver_step base rs rs' \<Longrightarrow> resolver_reachable base rs'"

section \<open>The invariant\<close>

definition unfinished :: "flight \<Rightarrow> bool" where
  "unfinished f \<longleftrightarrow> (case fl_state f of Finished r \<Rightarrow> False | _ \<Rightarrow> True)"

text \<open>A caller is at a flight of its own status, whose result is the one it has.\<close>

definition caller_ok :: "flight list \<Rightarrow> caller \<Rightarrow> bool" where
  "caller_ok fs c \<longleftrightarrow>
     (case cl_state c of
        Waiting f \<Rightarrow> f < length fs \<and> fl_snowflake (fs ! f) = cl_snowflake c
      | Woken f \<Rightarrow> f < length fs \<and> fl_snowflake (fs ! f) = cl_snowflake c \<and> \<not> unfinished (fs ! f)
      | Returned r (Some f) \<Rightarrow> f < length fs \<and> fl_snowflake (fs ! f) = cl_snowflake c \<and> fl_state (fs ! f) = Finished r
      | _ \<Rightarrow> True)"

definition strays :: "resolver \<Rightarrow> int \<Rightarrow> nat set" where
  "strays rs s = {f. f < length (rs_flights rs) \<and> fl_snowflake (rs_flights rs ! f) = s
     \<and> unfinished (rs_flights rs ! f) \<and> rs_map rs s \<noteq> Some f}"

definition resolver_ok :: "resolver \<Rightarrow> bool" where
  "resolver_ok rs \<longleftrightarrow> (\<forall>c \<in> set (rs_callers rs). caller_ok (rs_flights rs) c)
     \<and> (\<forall>s f. rs_map rs s = Some f \<longrightarrow> f < length (rs_flights rs) \<and> fl_snowflake (rs_flights rs ! f) = s)
     \<and> (\<forall>s. card (strays rs s) \<le> rs_late rs s)"

lemma finite_strays [simp]: "finite (strays rs s)"
  by (simp add: strays_def)

lemma set_caller_sel [simp]:
  "rs_table (set_caller i st rs) = rs_table rs" "rs_map (set_caller i st rs) = rs_map rs"
  "rs_flights (set_caller i st rs) = rs_flights rs" "rs_late (set_caller i st rs) = rs_late rs"
  "rs_callers (set_caller i st rs) = (rs_callers rs)[i := (rs_callers rs ! i)\<lparr>cl_state := st\<rparr>]"
  by (simp_all add: set_caller_def)

lemma strays_set_caller [simp]: "strays (set_caller i st rs) s = strays rs s"
  by (simp add: strays_def)

lemma resolver_ok_set_caller:
  assumes "resolver_ok rs" "caller_ok (rs_flights rs) ((rs_callers rs ! i)\<lparr>cl_state := st\<rparr>)"
  shows "resolver_ok (set_caller i st rs)"
  using assms unfolding resolver_ok_def by (auto dest!: subsetD [OF set_update_subset_insert])

text \<open>A flight moves on unless it is finished.\<close>

lemma caller_ok_set_flight:
  assumes "caller_ok fs c" "f < length fs" "unfinished (fs ! f)"
  shows "caller_ok (fs[f := (fs ! f)\<lparr>fl_state := st\<rparr>]) c"
  using assms
  by (auto simp: caller_ok_def unfinished_def nth_list_update split: caller_state.splits option.splits)

lemma resolver_ok_set_flight:
  assumes "resolver_ok rs" "f < length (rs_flights rs)" "unfinished (rs_flights rs ! f)"
  shows "resolver_ok (set_flight f st rs)"
proof -
  have "strays (set_flight f st rs) s \<subseteq> strays rs s" for s
    using assms(2,3) by (auto simp: strays_def set_flight_def nth_list_update split: if_splits)
  then have "card (strays (set_flight f st rs) s) \<le> card (strays rs s)" for s
    by (intro card_mono) auto
  moreover have "card (strays rs s) \<le> rs_late (set_flight f st rs) s" for s
    using assms(1) by (simp add: resolver_ok_def set_flight_def)
  ultimately have "card (strays (set_flight f st rs) s) \<le> rs_late (set_flight f st rs) s" for s
    using le_trans by blast
  moreover have "\<forall>c \<in> set (rs_callers (set_flight f st rs)). caller_ok (rs_flights (set_flight f st rs)) c"
    using assms by (auto simp: resolver_ok_def set_flight_def caller_ok_set_flight)
  moreover have "\<forall>s g. rs_map (set_flight f st rs) s = Some g \<longrightarrow> g < length (rs_flights (set_flight f st rs))
      \<and> fl_snowflake (rs_flights (set_flight f st rs) ! g) = s"
    using assms by (auto simp: resolver_ok_def set_flight_def nth_list_update)
  ultimately show ?thesis unfolding resolver_ok_def by blast
qed

lemma resolver_ok_table: "resolver_ok (rs\<lparr>rs_table := tab\<rparr>) = resolver_ok rs"
  by (simp add: resolver_ok_def strays_def)

lemma caller_ok_append: "caller_ok fs c \<Longrightarrow> caller_ok (fs @ gs) c"
  by (auto simp: caller_ok_def nth_append split: caller_state.splits option.splits)

lemma resolver_ok_new_flight:
  assumes "resolver_ok rs" "rs_map rs (fl_snowflake fl) = None"
  shows "resolver_ok (rs\<lparr>rs_flights := rs_flights rs @ [fl], rs_map := (rs_map rs)(fl_snowflake fl \<mapsto> length (rs_flights rs))\<rparr>)"
    (is "resolver_ok ?rs")
proof -
  have "strays ?rs s \<subseteq> strays rs s" for s
    using assms(2) by (auto simp: strays_def nth_append less_Suc_eq split: if_splits)
  then have "card (strays ?rs s) \<le> card (strays rs s)" for s
    by (intro card_mono) auto
  then have "card (strays ?rs s) \<le> rs_late ?rs s" for s
    using assms(1) by (simp add: resolver_ok_def) (meson le_trans)
  moreover have "\<forall>c \<in> set (rs_callers ?rs). caller_ok (rs_flights ?rs) c"
    using assms(1) by (simp add: resolver_ok_def caller_ok_append)
  moreover have "\<forall>s g. rs_map ?rs s = Some g \<longrightarrow> g < length (rs_flights ?rs) \<and> fl_snowflake (rs_flights ?rs ! g) = s"
    using assms(1) by (auto simp: resolver_ok_def nth_append less_Suc_eq)
  ultimately show ?thesis unfolding resolver_ok_def by blast
qed

lemma resolver_ok_join:
  assumes "resolver_ok rs" "i < length (rs_callers rs)"
  shows "resolver_ok (join_flight i rs)"
proof (cases "rs_map rs (cl_snowflake (rs_callers rs ! i))")
  case None
  let ?c = "rs_callers rs ! i"
  let ?fl = "\<lparr>fl_snowflake = cl_snowflake ?c, fl_token = cl_token ?c, fl_state = Started\<rparr>"
  let ?rs = "rs\<lparr>rs_flights := rs_flights rs @ [?fl], rs_map := (rs_map rs)(cl_snowflake ?c \<mapsto> length (rs_flights rs))\<rparr>"
  have "resolver_ok ?rs" using resolver_ok_new_flight [OF assms(1), of ?fl] None by simp
  then have "resolver_ok (set_caller i (Waiting (length (rs_flights rs))) ?rs)"
    by (rule resolver_ok_set_caller) (simp add: caller_ok_def)
  then show ?thesis by (simp add: join_flight_def None Let_def)
next
  case (Some f)
  then have "f < length (rs_flights rs)" "fl_snowflake (rs_flights rs ! f) = cl_snowflake (rs_callers rs ! i)"
    using assms(1) by (auto simp: resolver_ok_def)
  then show ?thesis
    using resolver_ok_set_caller [OF assms(1), of "Waiting f" i] by (simp add: join_flight_def Some caller_ok_def)
qed

lemma resolver_ok_leave:
  assumes "resolver_ok rs" "i < length (rs_callers rs)" "cl_state (rs_callers rs ! i) = Woken f"
    "fl_state (rs_flights rs ! f) = Finished r"
  shows "resolver_ok (leave_flight i f r rs)"
proof -
  let ?s = "cl_snowflake (rs_callers rs ! i)"
  let ?late = "case rs_map rs ?s of None \<Rightarrow> False | Some f' \<Rightarrow> f' \<noteq> f"
  let ?rs = "rs\<lparr>rs_map := (rs_map rs)(?s := None),
      rs_late := (if ?late then (rs_late rs)(?s := Suc (rs_late rs ?s)) else rs_late rs)\<rparr>"
  have c: "f < length (rs_flights rs)" "fl_snowflake (rs_flights rs ! f) = ?s"
    using assms(1-3) by (auto simp: resolver_ok_def caller_ok_def dest!: bspec [OF _ nth_mem])
  have old: "card (strays rs s) \<le> rs_late rs s" for s using assms(1) by (simp add: resolver_ok_def)
  have "card (strays ?rs s) \<le> rs_late ?rs s" for s
  proof (cases "s = ?s \<and> ?late")
    case True
    then obtain f' where f': "rs_map rs ?s = Some f'" by (auto split: option.splits)
    have "strays ?rs s \<subseteq> insert f' (strays rs s)" using True f' by (auto simp: strays_def)
    then have "card (strays ?rs s) \<le> card (insert f' (strays rs s))" by (intro card_mono) auto
    also have "\<dots> \<le> Suc (card (strays rs s))" by (rule card_insert_le_m1 [of "Suc (card (strays rs s))", simplified]) simp_all
    also have "\<dots> \<le> rs_late ?rs s" using old [of s] True by simp
    finally show ?thesis .
  next
    case False
    have "strays ?rs s \<subseteq> strays rs s"
      using False assms(4) by (auto simp: strays_def unfinished_def split: option.splits if_splits)
    then have "card (strays ?rs s) \<le> card (strays rs s)" by (intro card_mono) auto
    also have "\<dots> \<le> rs_late rs s" by (rule old)
    also have "\<dots> = rs_late ?rs s" using False by auto
    finally show ?thesis .
  qed
  then have "resolver_ok ?rs" using assms(1) by (simp add: resolver_ok_def)
  then have "resolver_ok (set_caller i (Returned r (Some f)) ?rs)"
    by (rule resolver_ok_set_caller) (use c assms(4) in \<open>simp add: caller_ok_def\<close>)
  then show ?thesis by (simp only: leave_flight_def Let_def)
qed

lemma caller_at:
  "resolver_ok rs \<Longrightarrow> i < length (rs_callers rs) \<Longrightarrow> caller_ok (rs_flights rs) (rs_callers rs ! i)"
  by (simp add: resolver_ok_def)

lemma resolver_step_ok: "resolver_step base rs rs' \<Longrightarrow> resolver_ok rs \<Longrightarrow> resolver_ok rs'"
proof (induction rule: resolver_step.induct)
  case (call rs s t)
  then show ?case by (simp add: resolver_ok_def strays_def caller_ok_def)
next
  case (hit i rs fails r)
  then show ?case by (intro resolver_ok_set_caller) (simp_all add: caller_ok_def)
next
  case (miss i rs fails)
  then show ?case by (intro resolver_ok_set_caller) (simp_all add: caller_ok_def)
next
  case (join i rs)
  then show ?case by (simp add: resolver_ok_join)
next
  case (start f rs fails d)
  then show ?case by (intro resolver_ok_set_flight) (simp_all add: unfinished_def)
next
  case (answer f rs uri a)
  then show ?case by (intro resolver_ok_set_flight) (simp_all add: unfinished_def)
next
  case (persist f rs m fails r tab)
  then show ?case by (intro resolver_ok_set_flight) (simp_all add: unfinished_def resolver_ok_table)
next
  case (wake i rs f r)
  then show ?case
    using caller_at [OF wake(4,1)] by (intro resolver_ok_set_caller) (simp_all add: caller_ok_def unfinished_def)
next
  case (leave i rs f r)
  then show ?case by (simp add: resolver_ok_leave)
next
  case (outside rs tab)
  then show ?case by (simp add: resolver_ok_table)
qed

lemma resolver_reachable_ok: "resolver_reachable base rs \<Longrightarrow> resolver_ok rs"
proof (induction rule: resolver_reachable.induct)
  case (new tab)
  then show ?case by (simp add: resolver_ok_def resolver_new_def strays_def)
next
  case (step rs rs')
  then show ?case by (blast intro: resolver_step_ok)
qed

section \<open>Running events\<close>

text \<open>The steps as events that can be executed; the database does not fail in them.\<close>

datatype event =
    E_Call int string
  | E_Hit nat
  | E_Miss nat
  | E_Join nat
  | E_Start nat
  | E_Answer nat search_answer
  | E_Persist nat
  | E_Wake nat
  | E_Leave nat

definition in_state :: "nat \<Rightarrow> resolver \<Rightarrow> (caller_state \<Rightarrow> resolver option) \<Rightarrow> resolver option" where
  "in_state i rs k = (if i < length (rs_callers rs) then k (cl_state (rs_callers rs ! i)) else None)"

definition in_flight :: "nat \<Rightarrow> resolver \<Rightarrow> (flight_state \<Rightarrow> resolver option) \<Rightarrow> resolver option" where
  "in_flight f rs k = (if f < length (rs_flights rs) then k (fl_state (rs_flights rs ! f)) else None)"

fun exec_event :: "string option \<Rightarrow> event \<Rightarrow> resolver \<Rightarrow> resolver option" where
  "exec_event base (E_Call s t) rs =
     Some (rs\<lparr>rs_callers := rs_callers rs @ [\<lparr>cl_snowflake = s, cl_token = t, cl_state = Entered\<rparr>]\<rparr>)"
| "exec_event base (E_Hit i) rs = in_state i rs (\<lambda>st. case st of
     Entered \<Rightarrow> map_option (\<lambda>r. set_caller i (Returned r None) rs)
       (resolve_enter False (cl_snowflake (rs_callers rs ! i)) (rs_table rs)) | _ \<Rightarrow> None)"
| "exec_event base (E_Miss i) rs = in_state i rs (\<lambda>st. case st of
     Entered \<Rightarrow> (case resolve_enter False (cl_snowflake (rs_callers rs ! i)) (rs_table rs) of
        None \<Rightarrow> Some (set_caller i Joining rs) | Some r \<Rightarrow> None) | _ \<Rightarrow> None)"
| "exec_event base (E_Join i) rs = in_state i rs (\<lambda>st. case st of Joining \<Rightarrow> Some (join_flight i rs) | _ \<Rightarrow> None)"
| "exec_event base (E_Start f) rs = in_flight f rs (\<lambda>st. case st of
     Started \<Rightarrow> Some (set_flight f (case drive_start base False (fl_snowflake (rs_flights rs ! f)) (rs_table rs) of
        Inl r \<Rightarrow> Finished r | Inr uri \<Rightarrow> Requested uri) rs) | _ \<Rightarrow> None)"
| "exec_event base (E_Answer f a) rs = in_flight f rs (\<lambda>st. case st of
     Requested uri \<Rightarrow> Some (set_flight f (case read_search a of Inl e \<Rightarrow> Finished (Inl e) | Inr m \<Rightarrow> Answered m) rs) | _ \<Rightarrow> None)"
| "exec_event base (E_Persist f) rs = in_flight f rs (\<lambda>st. case st of
     Answered m \<Rightarrow> (case persist False (fl_snowflake (rs_flights rs ! f)) m (rs_table rs) of
        (r, tab) \<Rightarrow> Some (set_flight f (Finished r) (rs\<lparr>rs_table := tab\<rparr>))) | _ \<Rightarrow> None)"
| "exec_event base (E_Wake i) rs = in_state i rs (\<lambda>st. case st of
     Waiting f \<Rightarrow> (case fl_state (rs_flights rs ! f) of Finished r \<Rightarrow> Some (set_caller i (Woken f) rs) | _ \<Rightarrow> None)
   | _ \<Rightarrow> None)"
| "exec_event base (E_Leave i) rs = in_state i rs (\<lambda>st. case st of
     Woken f \<Rightarrow> (case fl_state (rs_flights rs ! f) of Finished r \<Rightarrow> Some (leave_flight i f r rs) | _ \<Rightarrow> None)
   | _ \<Rightarrow> None)"

fun exec_events :: "string option \<Rightarrow> event list \<Rightarrow> resolver \<Rightarrow> resolver option" where
  "exec_events base [] rs = Some rs"
| "exec_events base (e # es) rs = Option.bind (exec_event base e rs) (exec_events base es)"

lemma exec_event_step: "exec_event base e rs = Some rs' \<Longrightarrow> resolver_step base rs rs'"
  by (cases e) (auto simp: in_state_def in_flight_def intro: resolver_step.intros
      split: if_splits caller_state.splits flight_state.splits option.splits prod.splits)

lemma exec_events_reachable:
  "exec_events base es rs = Some rs' \<Longrightarrow> resolver_reachable base rs \<Longrightarrow> resolver_reachable base rs'"
proof (induction es arbitrary: rs)
  case (Cons e es)
  from Cons.prems(1) obtain y where y: "exec_event base e rs = Some y" "exec_events base es y = Some rs'"
    by (auto simp: bind_eq_Some_conv)
  have "resolver_reachable base y"
    by (rule resolver_reachable.step [OF Cons.prems(2) exec_event_step [OF y(1)]])
  then show ?case by (rule Cons.IH [OF y(2)])
qed simp

section \<open>Properties\<close>

text \<open>
  C7: In every interleaving of callers, flights and other users of the table, a caller that waited
  returns the result of a finished flight of its own status, and the flights of one status under
  way are never more than one plus the number of times a caller that came back late removed a
  flight it had not waited for. So while that has not happened, concurrent callers share one search.
\<close>

theorem resolver_single_flight:
  assumes "resolver_reachable base rs"
  shows "list_all (\<lambda>c. case cl_state c of
      Returned r (Some f) \<Rightarrow> f < length (rs_flights rs) \<and> fl_snowflake (rs_flights rs ! f) = cl_snowflake c
        \<and> fl_state (rs_flights rs ! f) = Finished r
    | _ \<Rightarrow> True) (rs_callers rs)
    \<and> card {f. f < length (rs_flights rs) \<and> fl_snowflake (rs_flights rs ! f) = s \<and> unfinished (rs_flights rs ! f)}
        \<le> Suc (rs_late rs s)"
proof
  note ok = resolver_reachable_ok [OF assms]
  show "list_all (\<lambda>c. case cl_state c of
      Returned r (Some f) \<Rightarrow> f < length (rs_flights rs) \<and> fl_snowflake (rs_flights rs ! f) = cl_snowflake c
        \<and> fl_state (rs_flights rs ! f) = Finished r
    | _ \<Rightarrow> True) (rs_callers rs)"
    using ok by (auto simp: resolver_ok_def caller_ok_def list_all_iff split: caller_state.splits option.splits)
  let ?live = "{f. f < length (rs_flights rs) \<and> fl_snowflake (rs_flights rs ! f) = s \<and> unfinished (rs_flights rs ! f)}"
  have "?live \<subseteq> insert (the (rs_map rs s)) (strays rs s)" by (auto simp: strays_def)
  then have "card ?live \<le> card (insert (the (rs_map rs s)) (strays rs s))" by (intro card_mono) auto
  also have "\<dots> \<le> Suc (card (strays rs s))" by (rule card_insert_le_m1 [of "Suc (card (strays rs s))", simplified]) simp_all
  also have "\<dots> \<le> Suc (rs_late rs s)" using ok by (simp add: resolver_ok_def)
  finally show "card ?live \<le> Suc (rs_late rs s)" .
qed

definition one_status :: status_table where
  "one_status = [\<lparr>cs_id = 1, cs_provider_domain = ''p.test'', cs_remote_id = 5, cs_post_url = ''u'', cs_post_uri = ''u'',
     cs_post_data = JNull, cs_cached_at = 0, cs_mastodon_local_id = None\<rparr>]"

definition shared_search :: "event list" where
  "shared_search = [E_Call 1 ''a'', E_Call 1 ''b'', E_Miss 0, E_Miss 1, E_Join 0, E_Join 1, E_Start 0,
     E_Answer 0 (Search_Answer 200 None (Some [''7''])), E_Persist 0, E_Wake 0, E_Wake 1, E_Leave 0, E_Leave 1]"

theorem resolver_single_flight_witness:
  "\<exists>rs. exec_events (Some ''m'') shared_search (resolver_new one_status) = Some rs
     \<and> map cl_state (rs_callers rs) = [Returned (Inr 7) (Some 0), Returned (Inr 7) (Some 0)]
     \<and> card {f. f < length (rs_flights rs) \<and> fl_snowflake (rs_flights rs ! f) = 1 \<and> unfinished (rs_flights rs ! f)} \<le> 1"
proof -
  have "case exec_events (Some ''m'') shared_search (resolver_new one_status) of
      Some rs \<Rightarrow> map cl_state (rs_callers rs) = [Returned (Inr 7) (Some 0), Returned (Inr 7) (Some 0)] \<and> rs_late rs 1 = 0
    | None \<Rightarrow> False" by code_simp
  then obtain rs where rs: "exec_events (Some ''m'') shared_search (resolver_new one_status) = Some rs"
      "map cl_state (rs_callers rs) = [Returned (Inr 7) (Some 0), Returned (Inr 7) (Some 0)]" "rs_late rs 1 = 0"
    by (cases "exec_events (Some ''m'') shared_search (resolver_new one_status)") auto
  have "resolver_reachable (Some ''m'') rs"
    by (rule exec_events_reachable [OF rs(1) resolver_reachable.new])
  from resolver_single_flight [OF this, of 1] rs show ?thesis by auto
qed

text \<open>
  The late removal does happen: two callers wait for a search that fails, the first leaves, a third
  starts a new flight, the second leaves and removes it, and a fourth starts another search for the
  same status while the third's is under way.
\<close>

definition late_leave :: "event list" where
  "late_leave = [E_Call 1 ''a'', E_Call 1 ''b'', E_Miss 0, E_Miss 1, E_Join 0, E_Join 1, E_Start 0,
     E_Answer 0 No_Answer, E_Wake 0, E_Leave 0, E_Call 1 ''c'', E_Miss 2, E_Join 2, E_Start 1,
     E_Wake 1, E_Leave 1, E_Call 1 ''d'', E_Miss 3, E_Join 3, E_Start 2]"

lemma exec_events_obtain:
  assumes "case exec_events base es (resolver_new tab) of Some rs \<Rightarrow> P rs | None \<Rightarrow> False"
  shows "\<exists>rs. resolver_reachable base rs \<and> P rs"
  using assms exec_events_reachable [OF _ resolver_reachable.new]
  by (cases "exec_events base es (resolver_new tab)") (simp, simp, blast)

lemma two_searches_for_one_status:
  "\<exists>rs. resolver_reachable (Some ''m'') rs \<and> map fl_snowflake (rs_flights rs) = [1, 1, 1]
     \<and> map unfinished (rs_flights rs) = [False, True, True]"
proof (rule exec_events_obtain)
  show "case exec_events (Some ''m'') late_leave (resolver_new one_status) of
      Some rs \<Rightarrow> map fl_snowflake (rs_flights rs) = [1, 1, 1] \<and> map unfinished (rs_flights rs) = [False, True, True]
    | None \<Rightarrow> False" by code_simp
qed

text \<open>A caller alone: a call that fails leaves the table as it was.\<close>

lemma drive_search_error_keeps_table:
  assumes "drive_search env s token tab = (Inl e, tab')"
  shows "tab' = tab"
proof (cases "drive_start (rv_base env) (rv_relookup_fails env) s tab")
  case (Inl r)
  with assms show ?thesis by (simp add: drive_search_def)
next
  case (Inr uri)
  with assms show ?thesis
    by (cases "read_search (rv_search env token uri)") (simp_all add: drive_search_def persist_def split: if_splits)
qed

lemma resolve_error_keeps_table: "resolve env s token tab = (Inl e, tab') \<Longrightarrow> tab' = tab"
  using drive_search_error_keeps_table [of env s token tab e tab']
  by (cases "resolve_enter (rv_lookup_fails env) s tab") (simp_all add: resolve_def)

text \<open>A call that succeeds leaves the link in the table, and \<open>NotFound\<close> means there is nothing to search for.\<close>

lemma set_link_find:
  assumes "find_by_id s tab = Some row" "cs_mastodon_local_id row = None"
  shows "find_by_id s (snd (set_mastodon_local_id s m tab)) = Some (row\<lparr>cs_mastodon_local_id := Some m\<rparr>)"
proof -
  let ?f = "\<lambda>r. if cs_id r = s \<and> cs_mastodon_local_id r = None then r\<lparr>cs_mastodon_local_id := Some m\<rparr> else r"
  have "cs_id row = s" using assms(1) by (auto simp: find_by_id_def find_Some_iff)
  moreover have "find_by_id s (map ?f tab) = map_option ?f (find_by_id s tab)"
    unfolding find_by_id_def by (rule find_map_keep) simp
  ultimately show ?thesis using assms by (simp add: set_mastodon_local_id_def)
qed

lemma drive_start_Inr:
  "drive_start base fails s tab = Inr uri \<Longrightarrow>
     \<exists>row. find_by_id s tab = Some row \<and> cs_mastodon_local_id row = None \<and> cs_post_uri row = uri \<and> uri \<noteq> []"
  by (auto simp: drive_start_def lookup_row_def split: if_splits option.splits sum.splits)

lemma drive_start_found:
  "drive_start base fails s tab = Inl (Inr m) \<Longrightarrow> \<exists>row. find_by_id s tab = Some row \<and> cs_mastodon_local_id row = Some m"
  by (auto simp: drive_start_def lookup_row_def split: if_splits option.splits sum.splits)

lemma drive_start_not_found:
  "drive_start base fails s tab = Inl (Inl RE_Not_Found) \<Longrightarrow> find_by_id s tab = Some row
     \<Longrightarrow> cs_post_uri row = [] \<and> cs_mastodon_local_id row = None"
  by (auto simp: drive_start_def lookup_row_def split: if_splits option.splits sum.splits)

lemma drive_search_stores:
  assumes "drive_search env s token tab = (Inr m, tab')"
  shows "\<exists>row. find_by_id s tab' = Some row \<and> cs_mastodon_local_id row = Some m"
proof (cases "drive_start (rv_base env) (rv_relookup_fails env) s tab")
  case (Inl r)
  then have "r = Inr m" "tab' = tab" using assms by (simp_all add: drive_search_def)
  with Inl show ?thesis using drive_start_found by blast
next
  case (Inr uri)
  obtain row where row: "find_by_id s tab = Some row" "cs_mastodon_local_id row = None"
    using drive_start_Inr [OF Inr] by blast
  have "tab' = snd (set_mastodon_local_id s m tab)"
    using assms Inr by (cases "read_search (rv_search env token uri)") (simp_all add: drive_search_def persist_def split: if_splits)
  then show ?thesis using set_link_find [OF row, of m] by simp
qed

lemma resolve_enter_found:
  "resolve_enter fails s tab = Some (Inr m) \<Longrightarrow> \<exists>row. find_by_id s tab = Some row \<and> cs_mastodon_local_id row = Some m"
  by (auto simp: resolve_enter_def lookup_row_def split: if_splits option.splits)

lemma resolve_stores:
  assumes "resolve env s token tab = (Inr m, tab')"
  shows "\<exists>row. find_by_id s tab' = Some row \<and> cs_mastodon_local_id row = Some m"
proof (cases "resolve_enter (rv_lookup_fails env) s tab")
  case None
  then show ?thesis using assms drive_search_stores by (simp add: resolve_def)
next
  case (Some r)
  then have "r = Inr m" "tab' = tab" using assms by (simp_all add: resolve_def)
  with Some show ?thesis using resolve_enter_found by blast
qed

lemma read_search_found: "read_search a \<noteq> Inl RE_Not_Found"
  by (simp add: read_search_def split: search_answer.split option.split list.split)

lemma drive_search_not_found:
  assumes "drive_search env s token tab = (Inl RE_Not_Found, tab')"
  shows "drive_start (rv_base env) (rv_relookup_fails env) s tab = Inl (Inl RE_Not_Found)"
proof (cases "drive_start (rv_base env) (rv_relookup_fails env) s tab")
  case (Inl r)
  then show ?thesis using assms by (simp add: drive_search_def)
next
  case (Inr uri)
  have ne: "read_search (rv_search env token uri) \<noteq> Inl RE_Not_Found" by (rule read_search_found)
  have "False"
    using assms Inr ne
    by (cases "read_search (rv_search env token uri)") (simp_all add: drive_search_def persist_def split: if_splits)
  then show ?thesis ..
qed

lemma resolve_not_found:
  assumes "resolve env s token tab = (Inl RE_Not_Found, tab')" "find_by_id s tab = Some row"
  shows "cs_post_uri row = [] \<and> cs_mastodon_local_id row = None"
proof -
  have "resolve_enter (rv_lookup_fails env) s tab = None"
    using assms by (auto simp: resolve_def resolve_enter_def lookup_row_def split: if_splits option.splits)
  then have "drive_search env s token tab = (Inl RE_Not_Found, tab')" using assms(1) by (simp add: resolve_def)
  from drive_search_not_found [OF this] show ?thesis using assms(2) drive_start_not_found by blast
qed

text \<open>Nothing fails: the link of the row, or what the search for its URI finds.\<close>

definition lookups_work :: "resolve_env \<Rightarrow> bool" where
  "lookups_work env \<longleftrightarrow> rv_base env \<noteq> None \<and> \<not> rv_lookup_fails env \<and> \<not> rv_relookup_fails env \<and> \<not> rv_persist_fails env"

lemma resolve_when_known:
  assumes "find_by_id s tab = Some row" "lookups_work env"
    and "cs_mastodon_local_id row = Some m
      \<or> cs_mastodon_local_id row = None \<and> cs_post_uri row \<noteq> [] \<and> read_search (rv_search env token (cs_post_uri row)) = Inr m"
  shows "fst (resolve env s token tab) = Inr m"
  using assms(3)
proof
  assume "cs_mastodon_local_id row = Some m"
  then show ?thesis using assms(1,2) by (simp add: resolve_def resolve_enter_def lookup_row_def lookups_work_def)
next
  assume n: "cs_mastodon_local_id row = None \<and> cs_post_uri row \<noteq> [] \<and> read_search (rv_search env token (cs_post_uri row)) = Inr m"
  then have "drive_start (rv_base env) (rv_relookup_fails env) s tab = Inr (cs_post_uri row)"
    using assms(1,2) by (simp add: drive_start_def lookup_row_def lookups_work_def)
  then have "fst (drive_search env s token tab) = Inr m"
    using n assms(2) by (simp add: drive_search_def persist_def lookups_work_def)
  then show ?thesis using n assms(1,2) by (simp add: resolve_def resolve_enter_def lookup_row_def lookups_work_def)
qed

end
