(* ===== verification/Translate.thy ===== *)
theory Translate
  imports Resolver
begin

text \<open>
  \<open>apps/server/src/mastodon/translate.rs\<close>: Mastodon ids in requests and responses. A client sees
  the ids of the mapping table; what goes to Mastodon names Mastodon's ids, and what comes back is
  rewritten in the status itself, what it reblogs and what it quotes.
\<close>

section \<open>Requests\<close>

definition translate_request_id :: "resolve_env \<Rightarrow> string \<Rightarrow> string \<Rightarrow> status_table \<Rightarrow> (resolve_error + string) \<times> status_table" where
  "translate_request_id env token i tab =
     (case parse_i64 i of
        None \<Rightarrow> (Inr i, tab)
      | Some snowflake \<Rightarrow>
          (case resolve env snowflake token tab of
             (Inr m, tab') \<Rightarrow> (Inr (show_int m), tab')
           | (Inl RE_Not_Found, tab') \<Rightarrow> (Inr i, tab')
           | (Inl e, tab') \<Rightarrow> (Inl e, tab')))"

section \<open>Responses\<close>

text \<open>The number of values in a value, which the walks go down.\<close>

fun json_nodes :: "json \<Rightarrow> nat" where
  "json_nodes (JArr vs) = Suc (sum_list (map json_nodes vs))"
| "json_nodes (JObj ms) = Suc (sum_list (map (\<lambda>m. json_nodes (snd m)) ms))"
| "json_nodes v = 1"

lemma json_get_nodes: "json_get v k = Some w \<Longrightarrow> json_nodes w < json_nodes v"
proof (cases v)
  case (JObj ms)
  assume "json_get v k = Some w"
  then have "(k, w) \<in> set ms" using JObj by (simp add: map_of_SomeD)
  then have "json_nodes w \<in> set (map (\<lambda>m. json_nodes (snd m)) ms)" by force
  then have "json_nodes w \<le> sum_list (map (\<lambda>m. json_nodes (snd m)) ms)" by (rule member_le_sum_list) simp
  then show ?thesis by (simp add: JObj)
qed simp_all

text \<open>\<open>value.get_mut(key)\<close> followed by an assignment.\<close>

definition json_put :: "json \<Rightarrow> string \<Rightarrow> json \<Rightarrow> json" where
  "json_put v k w = (case v of JObj ms \<Rightarrow> if json_get v k = None then v else JObj (members_set ms k w) | _ \<Rightarrow> v)"

lemma json_get_put: "json_get (json_put v k w) k' = (if k' = k \<and> json_get v k \<noteq> None then Some w else json_get v k')"
  by (cases v) (auto simp: json_put_def map_of_members_set)

definition push_numeric :: "json option \<Rightarrow> int list" where
  "push_numeric fld = (case fld of Some (JStr s) \<Rightarrow> (case parse_i64 s of Some n \<Rightarrow> [n] | None \<Rightarrow> []) | _ \<Rightarrow> [])"

definition quoted_status :: "json \<Rightarrow> json option" where
  "quoted_status v = Option.bind (json_get v ''quote'') (\<lambda>q. json_get q ''quoted_status'')"

lemma quoted_status_nodes: "quoted_status v = Some w \<Longrightarrow> json_nodes w < json_nodes v"
  by (auto simp: quoted_status_def bind_eq_Some_conv dest!: json_get_nodes)

function collect_ids :: "json \<Rightarrow> int list" where
  "collect_ids v =
     push_numeric (json_get v ''id'') @ push_numeric (json_get v ''in_reply_to_id'')
     @ (case json_get v ''reblog'' of None \<Rightarrow> [] | Some r \<Rightarrow> if r = JNull then [] else collect_ids r)
     @ (case quoted_status v of None \<Rightarrow> [] | Some q \<Rightarrow> if q = JNull then [] else collect_ids q)"
  by pat_completeness auto
termination by (relation "measure json_nodes") (auto dest: json_get_nodes quoted_status_nodes)

declare collect_ids.simps [simp del]

definition rewrite_field :: "json \<Rightarrow> string \<Rightarrow> (int \<rightharpoonup> int) \<Rightarrow> json" where
  "rewrite_field v key m =
     (case json_get v key of
        Some (JStr s) \<Rightarrow>
          (case Option.bind (parse_i64 s) m of Some snowflake \<Rightarrow> json_put v key (JStr (show_int snowflake)) | None \<Rightarrow> v)
      | _ \<Rightarrow> v)"

lemma json_get_rewrite_other: "k \<noteq> key \<Longrightarrow> json_get (rewrite_field v key m) k = json_get v k"
  by (simp add: rewrite_field_def json_get_put split: option.split json.split)

definition rewrite_own :: "json \<Rightarrow> (int \<rightharpoonup> int) \<Rightarrow> json" where
  "rewrite_own v m = rewrite_field (rewrite_field v ''id'' m) ''in_reply_to_id'' m"

lemma json_get_own: "k \<noteq> ''id'' \<Longrightarrow> k \<noteq> ''in_reply_to_id'' \<Longrightarrow> json_get (rewrite_own v m) k = json_get v k"
  by (simp add: rewrite_own_def json_get_rewrite_other)

text \<open>The reblog and the quote are members of different keys, so writing one leaves the other.\<close>

function apply_map :: "json \<Rightarrow> (int \<rightharpoonup> int) \<Rightarrow> json" where
  "apply_map v m =
     (let v1 = rewrite_own v m;
          v2 = (case json_get v ''reblog'' of
                  None \<Rightarrow> v1
                | Some r \<Rightarrow> if r = JNull then v1 else json_put v1 ''reblog'' (apply_map r m))
      in case json_get v ''quote'' of
           None \<Rightarrow> v2
         | Some qt \<Rightarrow>
             (case json_get qt ''quoted_status'' of
                None \<Rightarrow> v2
              | Some q \<Rightarrow> if q = JNull then v2 else json_put v2 ''quote'' (json_put qt ''quoted_status'' (apply_map q m))))"
  by pat_completeness auto
termination by (relation "measure (\<lambda>(v, m). json_nodes v)") (auto dest!: json_get_nodes)

declare apply_map.simps [simp del]

definition translate_response :: "bool \<Rightarrow> status_table \<Rightarrow> json \<Rightarrow> json option" where
  "translate_response fails tab v =
     (let ids = collect_ids v in
      if ids = [] then Some v
      else if fails then None
      else let m = reverse_map ids tab
           in if list_all (\<lambda>i. m i = None) ids then Some v else Some (apply_map v m))"

section \<open>Every status of a response\<close>

text \<open>A status inside a response, by the way to it.\<close>

datatype nested = Reblogged | Quoted

fun status_at :: "nested list \<Rightarrow> json \<Rightarrow> json option" where
  "status_at [] v = Some v"
| "status_at (Reblogged # p) v =
     (case json_get v ''reblog'' of None \<Rightarrow> None | Some r \<Rightarrow> if r = JNull then None else status_at p r)"
| "status_at (Quoted # p) v =
     (case quoted_status v of None \<Rightarrow> None | Some q \<Rightarrow> if q = JNull then None else status_at p q)"

lemma apply_map_get:
  assumes "k \<noteq> ''reblog''" "k \<noteq> ''quote''"
  shows "json_get (apply_map v m) k = json_get (rewrite_own v m) k"
  using assms by (subst apply_map.simps) (simp add: Let_def json_get_put split: option.split)

lemma apply_map_null [simp]: "apply_map v m = JNull \<longleftrightarrow> v = JNull"
proof -
  have put: "json_put v k w = JNull \<longleftrightarrow> v = JNull" for v k w by (cases v) (auto simp: json_put_def)
  have "rewrite_field v k m = JNull \<longleftrightarrow> v = JNull" for v k
    by (auto simp: rewrite_field_def put split: option.split json.split)
  then show ?thesis
    by (subst apply_map.simps) (auto simp: Let_def put rewrite_own_def split: option.split)
qed

lemma apply_map_reblog:
  "json_get (apply_map v m) ''reblog'' = map_option (\<lambda>r. if r = JNull then r else apply_map r m) (json_get v ''reblog'')"
  by (subst apply_map.simps) (simp add: Let_def json_get_put json_get_own split: option.split)

lemma apply_map_quoted:
  "quoted_status (apply_map v m) = map_option (\<lambda>q. if q = JNull then q else apply_map q m) (quoted_status v)"
  by (subst apply_map.simps)
    (simp add: Let_def quoted_status_def json_get_put json_get_own split: option.split)

lemma status_at_apply_map: "status_at p (apply_map v m) = map_option (\<lambda>s. apply_map s m) (status_at p v)"
  by (induction p v rule: status_at.induct)
    (simp_all add: apply_map_reblog apply_map_quoted split: option.split)

lemma collect_ids_at:
  assumes "status_at p v = Some s" "n \<in> set (push_numeric (json_get s ''id'')) \<union> set (push_numeric (json_get s ''in_reply_to_id''))"
  shows "n \<in> set (collect_ids v)"
  using assms
proof (induction p v rule: status_at.induct)
  case (1 v)
  then show ?case by (subst collect_ids.simps) auto
next
  case (2 p v)
  then show ?case by (subst collect_ids.simps) (auto split: option.splits if_splits)
next
  case (3 p v)
  then show ?case by (subst collect_ids.simps) (auto split: option.splits if_splits)
qed

text \<open>The value of an id field after the walk, with the whole table as the map.\<close>

definition linked :: "status_table \<Rightarrow> int \<rightharpoonup> int" where
  "linked tab m = reverse_map [m] tab m"

definition mapped_id :: "status_table \<Rightarrow> json \<Rightarrow> json" where
  "mapped_id tab j =
     (case j of
        JStr s \<Rightarrow> (case Option.bind (parse_i64 s) (linked tab) of Some i \<Rightarrow> JStr (show_int i) | None \<Rightarrow> j)
      | _ \<Rightarrow> j)"

lemma reverse_map_linked: "reverse_map ids tab m = (if m \<in> set ids then linked tab m else None)"
  by (simp add: reverse_map_def linked_def Let_def)

lemma rewrite_own_mapped:
  assumes "k = ''id'' \<or> k = ''in_reply_to_id''" "set (push_numeric (json_get s k)) \<subseteq> set ids"
  shows "json_get (rewrite_own s (reverse_map ids tab)) k = map_option (mapped_id tab) (json_get s k)"
proof -
  have bind: "Option.bind (parse_i64 t) (reverse_map ids tab) = Option.bind (parse_i64 t) (linked tab)"
    if "json_get s k = Some (JStr t)" for t
    using assms(2) that by (cases "parse_i64 t") (auto simp: push_numeric_def reverse_map_linked)
  have "json_get (rewrite_field v k (reverse_map ids tab)) k = map_option (mapped_id tab) (json_get v k)"
    if "json_get v k = json_get s k" for v
    using that bind by (auto simp: rewrite_field_def json_get_put mapped_id_def split: option.split json.split)
  then show ?thesis using assms(1) by (auto simp: rewrite_own_def json_get_rewrite_other)
qed

lemma rewrite_field_id:
  "(\<And>n. n \<in> set (push_numeric (json_get v k)) \<Longrightarrow> m n = None) \<Longrightarrow> rewrite_field v k m = v"
  by (auto simp: rewrite_field_def push_numeric_def split: option.split json.split Option.bind_split)

lemma translate_own:
  assumes "translate_response fails tab v = Some v'" and s: "status_at p v = Some s"
  shows "\<exists>s'. status_at p v' = Some s' \<and> (\<forall>k. k \<noteq> ''reblog'' \<and> k \<noteq> ''quote'' \<longrightarrow> json_get s' k =
        (if k = ''id'' \<or> k = ''in_reply_to_id'' then map_option (mapped_id tab) (json_get s k) else json_get s k))"
proof -
  let ?m = "reverse_map (collect_ids v) tab"
  have ids: "set (push_numeric (json_get s k)) \<subseteq> set (collect_ids v)" if "k = ''id'' \<or> k = ''in_reply_to_id''" for k
    using collect_ids_at [OF s] that by blast
  have own: "json_get (rewrite_own s ?m) k =
      (if k = ''id'' \<or> k = ''in_reply_to_id'' then map_option (mapped_id tab) (json_get s k) else json_get s k)" for k
    using rewrite_own_mapped [OF _ ids] json_get_own by simp
  have keep: "rewrite_own s ?m = s" if "list_all (\<lambda>i. ?m i = None) (collect_ids v)"
    using that ids by (auto simp: rewrite_own_def rewrite_field_id list_all_iff reverse_map_linked)
  show ?thesis
  proof (cases "list_all (\<lambda>i. ?m i = None) (collect_ids v)")
    case True
    then have "v' = v" using assms by (auto simp: translate_response_def Let_def split: if_splits)
    with s own keep [OF True] show ?thesis by (metis (no_types))
  next
    case False
    then have "v' = apply_map v ?m" using assms by (auto simp: translate_response_def Let_def split: if_splits)
    then have "status_at p v' = Some (apply_map s ?m)" using s by (simp add: status_at_apply_map)
    with own show ?thesis by (intro exI [of _ "apply_map s ?m"]) (simp add: apply_map_get)
  qed
qed

text \<open>
  C15: Translating a response rewrites every status in it, at any depth of reblogs and quotes: its id
  and the id it replies to become what the whole mapping table has for them, although only the ids
  collected before are looked up, ids without a row stay, and every member of the status that holds
  neither an id nor a status is kept. When the lookup fails, nothing is returned.
\<close>

theorem translate_every_status:
  assumes "translate_response fails tab v = Some v'"
  shows "\<forall>p s. status_at p v = Some s \<longrightarrow> (\<exists>s'. status_at p v' = Some s'
    \<and> (\<forall>k. k \<noteq> ''reblog'' \<and> k \<noteq> ''quote'' \<longrightarrow> json_get s' k =
        (if k = ''id'' \<or> k = ''in_reply_to_id'' then map_option (mapped_id tab) (json_get s k) else json_get s k)))"
  using translate_own [OF assms] by blast

text \<open>A boost of a status that replies to one and quotes another, of which two are in the table.\<close>

definition a_boost :: json where
  "a_boost = JObj [(''id'', JStr ''30''), (''reblog'', JObj [(''id'', JStr ''31''), (''in_reply_to_id'', JStr ''32''),
     (''quote'', JObj [(''state'', JStr ''accepted''), (''quoted_status'', JObj [(''id'', JStr ''33'')])])])]"

definition two_links :: status_table where
  "two_links = [(a_row 7)\<lparr>cs_mastodon_local_id := Some 32\<rparr>, (a_row 8)\<lparr>cs_mastodon_local_id := Some 33\<rparr>]"

theorem translate_every_status_witness:
  "\<exists>v'. translate_response False two_links a_boost = Some v'
     \<and> Option.bind (status_at [Reblogged] v') (\<lambda>s. json_get s ''in_reply_to_id'') = Some (JStr ''7'')
     \<and> Option.bind (status_at [Reblogged, Quoted] v') (\<lambda>s. json_get s ''id'') = Some (JStr ''8'')"
proof -
  have "translate_response False two_links a_boost \<noteq> None" by (simp add: translate_response_def Let_def)
  then obtain v' where v': "translate_response False two_links a_boost = Some v'" by blast
  have a: "status_at [Reblogged] a_boost = Some (JObj [(''id'', JStr ''31''), (''in_reply_to_id'', JStr ''32''),
     (''quote'', JObj [(''state'', JStr ''accepted''), (''quoted_status'', JObj [(''id'', JStr ''33'')])])])"
    and b: "status_at [Reblogged, Quoted] a_boost = Some (JObj [(''id'', JStr ''33'')])"
    by code_simp+
  have m: "mapped_id two_links (JStr ''32'') = JStr ''7''" "mapped_id two_links (JStr ''33'') = JStr ''8''"
    by code_simp+
  from translate_every_status [OF v', rule_format, OF a] obtain s where s: "status_at [Reblogged] v' = Some s"
      "json_get s ''in_reply_to_id'' = Some (mapped_id two_links (JStr ''32''))"
    by (elim exE conjE) (drule spec [of _ "''in_reply_to_id''"], simp)
  from translate_every_status [OF v', rule_format, OF b] obtain t where t: "status_at [Reblogged, Quoted] v' = Some t"
      "json_get t ''id'' = Some (mapped_id two_links (JStr ''33''))"
    by (elim exE conjE) (drule spec [of _ "''id''"], simp)
  from v' s t m show ?thesis by simp
qed

end
