(* ===== verification/Mastodon_Routes.thy ===== *)
theory Mastodon_Routes
  imports Translate Auth Statuses
begin

text \<open>
  Requests that Mastodon serves: \<open>mastodon/forward.rs\<close>, the engagement, posting and reporting
  handlers of \<open>routes/mastodon\<close> with their errors, and \<open>middleware/mastodon_fallback.rs\<close>, which
  runs around them. A handler returns its response with the table it leaves and the requests it sent
  to Mastodon, in order. Parsing and printing JSON and Mastodon's answers are parameters.
\<close>

section \<open>Requests and responses\<close>

type_synonym headers = "(string \<times> string) list"

record upstream_request =
  uq_method :: string
  uq_url :: string
  uq_headers :: headers
  uq_body :: "string option"

text \<open>An answer of Mastodon; its body is \<open>None\<close> when reading it fails.\<close>

record upstream_answer =
  ua_status :: nat
  ua_content_type :: "string option"
  ua_body :: "string option"

record forward_response =
  fr_status :: nat
  fr_body :: string
  fr_content_type :: "string option"

datatype body = No_Body | Raw_Body string | Json_Body json | Status_Body status | Context_Body status_context

text \<open>\<open>rp_final\<close> says that the response has the extension \<open>NoFallback\<close>.\<close>

record client_response =
  rp_status :: nat
  rp_content_type :: "string option"
  rp_retry_after :: "string option"
  rp_body :: body
  rp_final :: bool

definition status_response :: "nat \<Rightarrow> client_response" where
  "status_response st = \<lparr>rp_status = st, rp_content_type = None, rp_retry_after = None, rp_body = No_Body, rp_final = False\<rparr>"

definition json_response :: "body \<Rightarrow> client_response" where
  "json_response b = \<lparr>rp_status = 200, rp_content_type = Some ''application/json'', rp_retry_after = None, rp_body = b, rp_final = False\<rparr>"

definition forward_into_response :: "forward_response \<Rightarrow> client_response" where
  "forward_into_response f =
     \<lparr>rp_status = fr_status f, rp_content_type = fr_content_type f, rp_retry_after = None, rp_body = Raw_Body (fr_body f), rp_final = False\<rparr>"

text \<open>
  The outside of a request: the address of Mastodon and its answers, the JSON reader and printer,
  what the resolver meets for a status, and whether the \<open>n\<close>-th reverse lookup of a request fails.
\<close>

record mastodon_env =
  me_base :: "string option"
  me_send :: "upstream_request \<Rightarrow> upstream_answer option"
  me_parse :: "string \<Rightarrow> json option"
  me_print :: "json \<Rightarrow> string"
  me_resolver :: "int \<Rightarrow> resolve_env"
  me_reverse_fails :: "nat \<Rightarrow> bool"

definition resolver_env :: "mastodon_env \<Rightarrow> int \<Rightarrow> resolve_env" where
  "resolver_env env s = (me_resolver env s)\<lparr>rv_base := me_base env\<rparr>"

definition forward :: "mastodon_env \<Rightarrow> string \<Rightarrow> string \<Rightarrow> string \<Rightarrow> headers \<Rightarrow> string option
    \<Rightarrow> upstream_request \<times> forward_response option" where
  "forward env base method path hs b =
     (let rq = \<lparr>uq_method = method, uq_url = base @ path, uq_headers = hs, uq_body = b\<rparr>
      in (rq, case me_send env rq of
                None \<Rightarrow> None
              | Some a \<Rightarrow>
                  map_option (\<lambda>bytes. \<lparr>fr_status = status_code (ua_status a), fr_body = bytes, fr_content_type = ua_content_type a\<rparr>)
                    (ua_body a)))"

section \<open>Errors\<close>

datatype engagement_error =
    EE_Not_Found
  | EE_Unresolvable
  | EE_Forbidden
  | EE_Blocked
  | EE_Rate_Limited "nat option"
  | EE_Upstream nat
  | EE_Unreachable
  | EE_Bad_Body
  | EE_Db

fun engagement_metric :: "engagement_error \<Rightarrow> string" where
  "engagement_metric EE_Not_Found = ''not_found''"
| "engagement_metric EE_Unresolvable = ''unresolvable''"
| "engagement_metric EE_Forbidden = ''forbidden''"
| "engagement_metric EE_Blocked = ''blocked''"
| "engagement_metric (EE_Rate_Limited r) = ''rate_limited''"
| "engagement_metric (EE_Upstream s) = ''upstream''"
| "engagement_metric EE_Unreachable = ''unreachable''"
| "engagement_metric EE_Bad_Body = ''bad_body''"
| "engagement_metric EE_Db = ''db''"

fun error_from_resolve :: "resolve_error \<Rightarrow> engagement_error" where
  "error_from_resolve RE_Not_Found = EE_Not_Found"
| "error_from_resolve RE_Unresolvable = EE_Unresolvable"
| "error_from_resolve RE_Forbidden = EE_Forbidden"
| "error_from_resolve RE_Blocked = EE_Blocked"
| "error_from_resolve RE_Unreachable = EE_Unreachable"
| "error_from_resolve (RE_Rate_Limited r) = EE_Rate_Limited r"
| "error_from_resolve (RE_Upstream s) = EE_Upstream s"
| "error_from_resolve RE_Db = EE_Db"

fun error_response :: "engagement_error \<Rightarrow> client_response" where
  "error_response EE_Not_Found = status_response 404"
| "error_response EE_Unresolvable = status_response 404"
| "error_response EE_Forbidden = status_response 403"
| "error_response EE_Blocked = status_response 403"
| "error_response EE_Unreachable = status_response 502"
| "error_response EE_Bad_Body = status_response 502"
| "error_response EE_Db = status_response 500"
| "error_response (EE_Upstream s) = status_response s"
| "error_response (EE_Rate_Limited r) = (status_response 429)\<lparr>rp_retry_after := map_option show_nat r\<rparr>"

definition result_response :: "engagement_error + client_response \<Rightarrow> client_response" where
  "result_response r = (case r of Inl e \<Rightarrow> error_response e | Inr x \<Rightarrow> x)"

section \<open>Engagements\<close>

datatype status_action = Favourite | Unfavourite | Reblog | Unreblog | Bookmark | Unbookmark

fun segment :: "status_action \<Rightarrow> string" where
  "segment Favourite = ''favourite''"
| "segment Unfavourite = ''unfavourite''"
| "segment Reblog = ''reblog''"
| "segment Unreblog = ''unreblog''"
| "segment Bookmark = ''bookmark''"
| "segment Unbookmark = ''unbookmark''"

type_synonym 'r handled = "'r \<times> status_table \<times> upstream_request list"

definition engagement_target :: "mastodon_env \<Rightarrow> account \<Rightarrow> string \<Rightarrow> status_table
    \<Rightarrow> (engagement_error + string \<times> int option) \<times> status_table" where
  "engagement_target env acc i tab =
     (case parse_i64 i of
        None \<Rightarrow> (Inr (i, None), tab)
      | Some snowflake \<Rightarrow>
          (case resolve (resolver_env env snowflake) snowflake (ac_token acc) tab of
             (Inr m, tab') \<Rightarrow> (Inr (show_int m, Some snowflake), tab')
           | (Inl RE_Not_Found, tab') \<Rightarrow> (Inr (i, None), tab')
           | (Inl e, tab') \<Rightarrow> (Inl (error_from_resolve e), tab')))"

definition pin_id :: "string \<Rightarrow> int option \<Rightarrow> json \<Rightarrow> json" where
  "pin_id forward_id hint v =
     (case hint of
        None \<Rightarrow> v
      | Some snowflake \<Rightarrow>
          if json_get v ''id'' = Some (JStr forward_id) then json_put v ''id'' (JStr (show_int snowflake)) else v)"

text \<open>A status of Mastodon as an answer: read, translated and changed by the handler.\<close>

definition answer_status :: "mastodon_env \<Rightarrow> (json \<Rightarrow> json) \<Rightarrow> status_table \<Rightarrow> forward_response option
    \<Rightarrow> engagement_error + client_response" where
  "answer_status env edit tab r =
     (case r of
        None \<Rightarrow> Inl EE_Unreachable
      | Some f \<Rightarrow>
          if \<not> is_success (fr_status f) then Inr (forward_into_response f)
          else (case me_parse env (fr_body f) of
                  None \<Rightarrow> Inl EE_Bad_Body
                | Some v \<Rightarrow>
                    (case translate_response (me_reverse_fails env 0) tab v of
                       None \<Rightarrow> Inl EE_Db
                     | Some v' \<Rightarrow> Inr (json_response (Json_Body (edit v'))))))"

definition run_engagement :: "mastodon_env \<Rightarrow> account \<Rightarrow> string \<Rightarrow> headers \<Rightarrow> string \<Rightarrow> status_action \<Rightarrow> status_table
    \<Rightarrow> (engagement_error + client_response) handled" where
  "run_engagement env acc i hs b action tab =
     (case engagement_target env acc i tab of
        (Inl e, tab') \<Rightarrow> (Inl e, tab', [])
      | (Inr (forward_id, hint), tab') \<Rightarrow>
          (case me_base env of
             None \<Rightarrow> (Inl EE_Unreachable, tab', [])
           | Some base \<Rightarrow>
               (case forward env base ''POST'' (''/api/v1/statuses/'' @ forward_id @ ''/'' @ segment action) hs (Some b) of
                  (rq, r) \<Rightarrow> (answer_status env (pin_id forward_id hint) tab' r, tab', [rq]))))"

definition engagement_outcome :: "engagement_error + client_response \<Rightarrow> string" where
  "engagement_outcome r =
     (case r of Inr x \<Rightarrow> if is_success (rp_status x) then ''ok'' else ''upstream_error'' | Inl e \<Rightarrow> engagement_metric e)"

definition apply_engagement :: "mastodon_env \<Rightarrow> account \<Rightarrow> string \<Rightarrow> headers \<Rightarrow> string \<Rightarrow> status_action \<Rightarrow> status_table
    \<Rightarrow> client_response handled" where
  "apply_engagement env acc i hs b action tab =
     (case run_engagement env acc i hs b action tab of
        (r, tab', sent) \<Rightarrow> ((result_response r)\<lparr>rp_final := True\<rparr>, tab', sent))"

section \<open>Posting and reporting\<close>

text \<open>\<open>to_str\<close> takes visible ASCII and tabs.\<close>

definition header_str :: "headers \<Rightarrow> string \<Rightarrow> string option" where
  "header_str hs k = Option.bind (map_of hs k) header_value"

definition is_json :: "headers \<Rightarrow> bool" where
  "is_json hs = (case header_str hs ''content-type'' of None \<Rightarrow> False | Some s \<Rightarrow> starts_with ''application/json'' s)"

fun translate_keys :: "mastodon_env \<Rightarrow> string \<Rightarrow> string list \<Rightarrow> json \<Rightarrow> status_table \<Rightarrow> (resolve_error + json) \<times> status_table" where
  "translate_keys env token [] v tab = (Inr v, tab)"
| "translate_keys env token (k # ks) v tab =
     (case json_get v k of
        Some (JStr i) \<Rightarrow>
          (case translate_request_id (case parse_i64 i of Some s \<Rightarrow> resolver_env env s | None \<Rightarrow> resolver_env env 0) token i tab of
             (Inl e, tab') \<Rightarrow> (Inl e, tab')
           | (Inr i', tab') \<Rightarrow> translate_keys env token ks (json_put v k (JStr i')) tab')
      | _ \<Rightarrow> translate_keys env token ks v tab)"

fun translate_items :: "mastodon_env \<Rightarrow> string \<Rightarrow> json list \<Rightarrow> status_table \<Rightarrow> (resolve_error + json list) \<times> status_table" where
  "translate_items env token [] tab = (Inr [], tab)"
| "translate_items env token (v # vs) tab =
     (case v of
        JStr i \<Rightarrow>
          (case translate_request_id (case parse_i64 i of Some s \<Rightarrow> resolver_env env s | None \<Rightarrow> resolver_env env 0) token i tab of
             (Inl e, tab') \<Rightarrow> (Inl e, tab')
           | (Inr i', tab') \<Rightarrow>
               (case translate_items env token vs tab' of
                  (Inl e, tab'') \<Rightarrow> (Inl e, tab'') | (Inr ws, tab'') \<Rightarrow> (Inr (JStr i' # ws), tab'')))
      | _ \<Rightarrow> (case translate_items env token vs tab of (Inl e, tab') \<Rightarrow> (Inl e, tab') | (Inr ws, tab') \<Rightarrow> (Inr (v # ws), tab')))"

text \<open>The body that goes to Mastodon: a JSON body is read and written again with Mastodon's ids.\<close>

definition forward_body :: "mastodon_env \<Rightarrow> (json \<Rightarrow> status_table \<Rightarrow> (resolve_error + json) \<times> status_table) \<Rightarrow> headers \<Rightarrow> string
    \<Rightarrow> status_table \<Rightarrow> (engagement_error + string) \<times> status_table" where
  "forward_body env edit hs b tab =
     (if is_json hs
      then (case me_parse env b of
              None \<Rightarrow> (Inl EE_Bad_Body, tab)
            | Some v \<Rightarrow> (case edit v tab of
                          (Inl e, tab') \<Rightarrow> (Inl (error_from_resolve e), tab')
                        | (Inr v', tab') \<Rightarrow> (Inr (me_print env v'), tab')))
      else (Inr b, tab))"

definition run_create_status :: "mastodon_env \<Rightarrow> account \<Rightarrow> headers \<Rightarrow> string \<Rightarrow> status_table
    \<Rightarrow> (engagement_error + client_response) handled" where
  "run_create_status env acc hs b tab =
     (case me_base env of
        None \<Rightarrow> (Inl EE_Unreachable, tab, [])
      | Some base \<Rightarrow>
          (case forward_body env (translate_keys env (ac_token acc) [''in_reply_to_id'', ''quote_id'']) hs b tab of
             (Inl e, tab') \<Rightarrow> (Inl e, tab', [])
           | (Inr b', tab') \<Rightarrow>
               (case forward env base ''POST'' ''/api/v1/statuses'' hs (Some b') of
                  (rq, r) \<Rightarrow> (answer_status env id tab' r, tab', [rq]))))"

definition create_status :: "mastodon_env \<Rightarrow> account \<Rightarrow> headers \<Rightarrow> string \<Rightarrow> status_table \<Rightarrow> client_response handled" where
  "create_status env acc hs b tab =
     (case run_create_status env acc hs b tab of (r, tab', sent) \<Rightarrow> (result_response r, tab', sent))"

definition translate_report :: "mastodon_env \<Rightarrow> string \<Rightarrow> json \<Rightarrow> status_table \<Rightarrow> (resolve_error + json) \<times> status_table" where
  "translate_report env token v tab =
     (case json_get v ''status_ids'' of
        Some (JArr ids) \<Rightarrow>
          (case translate_items env token ids tab of
             (Inl e, tab') \<Rightarrow> (Inl e, tab') | (Inr ids', tab') \<Rightarrow> (Inr (json_put v ''status_ids'' (JArr ids')), tab'))
      | _ \<Rightarrow> (Inr v, tab))"

definition report_back :: "bool \<Rightarrow> status_table \<Rightarrow> json \<Rightarrow> json option" where
  "report_back fails tab v =
     (case json_get v ''status_ids'' of
        Some (JArr ids) \<Rightarrow>
          let ms = concat (map (\<lambda>i. push_numeric (Some i)) ids) in
          if ms = [] then Some v
          else if fails then None
          else Some (json_put v ''status_ids'' (JArr (map
            (\<lambda>i. case i of
                    JStr s \<Rightarrow> (case Option.bind (parse_i64 s) (reverse_map ms tab) of Some n \<Rightarrow> JStr (show_int n) | None \<Rightarrow> i)
                  | _ \<Rightarrow> i) ids)))
      | _ \<Rightarrow> Some v)"

definition run_create_report :: "mastodon_env \<Rightarrow> account \<Rightarrow> headers \<Rightarrow> string \<Rightarrow> status_table
    \<Rightarrow> (engagement_error + client_response) handled" where
  "run_create_report env acc hs b tab =
     (case me_base env of
        None \<Rightarrow> (Inl EE_Unreachable, tab, [])
      | Some base \<Rightarrow>
          (case forward_body env (translate_report env (ac_token acc)) hs b tab of
             (Inl e, tab') \<Rightarrow> (Inl e, tab', [])
           | (Inr b', tab') \<Rightarrow>
               (case forward env base ''POST'' ''/api/v1/reports'' hs (Some b') of
                  (rq, r) \<Rightarrow>
                    ((case r of
                        None \<Rightarrow> Inl EE_Unreachable
                      | Some f \<Rightarrow>
                          if \<not> is_success (fr_status f) then Inr (forward_into_response f)
                          else (case me_parse env (fr_body f) of
                                  None \<Rightarrow> Inl EE_Bad_Body
                                | Some v \<Rightarrow> (case report_back (me_reverse_fails env 0) tab' v of
                                              None \<Rightarrow> Inl EE_Db
                                            | Some v' \<Rightarrow> Inr (json_response (Json_Body v'))))),
                     tab', [rq]))))"

definition create_report :: "mastodon_env \<Rightarrow> account \<Rightarrow> headers \<Rightarrow> string \<Rightarrow> status_table \<Rightarrow> client_response handled" where
  "create_report env acc hs b tab =
     (case run_create_report env acc hs b tab of (r, tab', sent) \<Rightarrow> (result_response r, tab', sent))"

section \<open>The fallback\<close>

text \<open>A client's request; the body is \<open>None\<close> when it cannot be read.\<close>

record client_request =
  cq_method :: string
  cq_path_and_query :: "string option"
  cq_headers :: headers
  cq_body :: "string option"

definition max_proxy_body_bytes :: nat where "max_proxy_body_bytes = 1048576"

definition proxy :: "mastodon_env \<Rightarrow> string \<Rightarrow> string \<Rightarrow> string \<Rightarrow> headers \<Rightarrow> string option \<Rightarrow> client_response \<times> upstream_request" where
  "proxy env base path method hs b =
     (case forward env base method path hs b of
        (rq, None) \<Rightarrow> (status_response 502, rq)
      | (rq, Some f) \<Rightarrow> (forward_into_response f, rq))"

definition fallback :: "mastodon_env \<Rightarrow> client_request \<Rightarrow> (client_request \<Rightarrow> status_table \<Rightarrow> client_response handled) \<Rightarrow> status_table
    \<Rightarrow> client_response handled" where
  "fallback env req inner tab =
     (case me_base env of
        None \<Rightarrow> inner req tab
      | Some base \<Rightarrow>
          (case cq_path_and_query req of
             None \<Rightarrow> inner req tab
           | Some path \<Rightarrow>
               let buffered = (if cq_method req = ''GET'' then None else cq_body req) in
               if cq_method req \<noteq> ''GET'' \<and> (case cq_body req of None \<Rightarrow> True | Some b \<Rightarrow> length b > max_proxy_body_bytes)
               then (status_response 413, tab, [])
               else (case inner req tab of
                       (resp, tab', sent) \<Rightarrow>
                         if rp_final resp \<or> rp_status resp \<noteq> 404 \<and> rp_status resp \<noteq> 405 then (resp, tab', sent)
                         else (case proxy env base path (cq_method req) (cq_headers req) buffered of
                                 (resp', rq) \<Rightarrow> (resp', tab', sent @ [rq])))))"

section \<open>The routes\<close>

definition login_headers :: "headers \<Rightarrow> request_headers" where
  "login_headers hs = \<lparr>rh_authorization = header_str hs ''authorization'', rh_accept_language = header_str hs ''accept-language''\<rparr>"

text \<open>A handler that takes the account and the bytes of the body, which the server limits.\<close>

definition body_limit :: int where "body_limit = 1048576"

definition with_account :: "auth_db option \<Rightarrow> instant \<Rightarrow> (account \<Rightarrow> headers \<Rightarrow> string \<Rightarrow> status_table \<Rightarrow> client_response handled)
    \<Rightarrow> client_request \<Rightarrow> status_table \<Rightarrow> client_response handled" where
  "with_account db now k req tab =
     (case account_required db now (login_headers (cq_headers req)) of
        Inl st \<Rightarrow> (status_response st, tab, [])
      | Inr acc \<Rightarrow> (case cq_body req of
                      None \<Rightarrow> (status_response 400, tab, [])
                    | Some b \<Rightarrow> if int (length b) > body_limit then (status_response 413, tab, [])
                                 else k acc (cq_headers req) b tab))"

text \<open>The routes of the POST requests; the router (\<open>Server\<close>) sends requests of other methods elsewhere.\<close>

definition engagement_route :: "mastodon_env \<Rightarrow> auth_db option \<Rightarrow> instant \<Rightarrow> string \<Rightarrow> status_action \<Rightarrow> client_request
    \<Rightarrow> status_table \<Rightarrow> client_response handled" where
  "engagement_route env db now i action req =
     fallback env req (with_account db now (\<lambda>acc hs b. apply_engagement env acc i hs b action))"

definition create_status_route :: "mastodon_env \<Rightarrow> auth_db option \<Rightarrow> instant \<Rightarrow> client_request \<Rightarrow> status_table
    \<Rightarrow> client_response handled" where
  "create_status_route env db now req = fallback env req (with_account db now (create_status env))"

definition create_report_route :: "mastodon_env \<Rightarrow> auth_db option \<Rightarrow> instant \<Rightarrow> client_request \<Rightarrow> status_table
    \<Rightarrow> client_response handled" where
  "create_report_route env db now req = fallback env req (with_account db now (create_report env))"

definition proxy_fallback :: client_response where
  "proxy_fallback = status_response 404"

definition proxied_route :: "mastodon_env \<Rightarrow> client_request \<Rightarrow> status_table \<Rightarrow> client_response handled" where
  "proxied_route env req = fallback env req (\<lambda>req tab. (proxy_fallback, tab, []))"

section \<open>What is sent to Mastodon\<close>

lemma account_required_error: "account_required db now hs = Inl st \<Longrightarrow> st = 401 \<or> st = 500"
  by (auto simp: account_required_def split: option.splits)

text \<open>The fallback sent the client's request after the handler's response \<open>r\<close>.\<close>

definition retried :: "mastodon_env \<Rightarrow> client_request \<Rightarrow> client_response \<Rightarrow> string \<Rightarrow> client_response
    \<Rightarrow> upstream_request list \<Rightarrow> upstream_request list \<Rightarrow> bool" where
  "retried env req r b resp s sent \<longleftrightarrow>
     (\<exists>base path rq. me_base env = Some base \<and> cq_path_and_query req = Some path
       \<and> \<not> rp_final r \<and> (rp_status r = 404 \<or> rp_status r = 405)
       \<and> proxy env base path (cq_method req) (cq_headers req) (if cq_method req = ''GET'' then None else Some b) = (resp, rq)
       \<and> sent = s @ [rq])"

text \<open>A route of a handler: nothing is sent before the account is known, and the handler's answer decides.\<close>

lemma fallback_with_account:
  assumes "fallback env req (with_account db now k) tab = (resp, tab', sent)" "sent \<noteq> []"
  obtains acc b r s where "account_required db now (login_headers (cq_headers req)) = Inr acc" "cq_body req = Some b"
    "k acc (cq_headers req) b tab = (r, tab', s)"
    "sent = s \<and> resp = r \<or> retried env req r b resp s sent"
proof (cases "account_required db now (login_headers (cq_headers req))")
  case (Inl st)
  then have "sent = []" using assms(1) account_required_error [OF Inl]
    by (auto simp: fallback_def with_account_def status_response_def Let_def split: option.splits if_splits)
  then show thesis using assms(2) by simp
next
  case (Inr acc)
  show thesis
  proof (cases "cq_body req")
    case None
    then have "sent = []" using assms(1) Inr
      by (auto simp: fallback_def with_account_def status_response_def Let_def split: option.splits if_splits)
    then show thesis using assms(2) by simp
  next
    case (Some b)
    obtain r t s where k: "k acc (cq_headers req) b tab = (r, t, s)" by (metis prod_cases3)
    have fits: "\<not> int (length b) > body_limit"
    proof
      assume "int (length b) > body_limit"
      then have "sent = []" using assms(1) Inr Some
        by (auto simp: fallback_def with_account_def status_response_def Let_def split: option.splits if_splits)
      then show False using assms(2) by simp
    qed
    have "t = tab'" using assms k Inr Some fits
      by (auto simp: fallback_def with_account_def Let_def split: option.splits if_splits prod.splits)
    moreover have "sent = s \<and> resp = r \<or> retried env req r b resp s sent"
      using assms k Inr Some fits
      by (auto simp: fallback_def with_account_def retried_def Let_def split: option.splits if_splits prod.splits)
    ultimately show thesis using that [OF Inr Some] k by blast
  qed
qed

lemma forward_request:
  "fst (forward env base method path hs b) = \<lparr>uq_method = method, uq_url = base @ path, uq_headers = hs, uq_body = b\<rparr>"
  by (simp add: forward_def Let_def)

lemma engagement_target_ok:
  assumes "engagement_target env acc i tab = (Inr (fid, hint), tab')"
  shows "(case parse_i64 i of None \<Rightarrow> fid = i \<and> hint = None | Some s \<Rightarrow>
      (\<exists>m row. find_by_id s tab' = Some row \<and> cs_mastodon_local_id row = Some m \<and> fid = show_int m \<and> hint = Some s)
      \<or> fid = i \<and> hint = None \<and> (\<forall>row. find_by_id s tab = Some row \<longrightarrow> cs_post_uri row = [] \<and> cs_mastodon_local_id row = None))"
proof (cases "parse_i64 i")
  case None
  then show ?thesis using assms by (simp add: engagement_target_def)
next
  case (Some s)
  obtain r t where r: "resolve (resolver_env env s) s (ac_token acc) tab = (r, t)" by (cases "resolve (resolver_env env s) s (ac_token acc) tab")
  show ?thesis
  proof (cases r)
    case (Inl e)
    then have "e = RE_Not_Found" "fid = i" "hint = None"
      using assms Some r by (cases e, simp_all add: engagement_target_def)+
    then show ?thesis using r Inl Some resolve_not_found by simp
  next
    case (Inr m)
    then have "fid = show_int m" "hint = Some s" "t = tab'" using assms Some r by (simp_all add: engagement_target_def)
    then show ?thesis using resolve_stores r Inr Some by simp
  qed
qed

text \<open>
  What the fallback relies on: a handler sends one request at most. Then a client's request costs
  Mastodon two requests at most, and the second is the client's own.
\<close>

locale upstream_handler =
  fixes handle :: "mastodon_env \<Rightarrow> account \<Rightarrow> headers \<Rightarrow> string \<Rightarrow> status_table \<Rightarrow> client_response handled"
  assumes one_request: "length (snd (snd (handle env acc hs b tab))) \<le> 1"
begin

lemma two_requests:
  assumes "fallback env req (with_account db now (handle env)) tab = (resp, tab', sent)"
  shows "length sent \<le> 2"
proof (cases "sent = []")
  case False
  from assms obtain acc b r s where k: "handle env acc (cq_headers req) b tab = (r, tab', s)"
    and d: "sent = s \<and> resp = r \<or> retried env req r b resp s sent"
    by (rule fallback_with_account [OF _ False])
  have "length s \<le> 1" using one_request [of env acc "cq_headers req" b tab] k by simp
  with d show ?thesis by (auto simp: retried_def)
qed simp

lemma second_is_own:
  assumes "fallback env req (with_account db now (handle env)) tab = (resp, tab', sent)" "length sent = 2"
  shows "uq_method (sent ! 1) = cq_method req \<and> uq_headers (sent ! 1) = cq_headers req"
proof -
  have ne: "sent \<noteq> []" using assms(2) by auto
  from assms(1) obtain acc b r s where k: "handle env acc (cq_headers req) b tab = (r, tab', s)"
    and d: "sent = s \<and> resp = r \<or> retried env req r b resp s sent"
    by (rule fallback_with_account [OF _ ne])
  have s1: "length s \<le> 1" using one_request [of env acc "cq_headers req" b tab] k by simp
  with d assms(2) have "retried env req r b resp s sent" by auto
  then obtain base path rq where p: "proxy env base path (cq_method req) (cq_headers req)
      (if cq_method req = ''GET'' then None else Some b) = (resp, rq)" and s: "sent = s @ [rq]"
    unfolding retried_def by blast
  have "rq = \<lparr>uq_method = cq_method req, uq_url = base @ path, uq_headers = cq_headers req,
      uq_body = (if cq_method req = ''GET'' then None else Some b)\<rparr>"
    using p by (auto simp: proxy_def forward_def Let_def split: option.splits)
  moreover have "length s = 1" using s assms(2) by simp
  ultimately show ?thesis using s by (simp add: nth_append)
qed

end

lemma sent_pair: "length (snd (snd (case p of (r, t, s) \<Rightarrow> (f r, t, s)))) = length (snd (snd p))"
  by (simp split: prod.split)

interpretation engagement_handler: upstream_handler "\<lambda>env acc hs b. apply_engagement env acc i hs b action" for i action
  by unfold_locales
    (auto simp: apply_engagement_def run_engagement_def sent_pair split: prod.split sum.split option.split)

interpretation create_status_handler: upstream_handler create_status
  by unfold_locales
    (auto simp: create_status_def run_create_status_def sent_pair split: prod.split sum.split option.split)

interpretation create_report_handler: upstream_handler create_report
  by unfold_locales
    (auto simp: create_report_def run_create_report_def sent_pair split: prod.split sum.split option.split)

lemma run_engagement_sent:
  assumes "snd (run_engagement env acc i hs b action tab) = (tab', sent)" "sent \<noteq> []"
  shows "\<exists>fid hint base. engagement_target env acc i tab = (Inr (fid, hint), tab') \<and> me_base env = Some base
    \<and> sent = [fst (forward env base ''POST'' (''/api/v1/statuses/'' @ fid @ ''/'' @ segment action) hs (Some b))]"
proof -
  obtain r t where t: "engagement_target env acc i tab = (r, t)" by (cases "engagement_target env acc i tab")
  with assms obtain fid hint where r: "r = Inr (fid, hint)" by (cases r) (auto simp: run_engagement_def)
  from assms t r obtain base where base: "me_base env = Some base"
    by (cases "me_base env") (auto simp: run_engagement_def)
  show ?thesis using assms(1) t r base by (simp add: run_engagement_def split: prod.splits)
qed

lemma apply_engagement_final: "rp_final (fst (apply_engagement env acc i hs b action tab))"
  by (simp add: apply_engagement_def split: prod.split)

lemma apply_engagement_snd: "snd (apply_engagement env acc i hs b action tab) = snd (run_engagement env acc i hs b action tab)"
  by (simp add: apply_engagement_def split: prod.split)

lemma apply_engagement_fst:
  "fst (apply_engagement env acc i hs b action tab) = (result_response (fst (run_engagement env acc i hs b action tab)))\<lparr>rp_final := True\<rparr>"
  by (simp add: apply_engagement_def split: prod.split)

text \<open>
  C10: Whatever a client asks and the outside answers, an engagement is sent to Mastodon at most
  once, for a client with an account, with the client's own headers and body, and for the right
  status: the Mastodon id is the one the table has for the client's id, or it is the client's id
  itself, which then stands for no status of the table that could be searched for.
\<close>

theorem engagement_sent_once:
  assumes "engagement_route env db now i action req tab = (resp, tab', sent)"
  shows "sent = [] \<or> (\<exists>acc base b fid. account_required db now (login_headers (cq_headers req)) = Inr acc
    \<and> me_base env = Some base \<and> cq_body req = Some b
    \<and> sent = [\<lparr>uq_method = ''POST'', uq_url = base @ ''/api/v1/statuses/'' @ fid @ ''/'' @ segment action,
        uq_headers = cq_headers req, uq_body = Some b\<rparr>]
    \<and> ((\<exists>s row m. parse_i64 i = Some s \<and> find_by_id s tab' = Some row \<and> cs_mastodon_local_id row = Some m \<and> fid = show_int m)
      \<or> fid = i \<and> (\<forall>s row. parse_i64 i = Some s \<longrightarrow> find_by_id s tab = Some row \<longrightarrow> cs_post_uri row = [])))"
proof (cases "sent = []")
  case False
  from assms have "fallback env req (with_account db now (\<lambda>acc hs b. apply_engagement env acc i hs b action)) tab = (resp, tab', sent)"
    by (simp add: engagement_route_def)
  then obtain acc b r s where
    a: "account_required db now (login_headers (cq_headers req)) = Inr acc" "cq_body req = Some b"
      "apply_engagement env acc i (cq_headers req) b action tab = (r, tab', s)" and
    d: "sent = s \<and> resp = r \<or> retried env req r b resp s sent"
    by (rule fallback_with_account [OF _ False])
  then have c: "sent = s \<or> \<not> rp_final r" by (auto simp: retried_def)
  have "rp_final (fst (apply_engagement env acc i (cq_headers req) b action tab))" by (rule apply_engagement_final)
  with a(3) c have s: "sent = s" by simp
  have run: "snd (run_engagement env acc i (cq_headers req) b action tab) = (tab', s)"
    using apply_engagement_snd [of env acc i "cq_headers req" b action tab] a(3) by simp
  have ne: "s \<noteq> []" using False s by simp
  obtain fid hint base where
    t: "engagement_target env acc i tab = (Inr (fid, hint), tab')" and base: "me_base env = Some base" and
    one: "s = [fst (forward env base ''POST'' (''/api/v1/statuses/'' @ fid @ ''/'' @ segment action) (cq_headers req) (Some b))]"
    using run_engagement_sent [OF run ne] by (elim exE conjE)
  have sent: "sent = [\<lparr>uq_method = ''POST'', uq_url = base @ ''/api/v1/statuses/'' @ fid @ ''/'' @ segment action,
        uq_headers = cq_headers req, uq_body = Some b\<rparr>]" unfolding s one forward_request ..
  have "(\<exists>s row m. parse_i64 i = Some s \<and> find_by_id s tab' = Some row \<and> cs_mastodon_local_id row = Some m \<and> fid = show_int m)
      \<or> fid = i \<and> (\<forall>s row. parse_i64 i = Some s \<longrightarrow> find_by_id s tab = Some row \<longrightarrow> cs_post_uri row = [])"
    using engagement_target_ok [OF t] by (auto split: option.splits)
  with a base sent show ?thesis by blast
qed simp

text \<open>An account, and a Mastodon that answers every search with status 41 and every post with what \<open>answer\<close> says.\<close>

definition one_login :: auth_db where
  "one_login = \<lparr>ad_tokens = [\<lparr>tk_token = ''t'', tk_resource_owner_id = Some 1, tk_revoked_at = None, tk_expires_in = None, tk_created_at = 0\<rparr>],
     ad_users = [\<lparr>us_id = 1, us_account_id = 2, us_chosen_languages = None, us_locale = None, us_confirmed_at = Some 0,
       us_approved = True, us_disabled = False\<rparr>],
     ad_accounts = [\<lparr>lg_id = 2, lg_username = ''a'', lg_suspended_at = None, lg_memorial = False, lg_moved_to_account_id = None\<rparr>]\<rparr>"

definition example_env :: "search_answer \<Rightarrow> json \<Rightarrow> mastodon_env" where
  "example_env search answer =
     \<lparr>me_base = Some ''m:'', me_send = (\<lambda>rq. Some \<lparr>ua_status = 200, ua_content_type = None, ua_body = Some ''out''\<rparr>),
      me_parse = (\<lambda>b. Some (if b = ''out'' then answer else JObj [(''in_reply_to_id'', JStr b)])),
      me_print = (\<lambda>v. case json_get v ''in_reply_to_id'' of Some (JStr i) \<Rightarrow> i | _ \<Rightarrow> []),
      me_resolver = (\<lambda>s. \<lparr>rv_base = None, rv_search = (\<lambda>t u. search), rv_lookup_fails = False, rv_relookup_fails = False,
        rv_persist_fails = False\<rparr>),
      me_reverse_fails = (\<lambda>n. False)\<rparr>"

definition example_request :: "string \<Rightarrow> string \<Rightarrow> client_request" where
  "example_request path b =
     \<lparr>cq_method = ''POST'', cq_path_and_query = Some path,
      cq_headers = [(''authorization'', ''Bearer t''), (''content-type'', ''application/json'')], cq_body = Some b\<rparr>"

lemma fallback_passes:
  assumes "cq_body req = Some b" "length b \<le> max_proxy_body_bytes"
    and "rp_final (fst (inner req tab)) \<or> rp_status (fst (inner req tab)) \<noteq> 404 \<and> rp_status (fst (inner req tab)) \<noteq> 405"
  shows "fallback env req inner tab = inner req tab"
  using assms by (cases "inner req tab") (auto simp: fallback_def Let_def split: option.split)

theorem engagement_sent_once_witness:
  "\<exists>fid. snd (snd (engagement_route (example_env (Search_Answer 200 None (Some [''41''])) (JObj [(''id'', JStr ''41'')]))
      (Some one_login) 0 ''1'' Favourite (example_request ''/p'' []) one_status))
    = [\<lparr>uq_method = ''POST'', uq_url = ''m:/api/v1/statuses/'' @ fid @ ''/favourite'',
        uq_headers = cq_headers (example_request ''/p'' []), uq_body = Some []\<rparr>]"
proof -
  let ?env = "example_env (Search_Answer 200 None (Some [''41''])) (JObj [(''id'', JStr ''41'')])"
  let ?req = "example_request ''/p'' []"
  obtain resp tab' sent where r: "engagement_route ?env (Some one_login) 0 ''1'' Favourite ?req one_status = (resp, tab', sent)"
    by (metis prod_cases3)
  let ?inner = "with_account (Some one_login) 0 (\<lambda>acc hs b. apply_engagement ?env acc ''1'' hs b Favourite)"
  have run: "rp_final (fst (?inner ?req one_status)) \<and> snd (snd (?inner ?req one_status)) \<noteq> []" by code_simp
  have "engagement_route ?env (Some one_login) 0 ''1'' Favourite ?req one_status = ?inner ?req one_status"
    unfolding engagement_route_def
    by (rule fallback_passes [of _ "[]"]) (use run in \<open>simp_all add: example_request_def\<close>)
  then have "?inner ?req one_status = (resp, tab', sent)" using r by (simp only:)
  then have ne: "sent \<noteq> []" using run by simp
  have c: "me_base ?env = Some ''m:''" "cq_body ?req = Some []" by (simp_all add: example_env_def example_request_def)
  show ?thesis
  proof (cases rule: disjE [OF engagement_sent_once [OF r]])
    case 1
    with ne show ?thesis by simp
  next
    case 2
    then obtain acc base b fid where "me_base ?env = Some base" "cq_body ?req = Some b"
      "sent = [\<lparr>uq_method = ''POST'', uq_url = base @ ''/api/v1/statuses/'' @ fid @ ''/'' @ segment Favourite,
        uq_headers = cq_headers ?req, uq_body = Some b\<rparr>]" by (elim exE conjE)
    with c show ?thesis unfolding r snd_conv by (intro exI [of _ fid]) simp
  qed
qed

section \<open>What the client sees\<close>

lemma linked_min:
  assumes "r \<in> set tab" "cs_mastodon_local_id r = Some m"
  shows "linked tab m = Some (Min {cs_id r | r. r \<in> set tab \<and> cs_mastodon_local_id r = Some m})"
proof -
  have "set (map cs_id (filter (\<lambda>r. cs_mastodon_local_id r = Some m) tab)) = {cs_id r | r. r \<in> set tab \<and> cs_mastodon_local_id r = Some m}"
    by auto
  moreover have "filter (\<lambda>r. cs_mastodon_local_id r = Some m) tab \<noteq> []" using assms by (auto simp: filter_empty_conv)
  ultimately show ?thesis by (simp add: linked_def reverse_map_def Let_def)
qed

lemma translate_top_id:
  assumes "translate_response fails tab v = Some v'"
  shows "json_get v' ''id'' = map_option (mapped_id tab) (json_get v ''id'')"
proof -
  have "\<forall>k. k \<noteq> ''reblog'' \<and> k \<noteq> ''quote'' \<longrightarrow> json_get v' k =
        (if k = ''id'' \<or> k = ''in_reply_to_id'' then map_option (mapped_id tab) (json_get v k) else json_get v k)"
    using translate_own [OF assms, of "[]"] by simp
  then show ?thesis by simp
qed

text \<open>
  C29: When the resolver knows Mastodon's id of the client's status and Mastodon answers an engagement
  with that status, the client is answered with the smallest id the mapping table has for it. This
  is the client's own id when no other provider's copy of the post is linked to the same status. The
  handler's own correction to the client's id does not apply, since the translation before it has
  already replaced the id it compares with, unless the two ids are the same number.
\<close>

theorem engagement_answer_id:
  assumes "engagement_target env acc i tab = (Inr (show_int m, Some s), tab')" "in_i64 m" "me_base env = Some base"
    and "snd (forward env base ''POST'' (''/api/v1/statuses/'' @ show_int m @ ''/'' @ segment action) hs (Some b)) = Some f"
    and "is_success (fr_status f)" "me_parse env (fr_body f) = Some v" "\<not> me_reverse_fails env 0"
    and "json_get v ''id'' = Some (JStr (show_int m))"
  shows "\<exists>v' j. fst (apply_engagement env acc i hs b action tab) = (json_response (Json_Body v'))\<lparr>rp_final := True\<rparr>
    \<and> j = Min {cs_id r | r. r \<in> set tab' \<and> cs_mastodon_local_id r = Some m}
    \<and> json_get v' ''id'' = Some (JStr (show_int (if j = m then s else j)))"
proof -
  obtain row m' where "find_by_id s tab' = Some row" "cs_mastodon_local_id row = Some m'" "show_int m = show_int m'"
    using engagement_target_ok [OF assms(1)] by (auto split: option.splits)
  then have row: "row \<in> set tab'" "cs_mastodon_local_id row = Some m"
    by (auto simp: find_by_id_def find_Some_iff)
  let ?j = "Min {cs_id r | r. r \<in> set tab' \<and> cs_mastodon_local_id r = Some m}"
  have "translate_response False tab' v \<noteq> None" by (simp add: translate_response_def Let_def)
  then obtain w where w: "translate_response False tab' v = Some w" by blast
  have "mapped_id tab' (JStr (show_int m)) = JStr (show_int ?j)"
    using linked_min [OF row] assms(2) by (simp add: mapped_id_def)
  then have id: "json_get w ''id'' = Some (JStr (show_int ?j))" using translate_top_id [OF w] assms(8) by simp
  have pin: "json_get (pin_id (show_int m) (Some s) w) ''id'' = Some (JStr (show_int (if ?j = m then s else ?j)))"
    using id by (simp add: pin_id_def json_get_put)
  have "fst (run_engagement env acc i hs b action tab) = Inr (json_response (Json_Body (pin_id (show_int m) (Some s) w)))"
    using assms(1,3-7) w by (simp add: run_engagement_def answer_status_def case_prod_unfold)
  then have "fst (apply_engagement env acc i hs b action tab)
      = (json_response (Json_Body (pin_id (show_int m) (Some s) w)))\<lparr>rp_final := True\<rparr>"
    by (simp add: apply_engagement_fst result_response_def)
  then show ?thesis using pin by (intro exI conjI) auto
qed

text \<open>Two providers' copies of a post are linked to one status: an engagement with the second names the first.\<close>

definition two_copies :: status_table where
  "two_copies = [(a_row 7)\<lparr>cs_mastodon_local_id := Some 41\<rparr>, (a_row 8)\<lparr>cs_mastodon_local_id := Some 41\<rparr>]"

theorem engagement_answer_id_witness:
  "\<exists>v' j. fst (apply_engagement (example_env No_Answer (JObj [(''id'', JStr ''41'')]))
       \<lparr>account.ac_id = 2, ac_username = [], ac_chosen_languages = [], ac_token = ''t''\<rparr> ''8'' [] [] Favourite two_copies)
      = (json_response (Json_Body v'))\<lparr>rp_final := True\<rparr>
    \<and> j = Min {cs_id r | r. r \<in> set two_copies \<and> cs_mastodon_local_id r = Some 41}
    \<and> json_get v' ''id'' = Some (JStr (show_int (if j = 41 then 8 else j)))"
proof -
  let ?env = "example_env No_Answer (JObj [(''id'', JStr ''41'')])"
  let ?acc = "\<lparr>account.ac_id = 2, ac_username = [], ac_chosen_languages = [], ac_token = ''t''\<rparr>"
  have t: "engagement_target ?env ?acc ''8'' two_copies = (Inr (show_int 41, Some 8), two_copies)" by code_simp
  have f: "snd (forward ?env ''m:'' ''POST'' (''/api/v1/statuses/'' @ show_int 41 @ ''/'' @ segment Favourite) [] (Some []))
      = Some \<lparr>fr_status = 200, fr_body = ''out'', fr_content_type = None\<rparr>"
    by (simp add: forward_def example_env_def status_code_def)
  have v: "json_get (JObj [(''id'', JStr ''41'')]) ''id'' = Some (JStr (show_int 41))" by code_simp
  show ?thesis
    by (rule engagement_answer_id [OF t _ _ f _ _ _ v])
      (simp_all add: example_env_def is_success_def in_i64_def i64_min_def i64_max_def)
qed

text \<open>
  C22: A reply that cannot be translated is posted all the same. When the status a new post replies to
  is in the mapping table but Mastodon cannot find it, the handler answers 404 to refuse the post;
  the fallback takes this for a route nobody handles and sends the client's request to Mastodon as
  it came, so the one post Mastodon receives replies to the client's id read as an id of Mastodon.
\<close>

theorem create_status_untranslated:
  assumes "me_base env = Some base" "cq_path_and_query req = Some path" "cq_method req = ''POST''"
    and "cq_body req = Some b" "length b \<le> max_proxy_body_bytes"
    and "account_required db now (login_headers (cq_headers req)) = Inr acc"
    and "is_json (cq_headers req)" "me_parse env b = Some v"
    and "json_get v ''in_reply_to_id'' = Some (JStr i)" "parse_i64 i = Some s"
    and "fst (resolve (resolver_env env s) s (ac_token acc) tab) = Inl RE_Unresolvable"
  shows "snd (snd (create_status_route env db now req tab))
    = [\<lparr>uq_method = ''POST'', uq_url = base @ path, uq_headers = cq_headers req, uq_body = Some b\<rparr>]"
proof -
  obtain t where t: "resolve (resolver_env env s) s (ac_token acc) tab = (Inl RE_Unresolvable, t)"
    using assms(11) by (metis prod.collapse)
  then have "translate_request_id (resolver_env env s) (ac_token acc) i tab = (Inl RE_Unresolvable, t)"
    using assms(10) by (simp add: translate_request_id_def)
  then have "translate_keys env (ac_token acc) [''in_reply_to_id'', ''quote_id''] v tab = (Inl RE_Unresolvable, t)"
    using assms(9,10) by simp
  then have "create_status env acc (cq_headers req) b tab = (status_response 404, t, [])"
    using assms(1,7,8) by (simp add: create_status_def run_create_status_def forward_body_def result_response_def)
  then have "with_account db now (create_status env) req tab = (status_response 404, t, [])"
    using assms(4-6) by (simp add: with_account_def max_proxy_body_bytes_def body_limit_def)
  then show ?thesis
    using assms(1-5)
    by (simp add: create_status_route_def fallback_def proxy_def forward_def status_response_def Let_def split: option.split)
qed

theorem create_status_untranslated_witness:
  "snd (snd (create_status_route (example_env (Search_Answer 200 None (Some [])) JNull) (Some one_login) 0
      (example_request ''/api/v1/statuses'' ''1'') one_status))
    = [\<lparr>uq_method = ''POST'', uq_url = ''m:/api/v1/statuses'', uq_headers = cq_headers (example_request ''/p'' []), uq_body = Some ''1''\<rparr>]"
proof -
  let ?env = "example_env (Search_Answer 200 None (Some [])) JNull"
  let ?req = "example_request ''/api/v1/statuses'' ''1''"
  have acc: "account_required (Some one_login) 0 (login_headers (cq_headers ?req))
      = Inr \<lparr>account.ac_id = 2, ac_username = ''a'', ac_chosen_languages = [], ac_token = ''t''\<rparr>" by code_simp
  have json: "is_json (cq_headers ?req)" by code_simp
  have i: "parse_i64 ''1'' = Some 1" by code_simp
  have p: "me_parse ?env ''1'' = Some (JObj [(''in_reply_to_id'', JStr ''1'')])" by (simp add: example_env_def)
  have g: "json_get (JObj [(''in_reply_to_id'', JStr ''1'')]) ''in_reply_to_id'' = Some (JStr ''1'')" by simp
  have r: "fst (resolve (resolver_env ?env 1) 1 ''t'' one_status) = Inl RE_Unresolvable" by code_simp
  have "snd (snd (create_status_route ?env (Some one_login) 0 ?req one_status))
      = [\<lparr>uq_method = ''POST'', uq_url = ''m:'' @ ''/api/v1/statuses'', uq_headers = cq_headers ?req, uq_body = Some ''1''\<rparr>]"
    by (rule create_status_untranslated [OF _ _ _ _ _ acc json p g i])
      (use r in \<open>simp_all add: example_env_def example_request_def max_proxy_body_bytes_def\<close>)
  then show ?thesis by (simp add: example_request_def)
qed

end
