(* ===== verification/Status_Routes.thy ===== *)
theory Status_Routes
  imports Mastodon_Routes Providers Commonfeed_Sources
begin

text \<open>
  \<open>routes/mastodon/statuses.rs\<close>: a status by its id and the thread around it. A status linked to
  Mastodon is served by Mastodon, any other from the data of the mapping table, which is refreshed
  from its provider once it is an hour old. Mastodon's and the providers' answers and the JSON
  encoding of posts are parameters; the requests sent to Mastodon are returned in order.
\<close>

section \<open>The outside\<close>

text \<open>A page of \<open>/posts/{id}/replies\<close>.\<close>

record navigation_response =
  nv_results :: "post_result list"
  nv_pagination :: pagination

text \<open>A GET request to a provider.\<close>

record provider_get =
  pq_url :: string
  pq_bearer :: string
  pq_query :: "(string \<times> string) list"

record status_env =
  se_mastodon :: mastodon_env
  se_instance_domain :: string
  se_now :: instant
  se_lookup_fails :: bool
  se_clear_fails :: bool
  se_delete_fails :: bool
  se_update_fails :: bool
  se_registry :: "registry option"
  se_fetch_post :: "provider_get \<Rightarrow> post_result http_response"
  se_fetch_replies :: "provider_get \<Rightarrow> navigation_response http_response"
  se_to_value :: "post \<Rightarrow> json"
  se_from_value :: "json \<Rightarrow> post option"
  se_html :: html_env
  se_table :: table_env

definition lookup_provider :: "status_env \<Rightarrow> string \<Rightarrow> provider option option" where
  "lookup_provider env d =
     (case se_registry env of
        None \<Rightarrow> None
      | Some db \<Rightarrow> (case find_by_domain d db of Inl e \<Rightarrow> None | Inr p \<Rightarrow> Some p))"

section \<open>Refreshing from the provider\<close>

definition cache_ttl :: int where "cache_ttl = 3600 * 1000000"

definition refresh_from_provider :: "status_env \<Rightarrow> cached_status \<Rightarrow> status_table \<Rightarrow> (nat + json) \<times> status_table" where
  "refresh_from_provider env row tab =
     (case lookup_provider env (cs_provider_domain row) of
        None \<Rightarrow> (Inl 500, tab)
      | Some None \<Rightarrow> (Inl 404, tab)
      | Some (Some pv) \<Rightarrow>
          (case se_fetch_post env \<lparr>pq_url = pv_base_url pv @ ''/posts/'' @ show_int (cs_remote_id row),
                                   pq_bearer = pv_api_key pv, pq_query = []\<rparr> of
             Send_Failed \<Rightarrow> (Inl 502, tab)
           | Response st b \<Rightarrow>
               if st = 404 \<or> st = 410 then (Inl 404, if se_delete_fails env then tab else delete_status (cs_id row) tab)
               else if st \<noteq> 200 then (Inl 502, tab)
               else (case b of
                       None \<Rightarrow> (Inl 502, tab)
                     | Some r \<Rightarrow>
                         let data = se_to_value env (post_from_result (cs_provider_domain row) r)
                         in (Inr data, if se_update_fails env then tab else update_cache (se_now env) (cs_id row) data tab))))"

section \<open>One status\<close>

text \<open>The first view by somebody with an account resolves the status.\<close>

definition first_view :: "status_env \<Rightarrow> account option \<Rightarrow> int \<Rightarrow> cached_status \<Rightarrow> status_table \<Rightarrow> int option \<times> status_table" where
  "first_view env acc snowflake row tab =
     (case (cs_mastodon_local_id row, acc) of
        (None, Some a) \<Rightarrow>
          (case resolve (resolver_env (se_mastodon env) snowflake) snowflake (ac_token a) tab of
             (Inr m, tab') \<Rightarrow> (Some m, tab') | (Inl e, tab') \<Rightarrow> (None, tab'))
      | (m, _) \<Rightarrow> (m, tab))"

text \<open>
  What Mastodon says to a GET: an answer read by \<open>accept\<close>, no answer to use, a link to forget, or an
  answer to pass on.
\<close>

definition ask_mastodon :: "status_env \<Rightarrow> int option \<Rightarrow> string \<Rightarrow> headers \<Rightarrow> cached_status \<Rightarrow> (json \<Rightarrow> client_response option)
    \<Rightarrow> status_table \<Rightarrow> client_response option handled" where
  "ask_mastodon env mid sub hs row accept tab =
     (case (mid, me_base (se_mastodon env)) of
        (Some m, Some base) \<Rightarrow>
          (case forward (se_mastodon env) base ''GET'' (''/api/v1/statuses/'' @ show_int m @ sub) hs None of
             (rq, None) \<Rightarrow> (None, tab, [rq])
           | (rq, Some f) \<Rightarrow>
               if is_success (fr_status f)
               then (Option.bind (me_parse (se_mastodon env) (fr_body f)) accept, tab, [rq])
               else if fr_status f = 404 \<or> fr_status f = 410
               then (None, if se_clear_fails env then tab else clear_mastodon_local_id (cs_id row) tab, [rq])
               else (Some (forward_into_response f), tab, [rq]))
      | _ \<Rightarrow> (None, tab, []))"

definition accept_detail :: "status_env \<Rightarrow> int \<Rightarrow> status_table \<Rightarrow> json \<Rightarrow> client_response option" where
  "accept_detail env snowflake tab v =
     map_option (\<lambda>v'. json_response (Json_Body (json_put v' ''id'' (JStr (show_int snowflake)))))
       (translate_response (me_reverse_fails (se_mastodon env) 0) tab v)"

definition cached_detail :: "status_env \<Rightarrow> int \<Rightarrow> cached_status \<Rightarrow> status_table \<Rightarrow> (nat + client_response) \<times> status_table" where
  "cached_detail env snowflake row tab =
     (let (data, tab') = (if is_stale (se_now env) cache_ttl row
                          then (case refresh_from_provider env row tab of
                                  (Inr fresh, t) \<Rightarrow> (fresh, t) | (Inl e, t) \<Rightarrow> (cs_post_data row, t))
                          else (cs_post_data row, tab))
      in (case se_from_value env data of
            None \<Rightarrow> Inl 500
          | Some p \<Rightarrow> Inr (json_response (Status_Body (status_from_post (se_html env) p (show_int snowflake)))), tab'))"

text \<open>The row of a request, or the status code of its refusal.\<close>

definition find_row :: "status_env \<Rightarrow> string \<Rightarrow> status_table \<Rightarrow> nat + int \<times> cached_status" where
  "find_row env i tab =
     (case parse_i64 i of
        None \<Rightarrow> Inl 404
      | Some snowflake \<Rightarrow>
          if se_lookup_fails env then Inl 500
          else (case find_by_id snowflake tab of None \<Rightarrow> Inl 404 | Some row \<Rightarrow> Inr (snowflake, row)))"

definition detail :: "status_env \<Rightarrow> account option \<Rightarrow> string \<Rightarrow> headers \<Rightarrow> status_table \<Rightarrow> (nat + client_response) handled" where
  "detail env acc i hs tab =
     (case find_row env i tab of
        Inl st \<Rightarrow> (Inl st, tab, [])
      | Inr (snowflake, row) \<Rightarrow>
          (case first_view env acc snowflake row tab of
             (mid, tab1) \<Rightarrow>
               (case ask_mastodon env mid [] hs row (accept_detail env snowflake tab1) tab1 of
                  (Some resp, tab2, sent) \<Rightarrow> (Inr resp, tab2, sent)
                | (None, tab2, sent) \<Rightarrow>
                    (case cached_detail env snowflake row tab2 of (r, tab3) \<Rightarrow> (r, tab3, sent)))))"

section \<open>The thread around a status\<close>

fun translate_list :: "(nat \<Rightarrow> bool) \<Rightarrow> status_table \<Rightarrow> nat \<Rightarrow> json list \<Rightarrow> (json list \<times> nat) option" where
  "translate_list fails tab n [] = Some ([], n)"
| "translate_list fails tab n (v # vs) =
     Option.bind (translate_response (fails n) tab v) (\<lambda>v'.
       map_option (\<lambda>(ws, k). (v' # ws, k)) (translate_list fails tab (Suc n) vs))"

fun translate_lists :: "(nat \<Rightarrow> bool) \<Rightarrow> status_table \<Rightarrow> nat \<Rightarrow> string list \<Rightarrow> json \<Rightarrow> json option" where
  "translate_lists fails tab n [] v = Some v"
| "translate_lists fails tab n (k # ks) v =
     (case json_get v k of
        Some (JArr vs) \<Rightarrow>
          Option.bind (translate_list fails tab n vs) (\<lambda>(ws, n'). translate_lists fails tab n' ks (json_put v k (JArr ws)))
      | _ \<Rightarrow> translate_lists fails tab n ks v)"

definition accept_context :: "status_env \<Rightarrow> status_table \<Rightarrow> json \<Rightarrow> client_response option" where
  "accept_context env tab v =
     map_option (\<lambda>v'. json_response (Json_Body v'))
       (translate_lists (me_reverse_fails (se_mastodon env)) tab 0 [''ancestors'', ''descendants''] v)"

fun ancestor_posts :: "(json \<Rightarrow> post option) \<Rightarrow> nat \<Rightarrow> json \<Rightarrow> post list" where
  "ancestor_posts de 0 v = []"
| "ancestor_posts de (Suc n) v =
     (case (case json_get v ''reply_to'' of Some w \<Rightarrow> Some w | None \<Rightarrow> json_get v ''replyTo'') of
        None \<Rightarrow> []
      | Some w \<Rightarrow> if w = JNull then [] else (case de w of None \<Rightarrow> [] | Some p \<Rightarrow> p # ancestor_posts de n w))"

definition max_depth :: nat where "max_depth = 20"

definition build_ancestors :: "status_env \<Rightarrow> json \<Rightarrow> status_table \<Rightarrow> status list \<times> status_table" where
  "build_ancestors env data tab =
     (case from_posts (se_table env) (se_html env) (se_instance_domain env) (ancestor_posts (se_from_value env) max_depth data) tab of
        (ss, tab') \<Rightarrow> (rev ss, tab'))"

definition descendants_page_limit :: nat where "descendants_page_limit = 60"
definition descendants_max_pages :: nat where "descendants_max_pages = 5"

definition replies_request :: "provider \<Rightarrow> int \<Rightarrow> string option \<Rightarrow> provider_get" where
  "replies_request pv remote cursor =
     \<lparr>pq_url = pv_base_url pv @ ''/posts/'' @ show_int remote @ ''/replies'', pq_bearer = pv_api_key pv,
      pq_query = (''limit'', show_nat descendants_page_limit) # (case cursor of None \<Rightarrow> [] | Some c \<Rightarrow> [(''cursor'', c)])\<rparr>"

fun reply_pages :: "(provider_get \<Rightarrow> navigation_response http_response) \<Rightarrow> provider \<Rightarrow> int \<Rightarrow> nat \<Rightarrow> string option \<Rightarrow> post list" where
  "reply_pages fetch pv remote 0 cursor = []"
| "reply_pages fetch pv remote (Suc n) cursor =
     (case fetch (replies_request pv remote cursor) of
        Send_Failed \<Rightarrow> []
      | Response st b \<Rightarrow>
          if \<not> is_success st then []
          else (case b of
                  None \<Rightarrow> []
                | Some page \<Rightarrow>
                    map (post_from_result (pv_domain pv)) (nv_results page)
                    @ (if pg_has_more (nv_pagination page) then reply_pages fetch pv remote n (pg_cursor (nv_pagination page)) else [])))"

definition fetch_descendants :: "status_env \<Rightarrow> cached_status \<Rightarrow> status_table \<Rightarrow> status list \<times> status_table" where
  "fetch_descendants env row tab =
     (case lookup_provider env (cs_provider_domain row) of
        Some (Some pv) \<Rightarrow>
          from_posts (se_table env) (se_html env) (se_instance_domain env)
            (reply_pages (se_fetch_replies env) pv (cs_remote_id row) descendants_max_pages None) tab
      | _ \<Rightarrow> ([], tab))"

definition thread_context :: "status_env \<Rightarrow> string \<Rightarrow> headers \<Rightarrow> status_table \<Rightarrow> (nat + client_response) handled" where
  "thread_context env i hs tab =
     (case find_row env i tab of
        Inl st \<Rightarrow> (Inl st, tab, [])
      | Inr (snowflake, row) \<Rightarrow>
          (case ask_mastodon env (cs_mastodon_local_id row) ''/context'' hs row (accept_context env tab) tab of
             (Some resp, tab1, sent) \<Rightarrow> (Inr resp, tab1, sent)
           | (None, tab1, sent) \<Rightarrow>
               (case build_ancestors env (cs_post_data row) tab1 of
                  (as, tab2) \<Rightarrow>
                    (case fetch_descendants env row tab2 of
                       (ds, tab3) \<Rightarrow>
                         (Inr (json_response (Context_Body \<lparr>sx_ancestors = as, sx_descendants = ds\<rparr>)), tab3, sent)))))"

section \<open>The routes\<close>

definition code_response :: "nat + client_response \<Rightarrow> client_response" where
  "code_response r = (case r of Inl st \<Rightarrow> status_response st | Inr x \<Rightarrow> x)"

definition detail_route :: "status_env \<Rightarrow> auth_db option \<Rightarrow> instant \<Rightarrow> string \<Rightarrow> client_request \<Rightarrow> status_table
    \<Rightarrow> client_response handled" where
  "detail_route env db now i req =
     fallback (se_mastodon env) req (\<lambda>rq tab.
       case account_optional db now (login_headers (cq_headers rq)) of
         Inl st \<Rightarrow> (status_response st, tab, [])
       | Inr acc \<Rightarrow> (case detail env acc i (cq_headers rq) tab of (r, tab', sent) \<Rightarrow> (code_response r, tab', sent)))"

definition context_route :: "status_env \<Rightarrow> string \<Rightarrow> client_request \<Rightarrow> status_table \<Rightarrow> client_response handled" where
  "context_route env i req =
     fallback (se_mastodon env) req (\<lambda>rq tab.
       case thread_context env i (cq_headers rq) tab of (r, tab', sent) \<Rightarrow> (code_response r, tab', sent))"

section \<open>A status is always served\<close>

text \<open>
  The id Mastodon knows a status by: the one its row is linked to or, for somebody with an account,
  the one the resolver finds.
\<close>

definition known_as :: "status_env \<Rightarrow> account option \<Rightarrow> int \<Rightarrow> cached_status \<Rightarrow> status_table \<Rightarrow> int option" where
  "known_as env acc s row tab =
     (if cs_mastodon_local_id row \<noteq> None then cs_mastodon_local_id row
      else Option.bind acc (\<lambda>a. case fst (resolve (resolver_env (se_mastodon env) s) s (ac_token a) tab) of
             Inr m \<Rightarrow> Some m | Inl e \<Rightarrow> None))"

text \<open>
  Mastodon serves status \<open>m\<close> for \<open>s\<close>: it answers with a status, whose ids are translated and whose
  own id becomes \<open>s\<close>, or with an error other than that there is no such status.
\<close>

definition mastodon_serves :: "status_env \<Rightarrow> int \<Rightarrow> int \<Rightarrow> headers \<Rightarrow> status_table \<Rightarrow> client_response \<Rightarrow> bool" where
  "mastodon_serves env m s hs tab resp \<longleftrightarrow>
     (\<exists>base f. me_base (se_mastodon env) = Some base
        \<and> snd (forward (se_mastodon env) base ''GET'' (''/api/v1/statuses/'' @ show_int m) hs None) = Some f
        \<and> (if is_success (fr_status f)
           then \<exists>v v'. me_parse (se_mastodon env) (fr_body f) = Some v
                  \<and> translate_response (me_reverse_fails (se_mastodon env) 0) tab v = Some v'
                  \<and> resp = json_response (Json_Body (json_put v' ''id'' (JStr (show_int s))))
           else fr_status f \<notin> {404, 410} \<and> resp = forward_into_response f))"

text \<open>What the provider sends for a row: only asked when the row is stale, and only a 200 counts.\<close>

definition provider_sends :: "status_env \<Rightarrow> cached_status \<Rightarrow> post option" where
  "provider_sends env row =
     (if cs_cached_at row + cache_ttl < se_now env
      then Option.bind (se_registry env) (\<lambda>db.
             case find_by_domain (cs_provider_domain row) db of
               Inr (Some pv) \<Rightarrow>
                 (case se_fetch_post env \<lparr>pq_url = pv_base_url pv @ ''/posts/'' @ show_int (cs_remote_id row),
                                          pq_bearer = pv_api_key pv, pq_query = []\<rparr> of
                    Response st b \<Rightarrow> if st = 200 then map_option (post_from_result (cs_provider_domain row)) b else None
                  | Send_Failed \<Rightarrow> None)
             | _ \<Rightarrow> None)
      else None)"

text \<open>The data of a row a request is served from, read as a post.\<close>

definition current_post :: "status_env \<Rightarrow> cached_status \<Rightarrow> post option" where
  "current_post env row =
     se_from_value env (case provider_sends env row of Some p \<Rightarrow> se_to_value env p | None \<Rightarrow> cs_post_data row)"

lemma first_view_known_as: "fst (first_view env acc s row tab) = known_as env acc s row tab"
  by (auto simp: first_view_def known_as_def split: option.splits prod.splits sum.splits)

lemma ask_mastodon_serves:
  "fst (ask_mastodon env mid [] hs row (accept_detail env s tab) tab) = Some resp
     \<longleftrightarrow> (\<exists>m. mid = Some m \<and> mastodon_serves env m s hs tab resp)"
  by (auto simp: ask_mastodon_def mastodon_serves_def accept_detail_def bind_eq_Some_conv
      split: option.splits prod.splits if_splits)

lemma status_from_post_id [simp]: "st_id (status_of (status_from_post env p i)) = i"
  by (simp add: status_from_post_def Let_def)

lemma refresh_provider_sends:
  assumes "is_stale (se_now env) cache_ttl row"
  shows "fst (refresh_from_provider env row tab) = Inr data \<longleftrightarrow> map_option (se_to_value env) (provider_sends env row) = Some data"
proof -
  have "cs_cached_at row + cache_ttl < se_now env" using assms by (simp add: is_stale_def)
  then show ?thesis
    by (auto simp: refresh_from_provider_def provider_sends_def lookup_provider_def Let_def
        split: option.splits http_response.splits sum.splits if_splits)
qed

lemma cached_detail_current:
  "fst (cached_detail env s row tab) =
     (case current_post env row of None \<Rightarrow> Inl 500
      | Some p \<Rightarrow> Inr (json_response (Status_Body (status_from_post (se_html env) p (show_int s)))))"
proof (cases "is_stale (se_now env) cache_ttl row")
  case True
  obtain r tab' where r: "refresh_from_provider env row tab = (r, tab')" by (cases "refresh_from_provider env row tab")
  have sends: "r = Inr data \<longleftrightarrow> map_option (se_to_value env) (provider_sends env row) = Some data" for data
    using refresh_provider_sends [OF True, of tab data] r by simp
  show ?thesis
  proof (cases "provider_sends env row")
    case None
    then obtain e where "r = Inl e" using sends by (cases r) auto
    then show ?thesis using True r None by (simp add: cached_detail_def current_post_def split: option.splits)
  next
    case (Some q)
    then have "r = Inr (se_to_value env q)" using sends by simp
    then show ?thesis using True r Some by (simp add: cached_detail_def current_post_def split: option.splits)
  qed
next
  case False
  then have "provider_sends env row = None" by (simp add: provider_sends_def is_stale_def)
  then show ?thesis using False by (simp add: cached_detail_def current_post_def split: option.splits)
qed

text \<open>
  C11: A request for a status of the mapping table is always answered, whatever Mastodon, the
  resolver, the provider and the statements after the first lookup do. Where Mastodon knows the
  status and answers with it, or with an error other than 404 and 410, the answer is Mastodon's:
  its status with the ids translated and the own id replaced by the one asked for, or its error as
  it is. In every other case the answer is the post of the row under the id asked for, as its
  provider sends it now when the row is an hour old and the provider does, and as it is stored
  otherwise, also when the provider says it is gone.
\<close>

theorem detail_serves_requested:
  assumes "find_row env i tab = Inr (s, row)"
    and "se_from_value env (cs_post_data row) \<noteq> None" "\<forall>p. se_from_value env (se_to_value env p) \<noteq> None"
    and "first_view env acc s row tab = (mid, tab1)"
  shows "mid = known_as env acc s row tab
    \<and> (\<exists>resp. fst (detail env acc i hs tab) = Inr resp
       \<and> (if \<exists>m r. mid = Some m \<and> mastodon_serves env m s hs tab1 r
          then mastodon_serves env (the mid) s hs tab1 resp
          else \<exists>p. current_post env row = Some p
                 \<and> resp = json_response (Status_Body (status_from_post (se_html env) p (show_int s)))))"
proof -
  obtain a tab2 sent where a: "ask_mastodon env mid [] hs row (accept_detail env s tab1) tab1 = (a, tab2, sent)"
    by (cases "ask_mastodon env mid [] hs row (accept_detail env s tab1) tab1")
  note serves = ask_mastodon_serves [of env mid hs row s tab1, unfolded a fst_conv]
  have mid: "mid = known_as env acc s row tab" using first_view_known_as [of env acc s row tab] assms(4) by simp
  show ?thesis
  proof (cases a)
    case None
    obtain p where p: "current_post env row = Some p"
      using assms(2,3) by (cases "provider_sends env row") (auto simp: current_post_def)
    have "fst (detail env acc i hs tab) = fst (cached_detail env s row tab2)"
      using assms(1,4) a None by (simp add: detail_def split: prod.split)
    then show ?thesis using p serves None mid by (auto simp: cached_detail_current)
  next
    case (Some resp)
    have "fst (detail env acc i hs tab) = Inr resp" using assms(1,4) a Some by (simp add: detail_def)
    moreover obtain m where "mid = Some m" "mastodon_serves env m s hs tab1 resp" using serves [of resp] Some by auto
    ultimately show ?thesis using mid by (intro conjI exI [of _ resp]) auto
  qed
qed

section \<open>The thread\<close>

text \<open>What a post replies to, what that replies to, and so on.\<close>

fun reply_chain :: "post \<Rightarrow> post list" where
  "reply_chain (Post d r q) = (case r of None \<Rightarrow> [] | Some p \<Rightarrow> p # reply_chain p)"

text \<open>The encoding of a post: the reply is a member, null when there is none, and reading it gives the post back.\<close>

definition encodes :: "(post \<Rightarrow> json) \<Rightarrow> (json \<Rightarrow> post option) \<Rightarrow> post \<Rightarrow> bool" where
  "encodes ser de p \<longleftrightarrow> de (ser p) = Some p \<and> ser p \<noteq> JNull
     \<and> json_get (ser p) ''reply_to'' = Some (case reply_to p of None \<Rightarrow> JNull | Some q \<Rightarrow> ser q)"

lemma ancestor_posts_chain:
  "\<forall>q \<in> set (p # reply_chain p). encodes ser de q \<Longrightarrow> ancestor_posts de n (ser p) = take n (reply_chain p)"
proof (induction n arbitrary: p)
  case (Suc n)
  show ?case
  proof (cases "reply_to p")
    case None
    with Suc.prems show ?thesis by (cases p) (auto simp: encodes_def)
  next
    case (Some q)
    have "\<forall>x \<in> set (q # reply_chain q). encodes ser de x" using Suc.prems Some by (cases p) auto
    then have "ancestor_posts de n (ser q) = take n (reply_chain q)" by (rule Suc.IH)
    moreover have "json_get (ser p) ''reply_to'' = Some (ser q)" "de (ser q) = Some q" "ser q \<noteq> JNull"
      using Suc.prems Some by (cases p, auto simp: encodes_def)+
    ultimately show ?thesis using Some by (cases p) simp
  qed
qed simp

text \<open>
  C28: The ancestors of a status are the posts it replies to, the start of the thread first, at most
  the twenty nearest of them, each with the id the mapping table has for it after all of them were
  stored.
\<close>

theorem context_ancestors_root_first:
  assumes "\<forall>q \<in> set (p # reply_chain p). encodes ser (se_from_value env) q"
    and "batch_ids (se_table env) (se_instance_domain env) (take 20 (reply_chain p)) tab = (ids, tab')"
  shows "build_ancestors env (ser p) tab
    = (map (\<lambda>q. status_from_post (se_html env) q (post_status_id (se_instance_domain env) ids q)) (rev (take 20 (reply_chain p))), tab')"
  using ancestor_posts_chain [OF assms(1), of 20] assms(2)
  by (simp add: build_ancestors_def max_depth_def from_posts_eq rev_map)

text \<open>An outside in which everything fails but the first lookup, and a thread of three posts.\<close>

fun thread_json :: "post \<Rightarrow> json" where
  "thread_json (Post d r q) = JObj [(''reply_to'', case r of None \<Rightarrow> JNull | Some p \<Rightarrow> thread_json p)]"

definition second_post :: post where "second_post = Post remote_post_data (Some a_remote_post) None"
definition third_post :: post where "third_post = Post remote_post_data (Some second_post) None"

definition failing_env :: status_env where
  "failing_env =
     \<lparr>se_mastodon = (example_env No_Answer JNull)\<lparr>me_send := (\<lambda>rq. None)\<rparr>, se_instance_domain = ''i.test'', se_now = 4000000000,
      se_lookup_fails = False, se_clear_fails = True, se_delete_fails = True, se_update_fails = True, se_registry = None,
      se_fetch_post = (\<lambda>rq. Send_Failed), se_fetch_replies = (\<lambda>rq. Send_Failed), se_to_value = thread_json,
      se_from_value = (\<lambda>v. Some (if v = thread_json third_post then third_post
        else if v = thread_json second_post then second_post else a_remote_post)),
      se_html = de_html plain_env, se_table = plain_table\<rparr>"

theorem detail_serves_requested_witness:
  "\<exists>p. current_post failing_env (a_row 7) = Some p
    \<and> fst (detail failing_env None ''7'' [] [a_row 7])
      = Inr (json_response (Status_Body (status_from_post (de_html plain_env) p (show_int 7))))"
proof -
  have f: "find_row failing_env ''7'' [a_row 7] = Inr (7, a_row 7)" by code_simp
  have v: "first_view failing_env None 7 (a_row 7) [a_row 7] = (None, [a_row 7])" by (simp add: first_view_def a_row_def)
  have e: "se_html failing_env = de_html plain_env" "se_from_value failing_env v \<noteq> None" for v
    by (simp_all add: failing_env_def)
  from detail_serves_requested [OF f e(2) _ v, of "[]"] e(2)
  show ?thesis unfolding e(1) by (auto split: if_splits)
qed

theorem context_ancestors_root_first_witness:
  "case batch_ids plain_table ''i.test'' [second_post, a_remote_post] [] of (ids, tab') \<Rightarrow>
     build_ancestors failing_env (thread_json third_post) []
       = (map (\<lambda>q. status_from_post (de_html plain_env) q (post_status_id ''i.test'' ids q)) [a_remote_post, second_post], tab')"
proof -
  have c: "reply_chain third_post = [second_post, a_remote_post]"
    by (simp add: third_post_def second_post_def a_remote_post_def)
  have e: "\<forall>q \<in> set (third_post # reply_chain third_post). encodes thread_json (se_from_value failing_env) q"
    by (simp add: c encodes_def failing_env_def) (simp add: third_post_def second_post_def a_remote_post_def)
  obtain ids tab' where b: "batch_ids plain_table ''i.test'' [second_post, a_remote_post] [] = (ids, tab')"
    by (cases "batch_ids plain_table ''i.test'' [second_post, a_remote_post] []")
  have f: "se_table failing_env = plain_table" "se_instance_domain failing_env = ''i.test''"
    "se_html failing_env = de_html plain_env" by (simp_all add: failing_env_def)
  have "batch_ids (se_table failing_env) (se_instance_domain failing_env) (take 20 (reply_chain third_post)) [] = (ids, tab')"
    using b by (simp add: c f)
  from context_ancestors_root_first [OF e this] show ?thesis by (simp add: b c f)
qed

end
