(* ===== verification/Server.thy ===== *)
theory Server
  imports Status_Routes Timelines
begin

text \<open>
  The HTTP surface: the routes of \<open>routes/mod.rs\<close>, \<open>routes/mastodon/mod.rs\<close>, \<open>routes/fediway\<close> and
  \<open>routes/commonfeed/mod.rs\<close> as one table from method and path to handler, the small handlers of
  \<open>health.rs\<close> and \<open>suggestions.rs\<close>, and the group of routes that runs under the fallback.
  A path is split at slashes; a parameter takes one segment that is not empty, and a static segment
  wins over a parameter. A route asked with a method it does not have answers 405, and the fallback
  runs around that answer too.
\<close>

section \<open>Routes\<close>

datatype route =
    R_Verify string
  | R_Callback
  | R_Health
  | R_Health_Mastodon
  | R_Home
  | R_Tag string
  | R_Link
  | R_Trend_Statuses
  | R_Trend_Tags
  | R_Trend_Links
  | R_Suggestions
  | R_Create_Status
  | R_Create_Report
  | R_Detail string
  | R_Context string
  | R_Engagement status_action string
  | R_Proxied
  | R_Status_Method     \<comment> \<open>405 under the fallback\<close>
  | R_Method            \<comment> \<open>405\<close>
  | R_None

text \<open>\<open>get\<close> also takes HEAD.\<close>

definition gets :: "string \<Rightarrow> bool" where
  "gets m \<longleftrightarrow> m = ''GET'' \<or> m = ''HEAD''"

definition action_of :: "string \<Rightarrow> status_action option" where
  "action_of a = find (\<lambda>x. segment x = a) [Favourite, Unfavourite, Reblog, Unreblog, Bookmark, Unbookmark]"

text \<open>What follows \<open>/api/v1/statuses\<close>.\<close>

definition status_route :: "string \<Rightarrow> string list \<Rightarrow> route" where
  "status_route m segs =
     (case segs of
        [] \<Rightarrow> if m = ''POST'' then R_Create_Status else R_Status_Method
      | [i] \<Rightarrow>
          if i = [] then R_None
          else if gets m then R_Detail i
          else if m = ''DELETE'' \<or> m = ''PUT'' then R_Proxied
          else R_Status_Method
      | [i, a] \<Rightarrow>
          if i = [] \<or> a = [] then R_None
          else if a = ''context'' then (if gets m then R_Context i else R_Status_Method)
          else (case action_of a of
                  Some x \<Rightarrow> if m = ''POST'' then R_Engagement x i else R_Status_Method
                | None \<Rightarrow> if m = ''POST'' \<or> gets m then R_Proxied else R_Status_Method)
      | _ \<Rightarrow> R_None)"

definition get_route :: "string \<Rightarrow> route \<Rightarrow> route" where
  "get_route m r = (if gets m then r else R_Method)"

definition router :: "string \<Rightarrow> string list \<Rightarrow> route" where
  "router m segs =
     (if segs = [''commonfeed'', ''callback''] then (if m = ''POST'' then R_Callback else R_Method)
      else if segs = [''fediway'', ''health''] then get_route m R_Health
      else if segs = [''fediway'', ''health'', ''mastodon''] then get_route m R_Health_Mastodon
      else if segs = [''api'', ''v1'', ''timelines'', ''home''] then get_route m R_Home
      else if segs = [''api'', ''v1'', ''timelines'', ''link''] then get_route m R_Link
      else if segs = [''api'', ''v1'', ''trends'', ''statuses''] then get_route m R_Trend_Statuses
      else if segs = [''api'', ''v1'', ''trends'', ''tags''] then get_route m R_Trend_Tags
      else if segs = [''api'', ''v1'', ''trends'', ''links''] then get_route m R_Trend_Links
      else if segs = [''api'', ''v2'', ''suggestions''] then get_route m R_Suggestions
      else if segs = [''api'', ''v1'', ''reports''] then (if m = ''POST'' then R_Create_Report else R_Status_Method)
      else if take 3 segs = [''api'', ''v1'', ''statuses''] then status_route m (drop 3 segs)
      else (case segs of
              [a, b, t] \<Rightarrow> if a = ''.well-known'' \<and> b = ''commonfeed'' \<and> t \<noteq> [] then get_route m (R_Verify t) else R_None
            | [a, b, c, d, t] \<Rightarrow>
                if a = ''api'' \<and> b = ''v1'' \<and> c = ''timelines'' \<and> d = ''tag'' \<and> t \<noteq> [] then get_route m (R_Tag t) else R_None
            | _ \<Rightarrow> R_None))"

text \<open>What the CORS layer around all routes is told; answering preflight requests is the library's work.\<close>

record cors =
  co_any_origin :: bool
  co_methods :: "string list"
  co_headers :: "string list"
  co_expose :: "string list"

definition cors_policy :: cors where
  "cors_policy = \<lparr>co_any_origin = True, co_methods = [''GET'', ''POST'', ''PUT'', ''DELETE'', ''PATCH'', ''OPTIONS''],
     co_headers = [''authorization'', ''accept'', ''accept-language'', ''content-type''],
     co_expose = [''Link'', ''X-RateLimit-Limit'', ''X-RateLimit-Remaining'', ''X-RateLimit-Reset'', ''X-Request-Id'']\<rparr>"

section \<open>Small handlers\<close>

definition health :: "bool \<Rightarrow> nat" where
  "health query_ok = (if query_ok then 200 else 503)"

text \<open>\<open>GET /fediway/health/mastodon\<close>: the answer's status, or the error's text, kind and source.\<close>

datatype probe = Probe_Answer nat | Probe_Error string bool bool "string option"

definition health_mastodon :: "string option \<Rightarrow> (string \<Rightarrow> probe) \<Rightarrow> nat \<times> json" where
  "health_mastodon base ask =
     (case base of
        None \<Rightarrow> (200, JObj [(''status'', JStr ''not_configured'')])
      | Some b \<Rightarrow>
          (case ask (b @ ''/api/v1/instance'') of
             Probe_Answer st \<Rightarrow>
               (200, JObj [(''status'', JStr ''ok''), (''mastodon_url'', JStr b), (''mastodon_status'', JInt (int st))])
           | Probe_Error e is_connect is_timeout src \<Rightarrow>
               (502, JObj [(''status'', JStr ''error''), (''mastodon_url'', JStr b), (''error'', JStr e),
                  (''is_connect'', JBool is_connect), (''is_timeout'', JBool is_timeout), (''source'', opt_json JStr src)])))"

definition suggestions :: "auth_db option \<Rightarrow> instant \<Rightarrow> request_headers \<Rightarrow> nat" where
  "suggestions db now hs = (case account_required db now hs of Inl st \<Rightarrow> st | Inr acc \<Rightarrow> 200)"

section \<open>The routes under the fallback\<close>

text \<open>
  Path and query of a request, split; a parameter is percent-decoded, which fails on bytes that are
  not UTF-8.
\<close>

definition path_segments :: "string \<Rightarrow> string list" where
  "path_segments p = tl (split_char CHR ''/'' (takeWhile (\<lambda>c. c \<noteq> CHR ''?'') p))"

definition with_param :: "mastodon_env \<Rightarrow> (string \<Rightarrow> string option) \<Rightarrow> string \<Rightarrow> client_request
    \<Rightarrow> (string \<Rightarrow> client_request \<Rightarrow> status_table \<Rightarrow> client_response handled) \<Rightarrow> status_table \<Rightarrow> client_response handled" where
  "with_param env decode i req k tab =
     (case decode i of
        None \<Rightarrow> fallback env req (\<lambda>rq t. (status_response 400, t, [])) tab
      | Some x \<Rightarrow> k x req tab)"

definition serve_status_route :: "status_env \<Rightarrow> auth_db option \<Rightarrow> instant \<Rightarrow> (string \<Rightarrow> string option) \<Rightarrow> route \<Rightarrow> client_request
    \<Rightarrow> status_table \<Rightarrow> client_response handled option" where
  "serve_status_route env db now decode r req tab =
     (let m = se_mastodon env in
      case r of
        R_Create_Status \<Rightarrow> Some (create_status_route m db now req tab)
      | R_Create_Report \<Rightarrow> Some (create_report_route m db now req tab)
      | R_Detail i \<Rightarrow> Some (with_param m decode i req (\<lambda>x. detail_route env db now x) tab)
      | R_Context i \<Rightarrow> Some (with_param m decode i req (\<lambda>x. context_route env x) tab)
      | R_Engagement a i \<Rightarrow> Some (with_param m decode i req (\<lambda>x. engagement_route m db now x a) tab)
      | R_Proxied \<Rightarrow> Some (proxied_route m req tab)
      | R_Status_Method \<Rightarrow> Some (fallback m req (\<lambda>rq t. (status_response 405, t, [])) tab)
      | _ \<Rightarrow> None)"

text \<open>A request of the client as it goes to Mastodon.\<close>

definition passed_on :: "string \<Rightarrow> string \<Rightarrow> client_request \<Rightarrow> upstream_request" where
  "passed_on base path req =
     \<lparr>uq_method = cq_method req, uq_url = base @ path, uq_headers = cq_headers req,
      uq_body = (if cq_method req = ''GET'' then None else cq_body req)\<rparr>"

lemma fallback_sends:
  assumes "me_base env = Some base" "cq_path_and_query req = Some path"
    and "cq_method req = ''GET'' \<or> (\<exists>b. cq_body req = Some b \<and> length b \<le> max_proxy_body_bytes)"
    and "inner req tab = (status_response st, tab, [])" "st = 404 \<or> st = 405"
  shows "snd (fallback env req inner tab) = (tab, [passed_on base path req])"
  using assms
  by (auto simp: fallback_def proxy_def forward_def passed_on_def status_response_def Let_def split: option.splits)

text \<open>
  A request under \<open>/api/v1/statuses\<close> that no handler owns reaches Mastodon once, as the client sent
  it, and the mapping table stays.
\<close>

lemma unowned_passed_on:
  assumes "r = R_Proxied \<or> r = R_Status_Method" "me_base (se_mastodon env) = Some base" "cq_path_and_query req = Some path"
    and "cq_method req = ''GET'' \<or> (\<exists>b. cq_body req = Some b \<and> length b \<le> max_proxy_body_bytes)"
  shows "map_option snd (serve_status_route env db now decode r req tab) = Some (tab, [passed_on base path req])"
proof -
  have a: "snd (proxied_route (se_mastodon env) req tab) = (tab, [passed_on base path req])"
    unfolding proxied_route_def proxy_fallback_def by (rule fallback_sends [OF assms(2-4), where st = 404]) simp_all
  have b: "snd (fallback (se_mastodon env) req (\<lambda>rq t. (status_response 405, t, [])) tab) = (tab, [passed_on base path req])"
    by (rule fallback_sends [OF assms(2-4), where st = 405]) simp_all
  from assms(1) show ?thesis
  proof
    assume "r = R_Proxied"
    with a show ?thesis by (simp only: serve_status_route_def Let_def route.case option.map)
  next
    assume "r = R_Status_Method"
    with b show ?thesis by (simp only: serve_status_route_def Let_def route.case option.map)
  qed
qed

text \<open>Every method that reaches a handler is one the CORS layer allows (HEAD always is).\<close>

lemma routed_method_allowed:
  assumes "router m segs = r" "r \<noteq> R_None" "r \<noteq> R_Method" "r \<noteq> R_Status_Method" "m \<noteq> ''HEAD''"
  shows "m \<in> set (co_methods cors_policy)"
proof -
  have g: "m = ''GET''" if "get_route m x \<noteq> R_Method" for x
    using that assms(5) by (auto simp: get_route_def gets_def split: if_splits)
  have s: "m = ''GET'' \<or> m = ''POST'' \<or> m = ''DELETE'' \<or> m = ''PUT''" if "status_route m rest \<noteq> R_None" "status_route m rest \<noteq> R_Status_Method" for rest
    using that assms(5) by (auto simp: status_route_def gets_def split: if_splits list.splits option.splits)
  have "m = ''GET'' \<or> m = ''POST'' \<or> m = ''DELETE'' \<or> m = ''PUT''"
    using assms(1-4) unfolding router_def
    by (auto dest: g s split: if_splits list.splits)
  then show ?thesis by (auto simp: cors_policy_def)
qed

lemma statuses_never_lost:
  assumes "take 3 segs = [''api'', ''v1'', ''statuses'']" "length segs \<le> 5" "\<forall>s \<in> set segs. s \<noteq> []"
  shows "router m segs \<noteq> R_None"
proof -
  obtain rest where segs: "segs = [''api'', ''v1'', ''statuses''] @ rest"
    using assms(1) by (metis append_take_drop_id)
  then have r: "router m segs = status_route m (drop 3 segs)" by (simp add: router_def)
  have d: "drop 3 segs = rest" "length rest \<le> 2" "\<forall>s \<in> set rest. s \<noteq> []" using assms(2,3) segs by simp_all
  consider "rest = []" | i where "rest = [i]" | i a where "rest = [i, a]"
    using d(2) by (cases rest rule: remdups_adj.cases) auto
  then show ?thesis
  proof cases
    case 1
    then show ?thesis unfolding r d(1) by (simp add: status_route_def)
  next
    case 2
    then show ?thesis using d(3) unfolding r d(1) by (simp add: status_route_def)
  next
    case 3
    then show ?thesis using d(3) unfolding r d(1) by (simp add: status_route_def split: option.split)
  qed
qed

end
