(* ===== verification/Setup.thy ===== *)
theory Setup
  imports Rust_Float Rust_Str Prelude
begin

text \<open>
  The options of the programs (\<open>crates/config\<close>) and the connections opened from them
  (\<open>crates/state/src/db.rs\<close>, \<open>redis.rs\<close>, \<open>lib.rs\<close>). An option is taken from the command line, else from
  the environment, else from its default; a value that does not parse ends the program before it
  does anything. Opening a connection is the libraries' work: whether an address parses and whether a
  server answers are arguments.
\<close>

section \<open>Options\<close>

text \<open>The long options given with their values, and the environment.\<close>

record settings =
  st_args :: "string \<rightharpoonup> string"
  st_env :: "string \<rightharpoonup> string"

datatype usage_error = Missing_Option string | Bad_Value string string

definition setting :: "settings \<Rightarrow> string \<Rightarrow> string \<Rightarrow> string option" where
  "setting st name var = (case st_args st name of Some v \<Rightarrow> Some v | None \<Rightarrow> st_env st var)"

definition required :: "settings \<Rightarrow> string \<Rightarrow> string \<Rightarrow> usage_error + string" where
  "required st name var = (case setting st name var of None \<Rightarrow> Inl (Missing_Option name) | Some v \<Rightarrow> Inr v)"

definition optional :: "(string \<Rightarrow> 'a option) \<Rightarrow> settings \<Rightarrow> string \<Rightarrow> string \<Rightarrow> usage_error + 'a option" where
  "optional parse st name var =
     (case setting st name var of
        None \<Rightarrow> Inr None
      | Some v \<Rightarrow> (case parse v of None \<Rightarrow> Inl (Bad_Value name v) | Some x \<Rightarrow> Inr (Some x)))"

definition default_to :: "'a \<Rightarrow> (string \<Rightarrow> 'a option) \<Rightarrow> settings \<Rightarrow> string \<Rightarrow> string \<Rightarrow> usage_error + 'a" where
  "default_to d parse st name var = map_sum id (\<lambda>x. unwrap_or x d) (optional parse st name var)"

definition and_opt :: "'e + 'a \<Rightarrow> ('a \<Rightarrow> 'e + 'b) \<Rightarrow> 'e + 'b" where
  "and_opt r f = (case r of Inl e \<Rightarrow> Inl e | Inr x \<Rightarrow> f x)"

lemma and_opt_Inr: "and_opt r f = Inr y \<longleftrightarrow> (\<exists>x. r = Inr x \<and> f x = Inr y)"
  by (auto simp: and_opt_def split: sum.splits)

text \<open>Numbers: \<open>u16\<close>, \<open>u32\<close>, \<open>u64\<close> and \<open>usize\<close>, \<open>i64\<close>.\<close>

definition parse_below :: "nat \<Rightarrow> string \<Rightarrow> nat option" where
  "parse_below bound v = Option.bind (parse_i64 v) (\<lambda>i. if 0 \<le> i \<and> nat i < bound then Some (nat i) else None)"

definition u16_value :: "string \<Rightarrow> nat option" where "u16_value = parse_below 65536"
definition u32_value :: "string \<Rightarrow> nat option" where "u32_value = parse_below 4294967296"

text \<open>
  \<open>parse::<f64>()\<close>: an infinity or NaN in any case, or a decimal number with digits before or after
  the point and an optional exponent, rounded once.
\<close>

definition lower :: "string \<Rightarrow> string" where
  "lower = map (\<lambda>c. let n = of_char c in if 65 \<le> n \<and> n \<le> (90 :: nat) then char_of (n + 32) else c)"

definition signed :: "string \<Rightarrow> bool \<times> string" where
  "signed s = (case s of c # cs \<Rightarrow> if c = CHR ''-'' then (True, cs) else if c = CHR ''+'' then (False, cs) else (False, s)
     | [] \<Rightarrow> (False, s))"

definition decimal_value :: "string \<Rightarrow> rat option" where
  "decimal_value s =
     (let (mant, ex) = (case split_once ''e'' s of None \<Rightarrow> (s, Some 0) | Some (m, x) \<Rightarrow>
            (m, case signed x of (neg, ds) \<Rightarrow> map_option (\<lambda>n. if neg then - int n else int n) (parse_digits ds)));
          (whole, frac) = unwrap_or (split_once ''.'' mant) (mant, [])
      in if whole @ frac = [] then None
         else Option.bind ex (\<lambda>x. map_option (\<lambda>n. of_nat n * 10 powi (x - int (length frac))) (parse_digits (whole @ frac))))"

definition parse_f64 :: "string \<Rightarrow> fl option" where
  "parse_f64 s =
     (case signed (lower s) of (neg, t) \<Rightarrow>
        if t = ''inf'' \<or> t = ''infinity'' then Some (Infty neg)
        else if t = ''nan'' then Some NaN
        else map_option (\<lambda>r. rnd binary64 (if neg then - r else r)) (decimal_value t))"

section \<open>The options of each part\<close>

record database_config =
  db_host :: string
  db_port :: nat
  db_name :: string
  db_user :: string
  db_pass :: "string option"
  db_pool_size :: nat
  db_pool_min :: nat
  db_acquire_timeout_secs :: nat
  db_idle_timeout_secs :: nat
  db_max_lifetime_secs :: nat
  db_statement_timeout_secs :: nat
  db_ssl_mode :: string

definition database_options :: "settings \<Rightarrow> usage_error + database_config" where
  "database_options st =
     and_opt (default_to ''localhost'' Some st ''db-host'' ''DB_HOST'') (\<lambda>host.
     and_opt (default_to 5432 u16_value st ''db-port'' ''DB_PORT'') (\<lambda>port.
     and_opt (default_to ''mastodon_development'' Some st ''db-name'' ''DB_NAME'') (\<lambda>name.
     and_opt (default_to ''mastodon'' Some st ''db-user'' ''DB_USER'') (\<lambda>user.
     and_opt (optional Some st ''db-pass'' ''DB_PASS'') (\<lambda>pass.
     and_opt (default_to 10 u32_value st ''db-pool-size'' ''DB_POOL_SIZE'') (\<lambda>size.
     and_opt (default_to 2 u32_value st ''db-pool-min'' ''DB_POOL_MIN'') (\<lambda>least.
     and_opt (default_to 3 parse_usize st ''db-acquire-timeout-secs'' ''DB_ACQUIRE_TIMEOUT'') (\<lambda>acquire.
     and_opt (default_to 600 parse_usize st ''db-idle-timeout-secs'' ''DB_IDLE_TIMEOUT'') (\<lambda>idle.
     and_opt (default_to 1800 parse_usize st ''db-max-lifetime-secs'' ''DB_MAX_LIFETIME'') (\<lambda>life.
     and_opt (default_to 30 parse_usize st ''db-statement-timeout-secs'' ''DB_STATEMENT_TIMEOUT'') (\<lambda>statement.
     and_opt (default_to ''prefer'' Some st ''db-ssl-mode'' ''DB_SSL_MODE'') (\<lambda>ssl.
       Inr \<lparr>db_host = host, db_port = port, db_name = name, db_user = user, db_pass = pass, db_pool_size = size,
         db_pool_min = least, db_acquire_timeout_secs = acquire, db_idle_timeout_secs = idle,
         db_max_lifetime_secs = life, db_statement_timeout_secs = statement, db_ssl_mode = ssl\<rparr>))))))))))))"

record redis_config =
  redis_host :: string
  redis_port :: nat
  redis_pass :: string

definition redis_options :: "settings \<Rightarrow> usage_error + redis_config" where
  "redis_options st =
     and_opt (default_to ''localhost'' Some st ''redis-host'' ''REDIS_HOST'') (\<lambda>host.
     and_opt (default_to 6379 u16_value st ''redis-port'' ''REDIS_PORT'') (\<lambda>port.
     and_opt (default_to [] Some st ''redis-pass'' ''REDIS_PASS'') (\<lambda>pass.
       Inr \<lparr>redis_host = host, redis_port = port, redis_pass = pass\<rparr>)))"

text \<open>A flag without a value on the command line counts as given; what the environment says is parsed by \<open>flag\<close>.\<close>

definition flag_option :: "(string \<Rightarrow> bool option) \<Rightarrow> settings \<Rightarrow> string \<Rightarrow> string \<Rightarrow> usage_error + bool" where
  "flag_option flag st name var =
     (if st_args st name \<noteq> None then Inr True
      else (case st_env st var of None \<Rightarrow> Inr False
            | Some v \<Rightarrow> (case flag v of None \<Rightarrow> Inl (Bad_Value name v) | Some b \<Rightarrow> Inr b)))"

record instance_config =
  in_domain :: string
  in_name :: string
  in_host :: string
  in_port :: nat
  in_metrics_port :: "nat option"
  in_mastodon_api_url :: "string option"
  in_media_host :: "string option"
  in_s3_enabled :: bool

definition instance_options :: "(string \<Rightarrow> bool option) \<Rightarrow> settings \<Rightarrow> usage_error + instance_config" where
  "instance_options flag st =
     and_opt (required st ''instance-domain'' ''INSTANCE_DOMAIN'') (\<lambda>domain_name.
     and_opt (required st ''instance-name'' ''INSTANCE_NAME'') (\<lambda>name.
     and_opt (default_to ''0.0.0.0'' Some st ''server-host'' ''SERVER_HOST'') (\<lambda>host.
     and_opt (default_to 3000 u16_value st ''server-port'' ''SERVER_PORT'') (\<lambda>port.
     and_opt (optional u16_value st ''metrics-port'' ''METRICS_PORT'') (\<lambda>mport.
     and_opt (optional Some st ''mastodon-api-url'' ''MASTODON_API_URL'') (\<lambda>api.
     and_opt (optional Some st ''media-host'' ''MEDIA_HOST'') (\<lambda>media.
     and_opt (flag_option flag st ''s3-enabled'' ''S3_ENABLED'') (\<lambda>s3.
       Inr \<lparr>in_domain = domain_name, in_name = name, in_host = host, in_port = port, in_metrics_port = mport,
         in_mastodon_api_url = api, in_media_host = media, in_s3_enabled = s3\<rparr>))))))))"

record tei_config =
  tei_url :: string
  tei_timeout_secs :: nat
  tei_batch_size :: nat

definition tei_options :: "settings \<Rightarrow> usage_error + tei_config" where
  "tei_options st =
     and_opt (default_to ''http://localhost:8080'' Some st ''tei-url'' ''TEI_URL'') (\<lambda>url.
     and_opt (default_to 30 parse_usize st ''tei-timeout-secs'' ''TEI_TIMEOUT_SECS'') (\<lambda>timeout.
     and_opt (default_to 64 parse_usize st ''tei-batch-size'' ''TEI_BATCH_SIZE'') (\<lambda>size.
       Inr \<lparr>tei_url = url, tei_timeout_secs = timeout, tei_batch_size = size\<rparr>)))"

record orbit_options =
  orbit_alpha :: fl
  orbit_dims :: nat
  orbit_poll_interval_secs :: nat
  orbit_batch_size :: int
  orbit_model_name :: string
  orbit_replay_hours :: nat

definition read_orbit_options :: "settings \<Rightarrow> usage_error + orbit_options" where
  "read_orbit_options st =
     and_opt (default_to (rnd binary64 (5/100)) parse_f64 st ''orbit-alpha'' ''ORBIT_ALPHA'') (\<lambda>alpha.
     and_opt (default_to 64 parse_usize st ''orbit-dims'' ''ORBIT_DIMS'') (\<lambda>dims.
     and_opt (default_to 10 parse_usize st ''orbit-poll-interval-secs'' ''ORBIT_POLL_INTERVAL_SECS'') (\<lambda>interval.
     and_opt (default_to 500 parse_i64 st ''orbit-batch-size'' ''ORBIT_BATCH_SIZE'') (\<lambda>batch.
     and_opt (default_to ''bge_small_64d'' Some st ''orbit-model-name'' ''ORBIT_MODEL_NAME'') (\<lambda>model.
     and_opt (default_to 168 parse_usize st ''orbit-replay-hours'' ''ORBIT_REPLAY_HOURS'') (\<lambda>hours.
       Inr \<lparr>orbit_alpha = alpha, orbit_dims = dims, orbit_poll_interval_secs = interval, orbit_batch_size = batch,
         orbit_model_name = model, orbit_replay_hours = hours\<rparr>))))))"

section \<open>Connections\<close>

definition redis_url :: "redis_config \<Rightarrow> string" where
  "redis_url c =
     (if redis_pass c = [] then ''redis://'' @ redis_host c @ '':'' @ show_nat (redis_port c)
      else ''redis://:'' @ redis_pass c @ ''@'' @ redis_host c @ '':'' @ show_nat (redis_port c))"

definition pg_url :: "database_config \<Rightarrow> string" where
  "pg_url c = ''postgres://'' @ db_user c @ (case db_pass c of None \<Rightarrow> [] | Some p \<Rightarrow> CHR '':'' # p) @ ''@''
     @ db_host c @ '':'' @ show_nat (db_port c) @ ''/'' @ db_name c"

text \<open>A pool: its limits and what every new connection runs first. The product is an \<open>u64\<close>, which wraps.\<close>

record pool =
  pl_url :: string
  pl_ssl_mode :: string
  pl_max :: nat
  pl_min :: nat
  pl_acquire_secs :: nat
  pl_idle_secs :: nat
  pl_lifetime_secs :: nat
  pl_session :: "string list"

definition session_statements :: "nat \<Rightarrow> string list" where
  "session_statements timeout_secs =
     [''SET statement_timeout = '' @ show_nat (timeout_secs * 1000 mod 2 ^ 64),
      ''SET lock_timeout = '' @ CHR 0x27 # ''1s'' @ [CHR 0x27],
      ''SET idle_in_transaction_session_timeout = '' @ CHR 0x27 # ''10s'' @ [CHR 0x27]]"

text \<open>The libraries: which modes and addresses parse, which pools and servers answer.\<close>

record net =
  nt_ssl_mode :: "string \<Rightarrow> bool"
  nt_pg_url :: "string \<Rightarrow> bool"
  nt_pg_open :: "pool \<Rightarrow> bool"
  nt_pg_check :: "pool \<Rightarrow> bool"
  nt_redis_open :: "string \<Rightarrow> bool"
  nt_redis_ping :: "string \<Rightarrow> bool"

datatype connect_error = Invalid_Ssl_Mode string | Invalid_Url | Not_Connected

definition db_connect :: "net \<Rightarrow> database_config \<Rightarrow> connect_error + pool" where
  "db_connect net c =
     (if \<not> nt_ssl_mode net (db_ssl_mode c) then Inl (Invalid_Ssl_Mode (db_ssl_mode c))
      else if \<not> nt_pg_url net (pg_url c) then Inl Invalid_Url
      else let p = \<lparr>pl_url = pg_url c, pl_ssl_mode = db_ssl_mode c, pl_max = db_pool_size c, pl_min = db_pool_min c,
             pl_acquire_secs = db_acquire_timeout_secs c, pl_idle_secs = db_idle_timeout_secs c,
             pl_lifetime_secs = db_max_lifetime_secs c, pl_session = session_statements (db_statement_timeout_secs c)\<rparr>
        in if nt_pg_open net p then Inr p else Inl Not_Connected)"

definition db_check :: "net \<Rightarrow> pool \<Rightarrow> connect_error + unit" where
  "db_check net p = (if nt_pg_check net p then Inr () else Inl Not_Connected)"

definition redis_connect :: "net \<Rightarrow> redis_config \<Rightarrow> connect_error + string" where
  "redis_connect net c = (if nt_redis_open net (redis_url c) then Inr (redis_url c) else Inl Not_Connected)"

definition redis_check :: "net \<Rightarrow> string \<Rightarrow> connect_error + unit" where
  "redis_check net u = (if nt_redis_ping net u then Inr () else Inl Not_Connected)"

datatype app_state_error = Database_Error connect_error | Redis_Error connect_error

definition from_config :: "net \<Rightarrow> database_config \<Rightarrow> redis_config \<Rightarrow> app_state_error + pool \<times> string" where
  "from_config net db rd =
     and_opt (map_sum Database_Error id (db_connect net db)) (\<lambda>p.
     and_opt (map_sum Redis_Error id (redis_connect net rd)) (\<lambda>c. Inr (p, c)))"

section \<open>What holds\<close>

text \<open>The defaults, and that the command line wins over the environment.\<close>

lemma database_defaults:
  "database_options \<lparr>st_args = Map.empty, st_env = Map.empty\<rparr>
    = Inr \<lparr>db_host = ''localhost'', db_port = 5432, db_name = ''mastodon_development'', db_user = ''mastodon'',
        db_pass = None, db_pool_size = 10, db_pool_min = 2, db_acquire_timeout_secs = 3, db_idle_timeout_secs = 600,
        db_max_lifetime_secs = 1800, db_statement_timeout_secs = 30, db_ssl_mode = ''prefer''\<rparr>"
  by (simp add: database_options_def default_to_def optional_def setting_def and_opt_def)

lemma default_to_args:
  "st_args st name = Some v \<Longrightarrow> parse v = Some x \<Longrightarrow> default_to d parse st name var = Inr x"
  by (simp add: default_to_def optional_def setting_def)

lemma default_to_bad:
  "setting st name var = Some v \<Longrightarrow> parse v = None \<Longrightarrow> default_to d parse st name var = Inl (Bad_Value name v)"
  by (simp add: default_to_def optional_def)

text \<open>A connection is opened only with a mode the library knows, and every connection limits its statements.\<close>

lemma db_connect_session:
  assumes "db_connect net c = Inr p" "db_statement_timeout_secs c * 1000 < 2 ^ 64"
  shows "nt_ssl_mode net (pl_ssl_mode p)
    \<and> hd (pl_session p) = ''SET statement_timeout = '' @ show_nat (1000 * db_statement_timeout_secs c)"
  using assms by (auto simp: db_connect_def Let_def session_statements_def mult.commute split: if_splits)

text \<open>
  User name and password are put into the address as they are: a password with an at sign makes
  the address of another host, so different options give the same address.
\<close>

lemma pg_url_ambiguous:
  "pg_url (c\<lparr>db_pass := Some ''p@q'', db_host := ''h''\<rparr>) = pg_url (c\<lparr>db_pass := Some ''p'', db_host := ''q@h''\<rparr>)"
  by (simp add: pg_url_def)

lemma redis_url_ambiguous:
  "redis_url (c\<lparr>redis_pass := ''p@q'', redis_host := ''h''\<rparr>) = redis_url (c\<lparr>redis_pass := ''p'', redis_host := ''q@h''\<rparr>)"
  by (simp add: redis_url_def)

text \<open>Without the signs that separate the parts the address determines them all.\<close>

definition plain :: "string \<Rightarrow> bool" where
  "plain s \<longleftrightarrow> set s \<inter> set '':@/?#'' = {}"

lemma split_at_sign:
  "a @ x # r = b @ y # r' \<Longrightarrow> set a \<inter> S = {} \<Longrightarrow> set b \<inter> S = {} \<Longrightarrow> x \<in> S \<Longrightarrow> y \<in> S \<Longrightarrow> a = b \<and> x = y \<and> r = r'"
proof (induction a arbitrary: b)
  case Nil
  then show ?case by (cases b) auto
next
  case (Cons c a)
  then show ?case by (cases b) auto
qed

lemma digit_char_plain:
  assumes "d < 10"
  shows "digit_char d \<notin> set '':@/?#''"
proof -
  have "d = 0 \<or> d = 1 \<or> d = 2 \<or> d = 3 \<or> d = 4 \<or> d = 5 \<or> d = 6 \<or> d = 7 \<or> d = 8 \<or> d = 9" using assms by presburger
  then show ?thesis by (elim disjE) (simp_all add: digit_char_eval)
qed

lemma show_nat_plain: "plain (show_nat n)"
  unfolding plain_def using show_nat_digits digit_char_plain by blast

lemma pg_url_determines:
  assumes "pg_url c = pg_url c'"
    and "plain (db_user c)" "plain (db_host c)" "\<forall>p. db_pass c = Some p \<longrightarrow> plain p"
    and "plain (db_user c')" "plain (db_host c')" "\<forall>p. db_pass c' = Some p \<longrightarrow> plain p"
  shows "db_user c = db_user c' \<and> db_pass c = db_pass c' \<and> db_host c = db_host c' \<and> db_port c = db_port c' \<and> db_name c = db_name c'"
proof -
  note split = split_at_sign [where S = "set '':@/?#''"]
  let ?rest = "\<lambda>c. db_host c @ CHR '':'' # show_nat (db_port c) @ CHR ''/'' # db_name c"
  have rest: "db_host c = db_host c' \<and> db_port c = db_port c' \<and> db_name c = db_name c'" if "?rest c = ?rest c'"
  proof -
    have h: "db_host c = db_host c'" "show_nat (db_port c) @ CHR ''/'' # db_name c = show_nat (db_port c') @ CHR ''/'' # db_name c'"
      using split [OF that] assms(3,6) by (simp_all add: plain_def)
    show ?thesis using h(1) split [OF h(2)] show_nat_plain by (simp add: plain_def)
  qed
  let ?cred = "\<lambda>c. case db_pass c of None \<Rightarrow> CHR ''@'' # ?rest c | Some p \<Rightarrow> CHR '':'' # p @ CHR ''@'' # ?rest c"
  have whole: "db_user c @ ?cred c = db_user c' @ ?cred c'"
    using assms(1) by (simp add: pg_url_def split: option.splits)
  obtain x r where x: "?cred c = x # r" "x = CHR ''@'' \<or> x = CHR '':''" by (cases "db_pass c") auto
  obtain y r' where y: "?cred c' = y # r'" "y = CHR ''@'' \<or> y = CHR '':''" by (cases "db_pass c'") auto
  have u: "db_user c = db_user c'" "?cred c = ?cred c'"
    using split [of "db_user c" x r "db_user c'" y r'] whole x y assms(2,5) by (auto simp: plain_def)
  show ?thesis
  proof (cases "db_pass c")
    case None
    then have "db_pass c' = None" "?rest c = ?rest c'" using u(2) by (simp_all split: option.splits)
    then show ?thesis using None u(1) rest by simp
  next
    case (Some p)
    then obtain q where q: "db_pass c' = Some q" "p @ CHR ''@'' # ?rest c = q @ CHR ''@'' # ?rest c'"
      using u(2) by (auto split: option.splits)
    then have "p = q \<and> ?rest c = ?rest c'" using split [OF q(2)] Some assms(4,7) by (simp add: plain_def)
    then show ?thesis using Some q(1) u(1) rest by simp
  qed
qed

end
