(* ===== verification/Orbit_Vector.thy ===== *)
theory Orbit_Vector
  imports Rust_Float Rust_Str Common_Types Json
begin

text \<open>
  The orbit worker's texts and vectors: \<open>workers/orbit/src/engagement.rs\<close>, \<open>embed.rs\<close>, \<open>tei.rs\<close> and
  the arithmetic of \<open>vector.rs\<close>. An engagement of a local account with a post is turned into a text,
  the text into a vector by the embedding service (a parameter), and the vector is mixed into the
  account's interest vector. All numbers are \<open>f32\<close>, each operation rounded once.
\<close>

section \<open>Square root and fused multiply-add\<close>

text \<open>The integer square root, two bits at a time.\<close>

fun isqrt :: "nat \<Rightarrow> nat" where
  "isqrt n = (if n = 0 then 0 else let r = 2 * isqrt (n div 4) in if (r + 1)\<^sup>2 \<le> n then r + 1 else r)"

declare isqrt.simps [simp del]

lemma isqrt_spec: "(isqrt n)\<^sup>2 \<le> n \<and> n < (isqrt n + 1)\<^sup>2"
proof (induction n rule: isqrt.induct)
  case (1 n)
  show ?case
  proof (cases "n = 0")
    case True
    then show ?thesis by (simp add: isqrt.simps)
  next
    case False
    define s where "s = isqrt (n div 4)"
    have IH: "s\<^sup>2 \<le> n div 4" "n div 4 < (s + 1)\<^sup>2" using 1 False by (simp_all add: s_def)
    have lo: "(2 * s)\<^sup>2 \<le> n" using IH(1) by (simp add: power2_eq_square)
    have "n div 4 + 1 \<le> (s + 1)\<^sup>2" using IH(2) by simp
    then have "4 * (n div 4 + 1) \<le> 4 * (s + 1)\<^sup>2" by simp
    moreover have "n < 4 * (n div 4 + 1)" by presburger
    moreover have "4 * (s + 1)\<^sup>2 = (2 * s + 2)\<^sup>2" by (simp add: power2_eq_square algebra_simps)
    ultimately have hi: "n < (2 * s + 2)\<^sup>2" by linarith
    have e: "isqrt n = (if (2 * s + 1)\<^sup>2 \<le> n then 2 * s + 1 else 2 * s)"
      using False by (subst isqrt.simps) (simp add: s_def Let_def)
    show ?thesis using lo hi unfolding e by (auto simp: not_le)
  qed
qed

text \<open>The square root of \<open>y\<close>, rounded to an integer; it lies beyond \<open>r + 1/2\<close> when \<open>y\<close> lies beyond its square.\<close>

definition round_sqrt :: "rat \<Rightarrow> int" where
  "round_sqrt y =
     (let r = int (isqrt (nat \<lfloor>y\<rfloor>)); h = (of_int r + 1/2)\<^sup>2 in
      if y < h then r else if h < y then r + 1 else if even r then r else r + 1)"

definition sqrt_ulp :: "fmt \<Rightarrow> rat \<Rightarrow> rat" where
  "sqrt_ulp F x = 2 powi (max (ilog2 x div 2) (f_emin F) + 1 - int (f_prec F))"

fun fl_sqrt :: "fmt \<Rightarrow> fl \<Rightarrow> fl" where
  "fl_sqrt F NaN = NaN"
| "fl_sqrt F (Infty s) = (if s then NaN else Infty False)"
| "fl_sqrt F (Fin x) =
     (if x < 0 then NaN else if x = 0 then Fin 0
      else let u = sqrt_ulp F x in rnd F (of_int (round_sqrt (x / u\<^sup>2)) * u))"

fun fl_fma :: "fmt \<Rightarrow> fl \<Rightarrow> fl \<Rightarrow> fl \<Rightarrow> fl" where
  "fl_fma F (Fin x) (Fin y) (Fin z) = rnd F (x * y + z)"
| "fl_fma F (Fin x) (Fin y) c = c"
| "fl_fma F a b c = fl_add F (fl_mul F a b) c"

text \<open>\<open>as f32\<close> on an \<open>f64\<close>.\<close>

definition to_f32 :: "fl \<Rightarrow> fl" where
  "to_f32 x = (case x of Fin r \<Rightarrow> rnd binary32 r | _ \<Rightarrow> x)"

definition f32_epsilon :: fl where "f32_epsilon = Fin (2 powi (- 23))"

section \<open>Engagements\<close>

datatype engagement_kind = Like | Repost | Reply | Bookmark

fun weight :: "engagement_kind \<Rightarrow> fl" where
  "weight Like = Fin 1"
| "weight Repost = Fin (3/2)"
| "weight Reply = Fin 3"
| "weight Bookmark = Fin 2"

fun kind_str :: "engagement_kind \<Rightarrow> string" where
  "kind_str Like = ''favourites''"
| "kind_str Repost = ''reblogs''"
| "kind_str Reply = ''replies''"
| "kind_str Bookmark = ''bookmarks''"

lemma kind_str_inject [simp]: "kind_str a = kind_str b \<longleftrightarrow> a = b"
  by (cases a; cases b) simp_all

record target_post =
  tg_text :: string
  tg_spoiler_text :: string
  tg_author_name :: string
  tg_author_handle :: string
  tg_alt_texts :: "string list"
  tg_tags :: "string list"

record raw_engagement =
  re_id :: int
  re_account_id :: int
  re_created_at :: instant
  re_kind :: engagement_kind
  re_target :: target_post

section \<open>Texts\<close>

text \<open>\<open>str::trim\<close> on UTF-8: the encodings of the characters with the property White\_Space.\<close>

definition white_space :: "string list" where
  "white_space =
     [[CHR 0x09], [CHR 0x0A], [CHR 0x0B], [CHR 0x0C], [CHR 0x0D], [CHR 0x20], [CHR 0xC2, CHR 0x85],
      [CHR 0xC2, CHR 0xA0], [CHR 0xE1, CHR 0x9A, CHR 0x80], [CHR 0xE2, CHR 0x80, CHR 0x80],
      [CHR 0xE2, CHR 0x80, CHR 0x81], [CHR 0xE2, CHR 0x80, CHR 0x82], [CHR 0xE2, CHR 0x80, CHR 0x83],
      [CHR 0xE2, CHR 0x80, CHR 0x84], [CHR 0xE2, CHR 0x80, CHR 0x85], [CHR 0xE2, CHR 0x80, CHR 0x86],
      [CHR 0xE2, CHR 0x80, CHR 0x87], [CHR 0xE2, CHR 0x80, CHR 0x88], [CHR 0xE2, CHR 0x80, CHR 0x89],
      [CHR 0xE2, CHR 0x80, CHR 0x8A], [CHR 0xE2, CHR 0x80, CHR 0xA8], [CHR 0xE2, CHR 0x80, CHR 0xA9],
      [CHR 0xE2, CHR 0x80, CHR 0xAF], [CHR 0xE2, CHR 0x81, CHR 0x9F], [CHR 0xE3, CHR 0x80, CHR 0x80]]"

fun drop_spaces :: "string list \<Rightarrow> nat \<Rightarrow> string \<Rightarrow> string" where
  "drop_spaces ws 0 s = s"
| "drop_spaces ws (Suc n) s =
     (case List.map_filter (\<lambda>w. strip_prefix w s) ws of [] \<Rightarrow> s | t # _ \<Rightarrow> drop_spaces ws n t)"

definition trim_text :: "string \<Rightarrow> string" where
  "trim_text s =
     (let t = drop_spaces white_space (length s) s
      in rev (drop_spaces (map rev white_space) (length t) (rev t)))"

text \<open>What the template is given; the engine and the template's result are a parameter.\<close>

record template_context =
  tc_author_name :: string
  tc_author_handle :: string
  tc_text :: string
  tc_content_warning :: string
  tc_alt_texts :: "string list"
  tc_tags :: string

definition render_target :: "(template_context \<Rightarrow> string option) \<Rightarrow> target_post \<Rightarrow> string" where
  "render_target engine t =
     (let tags = join '' '' (map (\<lambda>g. CHR ''#'' # g) (tg_tags t))
      in case engine \<lparr>tc_author_name = tg_author_name t, tc_author_handle = tg_author_handle t, tc_text = tg_text t,
                     tc_content_warning = tg_spoiler_text t, tc_alt_texts = tg_alt_texts t, tc_tags = tags\<rparr> of
           Some s \<Rightarrow> trim_text s
         | None \<Rightarrow> tg_text t)"

section \<open>Vectors\<close>

definition norm_of :: "fl list \<Rightarrow> fl" where
  "norm_of v = fl_sqrt binary32 (fl_sum binary32 (map (\<lambda>x. fl_mul binary32 x x) v))"

definition truncate_and_normalize :: "fl list \<Rightarrow> nat \<Rightarrow> fl list" where
  "truncate_and_normalize full dims =
     (let v = take dims full; n = norm_of v
      in if fl_lt n f32_epsilon then replicate dims (Fin 0) else map (\<lambda>x. fl_div binary32 x n) v)"

definition normalize :: "fl list \<Rightarrow> fl list" where
  "normalize v = (let n = norm_of v in if fl_lt n f32_epsilon then v else map (\<lambda>x. fl_div binary32 x n) v)"

definition ema_update :: "fl list \<Rightarrow> fl list \<Rightarrow> fl \<Rightarrow> fl \<Rightarrow> fl list" where
  "ema_update current embedding alpha w =
     (let aw = fl_mul binary32 alpha w; decay = fl_sub binary32 (Fin 1) alpha
      in normalize (map2 (\<lambda>c e. fl_fma binary32 aw e (fl_mul binary32 decay c)) current embedding))"

lemma length_normalize [simp]: "length (normalize v) = length v"
  by (simp add: normalize_def Let_def)

lemma length_ema_update [simp]: "length (ema_update c e alpha w) = min (length c) (length e)"
  by (simp add: ema_update_def Let_def)

lemma length_truncate: "dims \<le> length full \<Longrightarrow> length (truncate_and_normalize full dims) = dims"
  by (simp add: truncate_and_normalize_def Let_def)

lemma length_truncate_le: "length (truncate_and_normalize full dims) \<le> dims"
  by (simp add: truncate_and_normalize_def Let_def)

section \<open>Embedding\<close>

text \<open>\<open>slice::chunks\<close>, which panics for chunks of nothing.\<close>

fun chunks :: "nat \<Rightarrow> 'a list \<Rightarrow> 'a list list" where
  "chunks n xs = (if n = 0 \<or> xs = [] then [] else take n xs # chunks n (drop n xs))"

declare chunks.simps [simp del]

lemma concat_chunks: "n \<noteq> 0 \<Longrightarrow> concat (chunks n xs) = xs"
proof (induction n xs rule: chunks.induct)
  case (1 n xs)
  then show ?case by (subst chunks.simps) simp
qed

fun unique_texts :: "(target_post \<Rightarrow> string) \<Rightarrow> string set \<Rightarrow> raw_engagement list \<Rightarrow> string list" where
  "unique_texts rend seen [] = []"
| "unique_texts rend seen (e # es) =
     (let t = rend (re_target e)
      in if t \<noteq> [] \<and> t \<notin> seen then t # unique_texts rend (insert t seen) es else unique_texts rend seen es)"

text \<open>
  One request to the service: nothing when it cannot be sent, otherwise the answer's status and the
  vectors its body parses to, if it does. The requests of a cycle are numbered.
\<close>

definition embed_batch :: "string \<Rightarrow> (string \<Rightarrow> json \<Rightarrow> (nat \<times> fl list list option) option) \<Rightarrow> string list \<Rightarrow> fl list list option" where
  "embed_batch url post texts =
     (case post (url @ ''/embed'') (JObj [(''inputs'', JArr (map JStr texts)), (''truncate'', JBool True)]) of
        None \<Rightarrow> None
      | Some (st, vs) \<Rightarrow> if 200 \<le> st \<and> st < 300 then vs else None)"

definition add_embeddings :: "nat \<Rightarrow> string list \<Rightarrow> fl list list \<Rightarrow> (string \<rightharpoonup> fl list) \<Rightarrow> (string \<rightharpoonup> fl list)" where
  "add_embeddings dims texts vs m = m ++ map_of (rev (zip texts (map (\<lambda>v. truncate_and_normalize v dims) vs)))"

fun embed_chunks :: "(nat \<Rightarrow> string list \<Rightarrow> fl list list option) \<Rightarrow> nat \<Rightarrow> nat \<Rightarrow> string list list \<Rightarrow> (string \<rightharpoonup> fl list)
    \<Rightarrow> (string \<rightharpoonup> fl list)" where
  "embed_chunks tei dims n [] m = m"
| "embed_chunks tei dims n (c # cs) m =
     embed_chunks tei dims (Suc n) cs (case tei n c of None \<Rightarrow> m | Some vs \<Rightarrow> add_embeddings dims c vs m)"

definition embed_engagements :: "(nat \<Rightarrow> string list \<Rightarrow> fl list list option) \<Rightarrow> (target_post \<Rightarrow> string) \<Rightarrow> raw_engagement list
    \<Rightarrow> nat \<Rightarrow> nat \<Rightarrow> (string \<rightharpoonup> fl list) option" where
  "embed_engagements tei rend es dims batch_size =
     (if batch_size = 0 then None
      else Some (embed_chunks tei dims 0 (chunks batch_size (unique_texts rend {} es)) Map.empty))"

lemma add_embeddings_dom: "dom (add_embeddings dims ts vs m) \<subseteq> dom m \<union> set ts"
  by (auto simp: add_embeddings_def dest!: map_of_SomeD set_zip_leftD)

lemma add_embeddings_len:
  assumes "\<forall>v \<in> ran m. length v = dims" "\<forall>v \<in> set vs. dims \<le> length v"
  shows "\<forall>v \<in> ran (add_embeddings dims ts vs m). length v = dims"
proof
  fix v assume "v \<in> ran (add_embeddings dims ts vs m)"
  then obtain t where "add_embeddings dims ts vs m t = Some v" by (auto simp: ran_def)
  then consider "m t = Some v" | "(t, v) \<in> set (zip ts (map (\<lambda>v. truncate_and_normalize v dims) vs))"
    by (auto simp: add_embeddings_def map_add_Some_iff dest: map_of_SomeD)
  then show "length v = dims"
  proof cases
    case 1
    then show ?thesis using assms(1) by (auto simp: ran_def)
  next
    case 2
    then have "v \<in> set (map (\<lambda>v. truncate_and_normalize v dims) vs)" by (rule set_zip_rightD)
    then show ?thesis using assms(2) by (auto simp: length_truncate)
  qed
qed

lemma embed_chunks_dom: "dom (embed_chunks tei dims n cs m) \<subseteq> dom m \<union> set (concat cs)"
proof (induction cs arbitrary: n m)
  case (Cons c cs)
  let ?m = "case tei n c of None \<Rightarrow> m | Some vs \<Rightarrow> add_embeddings dims c vs m"
  have "dom ?m \<subseteq> dom m \<union> set c" using add_embeddings_dom [of dims c _ m] by (cases "tei n c") simp_all
  with Cons [of "Suc n" ?m] show ?case by auto
qed simp

lemma embed_chunks_len:
  assumes "\<forall>v \<in> ran m. length v = dims" "\<forall>n c vs. tei n c = Some vs \<longrightarrow> (\<forall>v \<in> set vs. dims \<le> length v)"
  shows "\<forall>v \<in> ran (embed_chunks tei dims n cs m). length v = dims"
  using assms(1)
proof (induction cs arbitrary: n m)
  case (Cons c cs)
  have "\<forall>v \<in> ran (case tei n c of None \<Rightarrow> m | Some vs \<Rightarrow> add_embeddings dims c vs m). length v = dims"
  proof (cases "tei n c")
    case (Some vs)
    then have "\<forall>v \<in> set vs. dims \<le> length v" using assms(2) by blast
    with Cons.prems have "\<forall>v \<in> ran (add_embeddings dims c vs m). length v = dims" by (rule add_embeddings_len)
    with Some show ?thesis by simp
  qed (use Cons.prems in simp)
  then show ?case unfolding embed_chunks.simps by (rule Cons.IH)
qed simp

end
