(* ===== verification/Orbit.thy ===== *)
theory Orbit
  imports Orbit_Vector Mastodon_Db
begin

text \<open>
  The orbit worker: polling the engagements of local accounts from Mastodon's tables
  (\<open>workers/orbit/src/poll.rs\<close>), updating the accounts' vectors (\<open>vector.rs\<close>) and the cycle that
  advances the cursors (\<open>main.rs\<close>), with its two tables and the statements of
  \<open>crates/state/src/orbit.rs\<close>. Every statement may fail.
\<close>

section \<open>Polling\<close>

text \<open>A row of \<open>favourites\<close> or \<open>bookmarks\<close> with its id; the other tables are those of Mastodon.\<close>

record mark_row =
  mk_id :: int
  mk_account_id :: int
  mk_status_id :: int
  mk_created_at :: instant

record orbit_db =
  ob_favourites :: "mark_row list"
  ob_bookmarks :: "mark_row list"
  ob_rest :: mastodon_db
  ob_agg :: "string list \<Rightarrow> string list"   \<comment> \<open>what \<open>array_agg(DISTINCT ..)\<close> makes of the values\<close>

text \<open>The engagements of a query: id, account, time and the target's id, before joins.\<close>

type_synonym event_row = "int \<times> int \<times> instant \<times> int"

definition mark_events :: "mark_row list \<Rightarrow> event_row list" where
  "mark_events ms = map (\<lambda>m. (mk_id m, mk_account_id m, mk_created_at m, mk_status_id m)) ms"

definition reblog_events :: "mastodon_db \<Rightarrow> event_row list" where
  "reblog_events db = List.map_filter
     (\<lambda>s. map_option (\<lambda>t. (ds_id s, ds_account_id s, ds_created_at s, t)) (ds_reblog_of_id s)) (db_statuses db)"

definition reply_events :: "mastodon_db \<Rightarrow> event_row list" where
  "reply_events db = List.map_filter
     (\<lambda>s. if ds_reblog_of_id s = None
          then map_option (\<lambda>t. (ds_id s, ds_account_id s, ds_created_at s, t)) (ds_in_reply_to_id s) else None) (db_statuses db)"

definition events_of :: "engagement_kind \<Rightarrow> orbit_db \<Rightarrow> event_row list" where
  "events_of k db =
     (case k of
        Like \<Rightarrow> mark_events (ob_favourites db)
      | Repost \<Rightarrow> reblog_events (ob_rest db)
      | Reply \<Rightarrow> reply_events (ob_rest db)
      | Bookmark \<Rightarrow> mark_events (ob_bookmarks db))"

definition alt_texts_of :: "orbit_db \<Rightarrow> int \<Rightarrow> string list" where
  "alt_texts_of db sid = ob_agg db (List.map_filter
     (\<lambda>m. if dx_status_id m = Some sid then option_filter (\<lambda>d. d \<noteq> []) (dx_description m) else None) (db_media (ob_rest db)))"

definition tag_names_of :: "orbit_db \<Rightarrow> int \<Rightarrow> string list" where
  "tag_names_of db sid = ob_agg db
     [n. (s, t) \<leftarrow> db_statuses_tags (ob_rest db), s = sid, (t', n) \<leftarrow> db_tags (ob_rest db), t' = t]"

text \<open>The row of an engagement with a status and its author; a NULL text cannot be decoded.\<close>

definition row_engagement :: "engagement_kind \<Rightarrow> orbit_db \<Rightarrow> string \<Rightarrow> event_row \<Rightarrow> db_status \<Rightarrow> db_account \<Rightarrow> raw_engagement option" where
  "row_engagement k db inst ev s author =
     (case ev of (i, acct, t, sid) \<Rightarrow>
        (case (ds_spoiler_text s, da_display_name author) of
           (Some spoiler, Some name) \<Rightarrow>
             Some \<lparr>re_id = i, re_account_id = acct, re_created_at = t, re_kind = k,
                   re_target = \<lparr>tg_text = ds_text s, tg_spoiler_text = spoiler, tg_author_name = name,
                     tg_author_handle = da_username author @ ''@'' @ unwrap_or (da_domain author) inst,
                     tg_alt_texts = alt_texts_of db sid, tg_tags = tag_names_of db sid\<rparr>\<rparr>
         | _ \<Rightarrow> None))"

text \<open>One query: engagements of local accounts beyond the cursor, by id, as many as a batch holds.\<close>

definition joined :: "orbit_db \<Rightarrow> int \<Rightarrow> event_row list \<Rightarrow> (event_row \<times> db_status \<times> db_account) list" where
  "joined db cursor evs =
     [(ev, s, author). ev \<leftarrow> evs, fst ev > cursor,
        actor \<leftarrow> db_accounts (ob_rest db), da_id actor = fst (snd ev) \<and> da_domain actor = None,
        s \<leftarrow> db_statuses (ob_rest db), ds_id s = snd (snd (snd ev)),
        author \<leftarrow> db_accounts (ob_rest db), da_id author = ds_account_id s]"

definition poll :: "engagement_kind \<Rightarrow> orbit_db option \<Rightarrow> int \<Rightarrow> nat \<Rightarrow> string \<Rightarrow> raw_engagement list option" where
  "poll k db cursor batch_size inst =
     Option.bind db (\<lambda>db. those (map (\<lambda>(ev, s, author). row_engagement k db inst ev s author)
       (take batch_size (sort_key (\<lambda>(ev, s, author). fst ev) (joined db cursor (events_of k db))))))"

definition poll_favourites :: "orbit_db option \<Rightarrow> int \<Rightarrow> nat \<Rightarrow> string \<Rightarrow> raw_engagement list option" where
  "poll_favourites = poll Like"

definition poll_reblogs :: "orbit_db option \<Rightarrow> int \<Rightarrow> nat \<Rightarrow> string \<Rightarrow> raw_engagement list option" where
  "poll_reblogs = poll Repost"

definition poll_replies :: "orbit_db option \<Rightarrow> int \<Rightarrow> nat \<Rightarrow> string \<Rightarrow> raw_engagement list option" where
  "poll_replies = poll Reply"

definition poll_bookmarks :: "orbit_db option \<Rightarrow> int \<Rightarrow> nat \<Rightarrow> string \<Rightarrow> raw_engagement list option" where
  "poll_bookmarks = poll Bookmark"

section \<open>Cursors and vectors\<close>

text \<open>The two tables of the worker.\<close>

record worker =
  wk_cursors :: "string \<rightharpoonup> int"
  wk_vectors :: "int \<rightharpoonup> fl list \<times> int"

definition load_cursor :: "bool \<Rightarrow> string \<Rightarrow> worker \<Rightarrow> int option option" where
  "load_cursor fails src w = (if fails then None else Some (wk_cursors w src))"

definition save_cursor :: "bool \<Rightarrow> string \<Rightarrow> int \<Rightarrow> worker \<Rightarrow> worker" where
  "save_cursor fails src i w = (if fails then w else w\<lparr>wk_cursors := (wk_cursors w)(src \<mapsto> i)\<rparr>)"

definition wipe_cursors :: "worker \<Rightarrow> worker" where
  "wipe_cursors w = w\<lparr>wk_cursors := Map.empty\<rparr>"

definition wipe_vectors :: "worker \<Rightarrow> worker" where
  "wipe_vectors w = w\<lparr>wk_vectors := Map.empty\<rparr>"

definition load_vector :: "bool \<Rightarrow> int \<Rightarrow> worker \<Rightarrow> (fl list \<times> int) option option" where
  "load_vector fails account w = (if fails then None else Some (wk_vectors w account))"

text \<open>\<open>as i32\<close>, and the times of the table an initial cursor is chosen from.\<close>

definition wrap_i32 :: "nat \<Rightarrow> int" where
  "wrap_i32 n = (int n + 2 ^ 31) mod 2 ^ 32 - 2 ^ 31"

definition cursor_rows :: "engagement_kind \<Rightarrow> orbit_db \<Rightarrow> (int \<times> instant) list" where
  "cursor_rows k db =
     (case k of
        Like \<Rightarrow> map (\<lambda>m. (mk_id m, mk_created_at m)) (ob_favourites db)
      | Bookmark \<Rightarrow> map (\<lambda>m. (mk_id m, mk_created_at m)) (ob_bookmarks db)
      | _ \<Rightarrow> map (\<lambda>s. (ds_id s, ds_created_at s)) (db_statuses (ob_rest db)))"

definition init_cursor :: "orbit_db option \<Rightarrow> instant \<Rightarrow> engagement_kind \<Rightarrow> nat \<Rightarrow> int option" where
  "init_cursor db now k replay_hours =
     (if replay_hours = 0 then Some 0
      else map_option (\<lambda>db.
        let ids = [i. (i, t) \<leftarrow> cursor_rows k db, t \<ge> now - wrap_i32 replay_hours * 3600 * 1000000]
        in if ids = [] then 0 else Min (set ids) - 1) db)"

definition all_kinds :: "engagement_kind list" where
  "all_kinds = [Like, Repost, Reply, Bookmark]"

text \<open>Initial cursors for the sources that have none; an error ends the worker.\<close>

fun init_cursors_from :: "(engagement_kind \<Rightarrow> bool) \<Rightarrow> (engagement_kind \<Rightarrow> orbit_db option) \<Rightarrow> (engagement_kind \<Rightarrow> bool) \<Rightarrow> instant
    \<Rightarrow> nat \<Rightarrow> engagement_kind list \<Rightarrow> worker \<Rightarrow> worker option" where
  "init_cursors_from load_fails db save_fails now hours [] w = Some w"
| "init_cursors_from load_fails db save_fails now hours (k # ks) w =
     (case load_cursor (load_fails k) (kind_str k) w of
        None \<Rightarrow> None
      | Some (Some c) \<Rightarrow> init_cursors_from load_fails db save_fails now hours ks w
      | Some None \<Rightarrow>
          (case init_cursor (db k) now k hours of
             None \<Rightarrow> None
           | Some start \<Rightarrow> init_cursors_from load_fails db save_fails now hours ks
               (if start > 0 then save_cursor (save_fails k) (kind_str k) start w else w)))"

definition init_cursors :: "(engagement_kind \<Rightarrow> bool) \<Rightarrow> (engagement_kind \<Rightarrow> orbit_db option) \<Rightarrow> (engagement_kind \<Rightarrow> bool) \<Rightarrow> instant
    \<Rightarrow> nat \<Rightarrow> worker \<Rightarrow> worker option" where
  "init_cursors load_fails db save_fails now hours = init_cursors_from load_fails db save_fails now hours all_kinds"

section \<open>Updating the vectors\<close>

text \<open>One engagement: the account's vector and count, and whether it changed.\<close>

definition user_step :: "(string \<rightharpoonup> fl list) \<Rightarrow> (target_post \<Rightarrow> string) \<Rightarrow> fl \<Rightarrow> raw_engagement
    \<Rightarrow> (fl list \<times> int) \<times> bool \<Rightarrow> (fl list \<times> int) \<times> bool" where
  "user_step embeddings rend alpha e st =
     (case embeddings (rend (re_target e)) of
        None \<Rightarrow> st
      | Some v \<Rightarrow> ((ema_update (fst (fst st)) v alpha (weight (re_kind e)), snd (fst st) + 1), True))"

definition update_user :: "(string \<rightharpoonup> fl list) \<Rightarrow> (target_post \<Rightarrow> string) \<Rightarrow> fl \<Rightarrow> nat \<Rightarrow> raw_engagement list
    \<Rightarrow> (fl list \<times> int) option \<Rightarrow> (fl list \<times> int) \<times> bool" where
  "update_user embeddings rend alpha dims es loaded =
     fold (user_step embeddings rend alpha) es (unwrap_or loaded (replicate dims (Fin 0), 0), False)"

definition upsert_vector :: "bool \<Rightarrow> int \<Rightarrow> fl list \<times> int \<Rightarrow> (int \<rightharpoonup> fl list \<times> int) \<Rightarrow> (int \<rightharpoonup> fl list \<times> int)" where
  "upsert_vector fails account st vs = (if fails then vs else vs(account \<mapsto> st))"

text \<open>
  The accounts of a hash map come in any order, so the order is an argument. The vectors loaded at
  the beginning are those of the table before any of them is written.
\<close>

definition process_account :: "(string \<rightharpoonup> fl list) \<Rightarrow> (target_post \<Rightarrow> string) \<Rightarrow> fl \<Rightarrow> nat \<Rightarrow> (int \<Rightarrow> bool) \<Rightarrow> raw_engagement list
    \<Rightarrow> (int \<rightharpoonup> fl list \<times> int) \<Rightarrow> int \<Rightarrow> (int \<rightharpoonup> fl list \<times> int) \<Rightarrow> (int \<rightharpoonup> fl list \<times> int)" where
  "process_account embeddings rend alpha dims upsert_fails es loaded account vs =
     (case update_user embeddings rend alpha dims (filter (\<lambda>e. re_account_id e = account) es) (loaded account) of
        (st, changed) \<Rightarrow> if changed then upsert_vector (upsert_fails account) account st vs else vs)"

text \<open>The rows of the accounts asked for, from before any of them is written.\<close>

definition batch_load_vectors :: "bool \<Rightarrow> int list \<Rightarrow> worker \<Rightarrow> (int \<rightharpoonup> fl list \<times> int) option" where
  "batch_load_vectors fails account_ids w = (if fails then None else Some (wk_vectors w |` set account_ids))"

definition process_engagements :: "int list \<Rightarrow> bool \<Rightarrow> (int \<Rightarrow> bool) \<Rightarrow> raw_engagement list \<Rightarrow> (string \<rightharpoonup> fl list)
    \<Rightarrow> (target_post \<Rightarrow> string) \<Rightarrow> fl \<Rightarrow> nat \<Rightarrow> worker \<Rightarrow> worker option" where
  "process_engagements accounts load_fails upsert_fails es embeddings rend alpha dims w =
     map_option (\<lambda>loaded. w\<lparr>wk_vectors := fold (process_account embeddings rend alpha dims upsert_fails es loaded) accounts (wk_vectors w)\<rparr>)
       (batch_load_vectors load_fails accounts w)"

section \<open>The cycle\<close>

record orbit_config =
  oc_alpha :: fl
  oc_dims :: nat
  oc_batch_size :: nat
  oc_tei_url :: string
  oc_tei_batch_size :: nat
  oc_domain :: string

text \<open>What a cycle meets: the tables each query sees, failures, the service, and an order of the accounts.\<close>

record cycle_env =
  cy_cursors_fail :: bool
  cy_db :: "engagement_kind \<Rightarrow> orbit_db option"
  cy_tei :: "nat \<Rightarrow> string \<Rightarrow> json \<Rightarrow> (nat \<times> fl list list option) option"
  cy_engine :: "template_context \<Rightarrow> string option"
  cy_order :: "int set \<Rightarrow> int list"
  cy_vectors_fail :: bool
  cy_upsert_fails :: "int \<Rightarrow> bool"
  cy_save_fails :: "engagement_kind \<Rightarrow> bool"

definition tei_client :: "orbit_config \<Rightarrow> cycle_env \<Rightarrow> nat \<Rightarrow> string list \<Rightarrow> fl list list option" where
  "tei_client cfg env n = embed_batch (oc_tei_url cfg) (cy_tei env n)"

definition cursor_at :: "worker \<Rightarrow> engagement_kind \<Rightarrow> int" where
  "cursor_at w k = unwrap_or (wk_cursors w (kind_str k)) 0"

definition polled :: "orbit_config \<Rightarrow> cycle_env \<Rightarrow> worker \<Rightarrow> raw_engagement list" where
  "polled cfg env w = sort_key re_created_at
     (concat (map (\<lambda>k. case poll k (cy_db env k) (cursor_at w k) (oc_batch_size cfg) (oc_domain cfg) of
        None \<Rightarrow> [] | Some batch \<Rightarrow> batch) all_kinds))"

definition embedded :: "cycle_env \<Rightarrow> (string \<rightharpoonup> fl list) \<Rightarrow> raw_engagement \<Rightarrow> bool" where
  "embedded env embeddings e \<longleftrightarrow> embeddings (render_target (cy_engine env) (re_target e)) \<noteq> None"

definition advance_cursor :: "cycle_env \<Rightarrow> raw_engagement list \<Rightarrow> (string \<rightharpoonup> fl list) \<Rightarrow> engagement_kind \<Rightarrow> worker \<Rightarrow> worker" where
  "advance_cursor env es embeddings k w =
     (let ids = map re_id (filter (embedded env embeddings) (filter (\<lambda>e. re_kind e = k) es))
      in if ids = [] then w else save_cursor (cy_save_fails env k) (kind_str k) (Max (set ids)) w)"

text \<open>
  One cycle, or \<open>None\<close> when it panics. \<open>embeddings.is_empty()\<close> is asked of the finite map by its
  keys, the texts of the engagements.
\<close>

definition poll_cycle :: "orbit_config \<Rightarrow> cycle_env \<Rightarrow> worker \<Rightarrow> worker option" where
  "poll_cycle cfg env w =
     (if cy_cursors_fail env then Some w
      else let es = polled cfg env w; rend = render_target (cy_engine env) in
        if es = [] then Some w
        else (case embed_engagements (tei_client cfg env) rend es (oc_dims cfg) (oc_tei_batch_size cfg) of
                None \<Rightarrow> None
              | Some embeddings \<Rightarrow>
                  if \<not> list_ex (embedded env embeddings) es then Some w
                  else (case process_engagements (cy_order env (set (map re_account_id es))) (cy_vectors_fail env)
                               (cy_upsert_fails env) es embeddings rend (to_f32 (oc_alpha cfg)) (oc_dims cfg) w of
                          None \<Rightarrow> Some w
                        | Some w' \<Rightarrow> Some (fold (advance_cursor env es embeddings) all_kinds w'))))"

section \<open>What is loaded\<close>

lemma process_loaded: "loaded a = loaded' a \<Longrightarrow> process_account emb rend alpha dims uf es loaded a = process_account emb rend alpha dims uf es loaded' a"
  by (intro ext) (simp add: process_account_def)

lemma process_engagements_eq:
  "process_engagements accounts load_fails uf es emb rend alpha dims w
    = (if load_fails then None
       else Some (w\<lparr>wk_vectors := fold (process_account emb rend alpha dims uf es (wk_vectors w)) accounts (wk_vectors w)\<rparr>))"
proof -
  have "fold (process_account emb rend alpha dims uf es (wk_vectors w |` set accounts)) accounts (wk_vectors w)
      = fold (process_account emb rend alpha dims uf es (wk_vectors w)) accounts (wk_vectors w)"
    by (intro fold_cong refl process_loaded) simp
  then show ?thesis by (simp add: process_engagements_def batch_load_vectors_def)
qed

section \<open>What a poll returns\<close>

text \<open>Joining with a table on its key finds at most one row.\<close>

lemma join_unique:
  "distinct (map key ys) \<Longrightarrow> concat (map (\<lambda>y. if key y = k then f y else []) ys)
     = (case find (\<lambda>y. key y = k) ys of None \<Rightarrow> [] | Some y \<Rightarrow> f y)"
proof (induction ys)
  case (Cons y ys)
  show ?case
  proof (cases "key y = k")
    case True
    then have "\<forall>z \<in> set ys. key z \<noteq> k" using Cons.prems True by (simp add: image_iff) metis
    then have "concat (map (\<lambda>y. if key y = k then f y else []) ys) = []" by simp
    with True show ?thesis by simp
  next
    case False
    with Cons show ?thesis by simp
  qed
qed simp

definition orbit_keys :: "orbit_db \<Rightarrow> bool" where
  "orbit_keys db \<longleftrightarrow> distinct (map mk_id (ob_favourites db)) \<and> distinct (map mk_id (ob_bookmarks db))
     \<and> distinct (map ds_id (db_statuses (ob_rest db))) \<and> distinct (map da_id (db_accounts (ob_rest db)))"

lemma distinct_map_filter_fst:
  assumes "distinct (map key xs)" "\<And>x y. f x = Some y \<Longrightarrow> fst y = key x"
  shows "distinct (map fst (List.map_filter f xs))"
  using assms(1)
proof (induction xs)
  case (Cons x xs)
  have "key x \<notin> fst ` set (List.map_filter f xs)"
    using Cons.prems assms(2) by (auto simp: map_filter_def) force
  with Cons show ?case by (auto simp: map_filter_simps assms(2) split: option.split)
qed (simp add: map_filter_simps)

lemma distinct_events: "orbit_keys db \<Longrightarrow> distinct (map fst (events_of k db))"
  by (cases k)
    (auto simp: orbit_keys_def events_of_def mark_events_def reblog_events_def reply_events_def comp_def
      intro!: distinct_map_filter_fst [where key = ds_id] split: if_splits)

definition join_one :: "orbit_db \<Rightarrow> int \<Rightarrow> event_row \<Rightarrow> (event_row \<times> db_status \<times> db_account) list" where
  "join_one db cursor ev =
     (if fst ev > cursor then
        (case find (\<lambda>a. da_id a = fst (snd ev)) (db_accounts (ob_rest db)) of
           None \<Rightarrow> []
         | Some actor \<Rightarrow> if da_domain actor = None then
             (case find (\<lambda>s. ds_id s = snd (snd (snd ev))) (db_statuses (ob_rest db)) of
                None \<Rightarrow> []
              | Some s \<Rightarrow> (case find (\<lambda>a. da_id a = ds_account_id s) (db_accounts (ob_rest db)) of
                            None \<Rightarrow> [] | Some author \<Rightarrow> [(ev, s, author)])) else [])
      else [])"

lemma joined_one:
  assumes "orbit_keys db"
  shows "joined db cursor evs = concat (map (join_one db cursor) evs)"
proof -
  have d: "distinct (map ds_id (db_statuses (ob_rest db)))" "distinct (map da_id (db_accounts (ob_rest db)))"
    using assms by (simp_all add: orbit_keys_def)
  have conj: "(if a \<and> b then xs else []) = (if a then if b then xs else [] else [])" for a b and xs :: "'x list" by simp
  show ?thesis
    unfolding joined_def join_one_def conj
    by (simp add: join_unique [OF d(1)] join_unique [OF d(2)] cong: if_cong option.case_cong)
qed

lemma join_one_cases: "join_one db cursor ev = [] \<or> fst ev > cursor \<and> (\<exists>s a. join_one db cursor ev = [(ev, s, a)])"
  by (auto simp: join_one_def split: option.splits)

lemma join_one_mem: "x \<in> set (join_one db cursor ev) \<Longrightarrow> fst x = ev \<and> cursor < fst ev"
  using join_one_cases [of db cursor ev] by auto

lemma joined_distinct:
  assumes "orbit_keys db" "distinct (map fst evs)"
  shows "distinct (map (\<lambda>x. fst (fst x)) (joined db cursor evs))"
  unfolding joined_one [OF assms(1)] using assms(2)
proof (induction evs)
  case (Cons ev evs)
  have sub: "(\<lambda>x. fst (fst x)) ` set (concat (map (join_one db cursor) evs)) \<subseteq> fst ` set evs"
    by (auto dest!: join_one_mem)
  have "fst ev \<notin> fst ` set evs" using Cons.prems by simp
  then have new: "fst ev \<notin> set (map (\<lambda>x. fst (fst x)) (concat (map (join_one db cursor) evs)))"
    using sub unfolding set_map by blast
  have IH: "distinct (map (\<lambda>x. fst (fst x)) (concat (map (join_one db cursor) evs)))" using Cons by simp
  from join_one_cases [of db cursor ev] show ?case
  proof
    assume "join_one db cursor ev = []"
    then show ?thesis using IH by simp
  next
    assume "fst ev > cursor \<and> (\<exists>s a. join_one db cursor ev = [(ev, s, a)])"
    then obtain s a where "join_one db cursor ev = [(ev, s, a)]" by blast
    then have "map (\<lambda>x. fst (fst x)) (concat (map (join_one db cursor) (ev # evs)))
        = fst ev # map (\<lambda>x. fst (fst x)) (concat (map (join_one db cursor) evs))" by simp
    then show ?thesis using new IH by (simp only: distinct.simps simp_thms)
  qed
qed simp

lemma joined_above: "orbit_keys db \<Longrightarrow> x \<in> set (joined db cursor evs) \<Longrightarrow> cursor < fst (fst x)"
  unfolding joined_one by (auto dest!: join_one_mem)

lemma row_engagement_Some:
  "row_engagement k db inst ev s author = Some e \<Longrightarrow> re_id e = fst ev \<and> re_kind e = k"
  by (auto simp: row_engagement_def split: prod.splits option.splits)

lemma those_SomeD: "those xs = Some ys \<Longrightarrow> xs = map Some ys"
  by (induction xs arbitrary: ys) (auto split: option.splits)

lemma poll_ids:
  assumes "poll k (Some db) cursor n inst = Some batch"
  shows "map re_id batch = map (\<lambda>x. fst (fst x)) (take n (sort_key (\<lambda>(ev, s, author). fst ev) (joined db cursor (events_of k db))))"
    "\<forall>e \<in> set batch. re_kind e = k"
proof -
  let ?rows = "take n (sort_key (\<lambda>(ev, s, author). fst ev) (joined db cursor (events_of k db)))"
  have b: "map (\<lambda>(ev, s, author). row_engagement k db inst ev s author) ?rows = map Some batch"
    using assms by (auto simp: poll_def dest: those_SomeD)
  then have len: "length batch = length ?rows" by (metis length_map)
  have nth: "row_engagement k db inst (fst (?rows ! i)) (fst (snd (?rows ! i))) (snd (snd (?rows ! i))) = Some (batch ! i)"
    if "i < length batch" for i
    using arg_cong [OF b, of "\<lambda>xs. xs ! i"] that len by (simp add: case_prod_unfold)
  show "map re_id batch = map (\<lambda>x. fst (fst x)) ?rows"
  proof (rule nth_equalityI)
    fix i assume "i < length (map re_id batch)"
    then have i: "i < length batch" by simp
    then show "map re_id batch ! i = map (\<lambda>x. fst (fst x)) ?rows ! i"
      using row_engagement_Some [OF nth [OF i]] len by simp
  qed (simp add: len)
  show "\<forall>e \<in> set batch. re_kind e = k"
  proof
    fix e assume "e \<in> set batch"
    then obtain i where "i < length batch" "batch ! i = e" by (auto simp: in_set_conv_nth)
    then show "re_kind e = k" using row_engagement_Some [OF nth] by blast
  qed
qed

lemma poll_batch:
  assumes "poll k (Some db) cursor n inst = Some batch" "orbit_keys db"
  shows "distinct (map re_id batch)" "\<forall>e \<in> set batch. re_kind e = k \<and> cursor < re_id e"
proof -
  let ?sorted = "sort_key (\<lambda>(ev, s, author). fst ev) (joined db cursor (events_of k db))"
  have "mset (map (\<lambda>x. fst (fst x)) ?sorted) = mset (map (\<lambda>x. fst (fst x)) (joined db cursor (events_of k db)))"
    by (simp add: mset_map)
  then have "distinct (map (\<lambda>x. fst (fst x)) ?sorted)"
    using joined_distinct [OF assms(2) distinct_events [OF assms(2)]] by (metis mset_eq_imp_distinct_iff)
  then show "distinct (map re_id batch)"
    unfolding poll_ids(1) [OF assms(1)] take_map [symmetric] by (rule distinct_take)
  have "cursor < i" if "i \<in> set (map re_id batch)" for i
    using that joined_above [OF assms(2)] unfolding poll_ids(1) [OF assms(1)] by (auto dest!: in_set_takeD)
  then show "\<forall>e \<in> set batch. re_kind e = k \<and> cursor < re_id e" using poll_ids(2) [OF assms(1)] by auto
qed

section \<open>What a cycle counts\<close>

text \<open>All that the four queries of a cycle return.\<close>

definition batches :: "orbit_config \<Rightarrow> cycle_env \<Rightarrow> worker \<Rightarrow> raw_engagement list" where
  "batches cfg env w = concat (map (\<lambda>k. case poll k (cy_db env k) (cursor_at w k) (oc_batch_size cfg) (oc_domain cfg) of
     None \<Rightarrow> [] | Some batch \<Rightarrow> batch) all_kinds)"

definition tables_keyed :: "cycle_env \<Rightarrow> bool" where
  "tables_keyed env \<longleftrightarrow> (\<forall>k db. cy_db env k = Some db \<longrightarrow> orbit_keys db)"

definition event_key :: "raw_engagement \<Rightarrow> engagement_kind \<times> int" where
  "event_key e = (re_kind e, re_id e)"

lemma batches_distinct:
  assumes "tables_keyed env"
  shows "distinct (map event_key (batches cfg env w))" "\<forall>e \<in> set (batches cfg env w). cursor_at w (re_kind e) < re_id e"
proof -
  let ?b = "\<lambda>k. case poll k (cy_db env k) (cursor_at w k) (oc_batch_size cfg) (oc_domain cfg) of None \<Rightarrow> [] | Some batch \<Rightarrow> batch"
  have one: "distinct (map re_id (?b k)) \<and> (\<forall>e \<in> set (?b k). re_kind e = k \<and> cursor_at w k < re_id e)" for k
  proof (cases "poll k (cy_db env k) (cursor_at w k) (oc_batch_size cfg) (oc_domain cfg)")
    case (Some batch)
    then obtain db where db: "cy_db env k = Some db" by (auto simp: poll_def bind_eq_Some_conv)
    then have "orbit_keys db" using assms by (simp add: tables_keyed_def)
    with poll_batch Some db show ?thesis by fastforce
  qed simp
  have dist: "distinct (map event_key (concat (map ?b ks)))" if "distinct ks" for ks
    using that
  proof (induction ks)
    case (Cons k ks)
    have "map event_key (?b k) = map (Pair k) (map re_id (?b k))" using one [of k] by (auto simp: event_key_def)
    then have "distinct (map event_key (?b k))" using one [of k] by (simp add: distinct_map inj_on_def)
    moreover have "set (map event_key (?b k)) \<inter> set (map event_key (concat (map ?b ks))) = {}"
    proof (rule ccontr)
      assume "\<not> ?thesis"
      then obtain x where "x \<in> set (map event_key (?b k))" "x \<in> set (map event_key (concat (map ?b ks)))" by blast
      then obtain e e' k' where "e \<in> set (?b k)" "e' \<in> set (?b k')" "k' \<in> set ks" "event_key e = event_key e'"
        by (auto simp del: event_key_def split del: option.split)
      then show False using one [of k] one [of k'] Cons.prems by (auto simp: event_key_def)
    qed
    ultimately show ?case using Cons by (simp del: set_map)
  qed simp
  show "distinct (map event_key (batches cfg env w))" unfolding batches_def by (rule dist) (simp add: all_kinds_def)
  show "\<forall>e \<in> set (batches cfg env w). cursor_at w (re_kind e) < re_id e"
  proof
    fix e assume "e \<in> set (batches cfg env w)"
    then obtain k where "e \<in> set (?b k)" unfolding batches_def by auto
    then have "re_kind e = k \<and> cursor_at w k < re_id e" by (rule conjunct2 [OF one, rule_format])
    then show "cursor_at w (re_kind e) < re_id e" by simp
  qed
qed

lemma polled_distinct:
  assumes "tables_keyed env"
  shows "distinct (map event_key (polled cfg env w))" "\<forall>e \<in> set (polled cfg env w). cursor_at w (re_kind e) < re_id e"
proof -
  have p: "polled cfg env w = sort_key re_created_at (batches cfg env w)" by (simp add: polled_def batches_def)
  have "mset (map event_key (polled cfg env w)) = mset (map event_key (batches cfg env w))" by (simp add: p)
  then show "distinct (map event_key (polled cfg env w))"
    using batches_distinct(1) [OF assms] by (metis mset_eq_imp_distinct_iff)
  show "\<forall>e \<in> set (polled cfg env w). cursor_at w (re_kind e) < re_id e"
    using batches_distinct(2) [OF assms] by (simp add: p)
qed

text \<open>One account: the count grows by the embedded engagements, and it is written when there is one.\<close>

lemma user_steps:
  "snd (fst (fold (user_step emb rend alpha) es st)) = snd (fst st) + int (length (filter (\<lambda>e. emb (rend (re_target e)) \<noteq> None) es))"
  "snd (fold (user_step emb rend alpha) es st) \<longleftrightarrow> snd st \<or> (\<exists>e \<in> set es. emb (rend (re_target e)) \<noteq> None)"
  by (induction es arbitrary: st) (auto simp: user_step_def split: option.split)

text \<open>An account is written once, from what was loaded, so the others do not matter to it.\<close>

lemma process_other: "a \<noteq> b \<Longrightarrow> process_account emb rend alpha dims uf es loaded b vs a = vs a"
  by (simp add: process_account_def upsert_vector_def split: prod.split)

lemma process_own: "vs a = vs' a \<Longrightarrow> process_account emb rend alpha dims uf es loaded a vs a = process_account emb rend alpha dims uf es loaded a vs' a"
  by (simp add: process_account_def upsert_vector_def split: prod.split)

lemma fold_process:
  "distinct accounts \<Longrightarrow> fold (process_account emb rend alpha dims uf es loaded) accounts vs a
    = (if a \<in> set accounts then process_account emb rend alpha dims uf es loaded a vs a else vs a)"
proof (induction accounts arbitrary: vs)
  case (Cons b accounts)
  show ?case
  proof (cases "a = b")
    case True
    then show ?thesis using Cons by simp
  next
    case False
    then show ?thesis using Cons process_own [of "process_account emb rend alpha dims uf es loaded b vs" a vs]
      by (simp add: process_other)
  qed
qed simp

definition count_for :: "worker \<Rightarrow> int \<Rightarrow> int" where
  "count_for w a = (case wk_vectors w a of None \<Rightarrow> 0 | Some (v, n) \<Rightarrow> n)"

lemma process_account_count:
  "(case process_account emb rend alpha dims (\<lambda>a. False) es vs a vs a of None \<Rightarrow> 0 | Some (v, n) \<Rightarrow> n)
    = (case vs a of None \<Rightarrow> 0 | Some (v, n) \<Rightarrow> n)
      + int (length (filter (\<lambda>e. emb (rend (re_target e)) \<noteq> None) (filter (\<lambda>e. re_account_id e = a) es)))"
proof -
  let ?es = "filter (\<lambda>e. re_account_id e = a) es"
  let ?st = "(unwrap_or (vs a) (replicate dims (Fin 0), 0), False)"
  let ?r = "fold (user_step emb rend alpha) ?es ?st"
  have u: "update_user emb rend alpha dims ?es (vs a) = ?r" by (simp add: update_user_def)
  have n0: "snd (fst ?st) = (case vs a of None \<Rightarrow> 0 | Some (v, n) \<Rightarrow> n)" by (auto split: option.split)
  have none: "filter (\<lambda>e. emb (rend (re_target e)) \<noteq> None) ?es = []" if "\<not> snd ?r"
    using that user_steps(2) [of emb rend alpha ?es ?st] by (auto simp: filter_empty_conv)
  show ?thesis
  proof (cases "snd ?r")
    case True
    then have "process_account emb rend alpha dims (\<lambda>a. False) es vs a vs a = Some (fst ?r)"
      by (simp add: process_account_def u upsert_vector_def case_prod_unfold)
    then show ?thesis using user_steps(1) [of emb rend alpha ?es ?st] n0 by (simp add: case_prod_unfold)
  next
    case False
    then have "process_account emb rend alpha dims (\<lambda>a. False) es vs a vs a = vs a"
      by (simp add: process_account_def u case_prod_unfold)
    then show ?thesis using none [OF False] by simp
  qed
qed

section \<open>The worker\<close>

text \<open>The embeddings of a cycle, and the engagements it counts.\<close>

definition cycle_embeddings :: "orbit_config \<Rightarrow> cycle_env \<Rightarrow> worker \<Rightarrow> (string \<rightharpoonup> fl list) option" where
  "cycle_embeddings cfg env w =
     embed_engagements (tei_client cfg env) (render_target (cy_engine env)) (polled cfg env w) (oc_dims cfg) (oc_tei_batch_size cfg)"

definition counted_in :: "orbit_config \<Rightarrow> cycle_env \<Rightarrow> worker \<Rightarrow> raw_engagement list" where
  "counted_in cfg env w =
     (case cycle_embeddings cfg env w of
        None \<Rightarrow> []
      | Some emb \<Rightarrow> if cy_cursors_fail env \<or> cy_vectors_fail env then [] else filter (embedded env emb) (polled cfg env w))"

text \<open>
  A run of the worker with everything it has counted since the tables were last wiped. Loading,
  polling, the service and the reading of vectors may fail in any cycle; writing does not, and a
  wipe empties both tables (for one that fails half way see \<open>half_wiped_counts_again\<close> in \<open>Startup\<close>).
\<close>

definition env_ok :: "cycle_env \<Rightarrow> bool" where
  "env_ok env \<longleftrightarrow> tables_keyed env \<and> cy_upsert_fails env = (\<lambda>a. False) \<and> cy_save_fails env = (\<lambda>k. False)
     \<and> (\<forall>A. finite A \<longrightarrow> distinct (cy_order env A) \<and> set (cy_order env A) = A)"

inductive orbit_run :: "orbit_config \<Rightarrow> worker \<Rightarrow> raw_engagement list \<Rightarrow> bool" for cfg where
  empty: "orbit_run cfg \<lparr>wk_cursors = Map.empty, wk_vectors = Map.empty\<rparr> []"
| wipe: "orbit_run cfg w es \<Longrightarrow> orbit_run cfg (wipe_vectors (wipe_cursors w)) []"
| startup: "orbit_run cfg w es \<Longrightarrow> init_cursors lf db sf now hours w = Some w' \<Longrightarrow> orbit_run cfg w' es"
| cycle: "orbit_run cfg w es \<Longrightarrow> env_ok env \<Longrightarrow> poll_cycle cfg env w = Some w' \<Longrightarrow> orbit_run cfg w' (es @ counted_in cfg env w)"

definition orbit_inv :: "worker \<Rightarrow> raw_engagement list \<Rightarrow> bool" where
  "orbit_inv w es \<longleftrightarrow> distinct (map event_key es)
     \<and> (\<forall>e \<in> set es. \<exists>c. wk_cursors w (kind_str (re_kind e)) = Some c \<and> re_id e \<le> c)
     \<and> (\<forall>a. count_for w a = int (length (filter (\<lambda>e. re_account_id e = a) es)))"

lemma init_cursors_from_keeps:
  "init_cursors_from lf db sf now hours ks w = Some w' \<Longrightarrow>
     wk_vectors w' = wk_vectors w \<and> (\<forall>s c. wk_cursors w s = Some c \<longrightarrow> wk_cursors w' s = Some c)"
proof (induction ks arbitrary: w)
  case (Cons k ks)
  show ?case
  proof (cases "load_cursor (lf k) (kind_str k) w")
    case (Some c)
    show ?thesis
    proof (cases c)
      case None
      then have none: "wk_cursors w (kind_str k) = None" using Some by (simp add: load_cursor_def split: if_splits)
      from Cons.prems Some None obtain start where i: "init_cursor (db k) now k hours = Some start"
        and rest: "init_cursors_from lf db sf now hours ks (if start > 0 then save_cursor (sf k) (kind_str k) start w else w) = Some w'"
        by (auto split: option.splits)
      have sub: "wk_cursors (if start > 0 then save_cursor (sf k) (kind_str k) start w else w) s = Some c"
        if "wk_cursors w s = Some c" for s c
        using that none by (auto simp: save_cursor_def)
      have vec: "wk_vectors (if start > 0 then save_cursor (sf k) (kind_str k) start w else w) = wk_vectors w"
        by (simp add: save_cursor_def)
      from Cons.IH [OF rest] sub vec show ?thesis by metis
    qed (use Cons Some in simp)
  qed (use Cons.prems in simp)
qed simp

lemma orbit_inv_startup: "orbit_inv w es \<Longrightarrow> init_cursors lf db sf now hours w = Some w' \<Longrightarrow> orbit_inv w' es"
  using init_cursors_from_keeps [of lf db sf now hours all_kinds w w']
  by (fastforce simp: orbit_inv_def init_cursors_def count_for_def)

lemma advance_vectors: "wk_vectors (fold (advance_cursor env es emb) ks w) = wk_vectors w"
  by (induction ks arbitrary: w) (simp_all add: advance_cursor_def save_cursor_def Let_def)

lemma advance_other: "k' \<noteq> k \<Longrightarrow> wk_cursors (advance_cursor env es emb k w) (kind_str k') = wk_cursors w (kind_str k')"
  by (simp add: advance_cursor_def save_cursor_def Let_def)

lemma advance_fold:
  "distinct ks \<Longrightarrow> wk_cursors (fold (advance_cursor env es emb) ks w) (kind_str k) =
     (if k \<in> set ks then wk_cursors (advance_cursor env es emb k w) (kind_str k) else wk_cursors w (kind_str k))"
proof (induction ks arbitrary: w)
  case (Cons k' ks)
  have same: "wk_cursors (advance_cursor env es emb k (advance_cursor env es emb k' w)) (kind_str k)
      = wk_cursors (advance_cursor env es emb k w) (kind_str k)" if "k \<noteq> k'"
    using advance_other [OF that] by (simp add: advance_cursor_def save_cursor_def Let_def)
  show ?case using Cons same advance_other by (cases "k = k'") auto
qed simp

lemma new_cursor:
  assumes "cy_save_fails env = (\<lambda>k. False)"
  shows "wk_cursors (fold (advance_cursor env es emb) all_kinds w) (kind_str k) =
    (let ids = map re_id (filter (embedded env emb) (filter (\<lambda>e. re_kind e = k) es))
     in if ids = [] then wk_cursors w (kind_str k) else Some (Max (set ids)))"
proof -
  have "k \<in> set all_kinds" "distinct all_kinds" by (cases k) (simp_all add: all_kinds_def)
  then show ?thesis using assms by (simp add: advance_fold) (simp add: advance_cursor_def save_cursor_def Let_def)
qed

text \<open>The cycle as one step: nothing happens, or everything embedded is counted and the cursors advance.\<close>

lemma poll_cycle_cases:
  assumes "poll_cycle cfg env w = Some w'"
  obtains "w' = w" "counted_in cfg env w = []"
  | emb w1 where "counted_in cfg env w = filter (embedded env emb) (polled cfg env w)"
      "process_engagements (cy_order env (set (map re_account_id (polled cfg env w)))) False (cy_upsert_fails env)
         (polled cfg env w) emb (render_target (cy_engine env)) (to_f32 (oc_alpha cfg)) (oc_dims cfg) w = Some w1"
      "w' = fold (advance_cursor env (polled cfg env w) emb) all_kinds w1"
proof (cases "cy_cursors_fail env \<or> cy_vectors_fail env \<or> polled cfg env w = []")
  case True
  then have "w' = w" using assms
    by (auto simp: poll_cycle_def Let_def process_engagements_eq split: if_splits option.splits)
  moreover have "counted_in cfg env w = []" using True by (auto simp: counted_in_def split: option.split)
  ultimately show thesis by (rule that(1))
next
  case False
  show thesis
  proof (cases "cycle_embeddings cfg env w")
    case None
    then show thesis using assms False by (simp add: poll_cycle_def Let_def cycle_embeddings_def)
  next
    case (Some emb)
    show thesis
    proof (cases "list_ex (embedded env emb) (polled cfg env w)")
      case True
      then show thesis using assms False Some
        by (intro that(2) [of emb]) (auto simp: poll_cycle_def Let_def cycle_embeddings_def counted_in_def process_engagements_eq)
    next
      case no: False
      have "w' = w" using assms False Some no by (simp add: poll_cycle_def Let_def cycle_embeddings_def)
      moreover have "counted_in cfg env w = []" using Some no by (auto simp: counted_in_def list_ex_iff filter_empty_conv)
      ultimately show thesis by (rule that(1))
    qed
  qed
qed

lemma process_counts:
  assumes "process_engagements accounts False (\<lambda>a. False) es emb rend alpha dims w = Some w1"
    and "distinct accounts" "set accounts = set (map re_account_id es)"
  shows "count_for w1 a = count_for w a
    + int (length (filter (\<lambda>e. re_account_id e = a) (filter (\<lambda>e. emb (rend (re_target e)) \<noteq> None) es)))"
proof -
  have v: "wk_vectors w1 a = (if a \<in> set accounts
      then process_account emb rend alpha dims (\<lambda>a. False) es (wk_vectors w) a (wk_vectors w) a else wk_vectors w a)"
    using assms(1) by (auto simp: process_engagements_eq fold_process [OF assms(2)])
  show ?thesis
  proof (cases "a \<in> set accounts")
    case True
    then show ?thesis
      using process_account_count [of emb rend alpha dims es "wk_vectors w" a] v
      by (simp add: count_for_def conj_commute)
  next
    case False
    then have "filter (\<lambda>e. re_account_id e = a) (filter (\<lambda>e. emb (rend (re_target e)) \<noteq> None) es) = []"
      using assms(3) by (auto simp: filter_empty_conv)
    then show ?thesis using False v by (simp add: count_for_def)
  qed
qed

lemma orbit_inv_cycle:
  assumes "orbit_inv w es" "env_ok env" "poll_cycle cfg env w = Some w'"
  shows "orbit_inv w' (es @ counted_in cfg env w)"
  using assms(3)
proof (cases rule: poll_cycle_cases)
  case 1
  then show ?thesis using assms(1) by simp
next
  case (2 emb w1)
  let ?ps = "polled cfg env w"
  let ?cs = "filter (embedded env emb) ?ps"
  have key: "tables_keyed env" and nofail: "cy_upsert_fails env = (\<lambda>a. False)" "cy_save_fails env = (\<lambda>k. False)"
    using assms(2) by (auto simp: env_ok_def)
  have ord: "distinct (cy_order env (set xs))" "set (cy_order env (set xs)) = set xs" for xs
    using assms(2) by (auto simp: env_ok_def)
  note pd = polled_distinct [OF key, of cfg w]
  have above: "cursor_at w (re_kind e) < re_id e" if "e \<in> set ?cs" for e using pd(2) that by simp
  have below: "\<exists>c. wk_cursors w (kind_str (re_kind e)) = Some c \<and> re_id e \<le> c" if "e \<in> set es" for e
    using assms(1) that by (simp add: orbit_inv_def)
  have disj: "event_key e \<noteq> event_key e'" if e: "e \<in> set es" "e' \<in> set ?cs" for e e'
  proof
    assume eq: "event_key e = event_key e'"
    obtain c where "wk_cursors w (kind_str (re_kind e)) = Some c" "re_id e \<le> c" using below [OF e(1)] by blast
    then show False using above [OF e(2)] eq by (simp add: cursor_at_def event_key_def)
  qed
  have "distinct (map event_key ?cs)" using pd(1) by (rule distinct_map_filter)
  moreover have "set (map event_key es) \<inter> set (map event_key ?cs) = {}"
  proof (rule ccontr)
    assume "\<not> ?thesis"
    then obtain k where "k \<in> event_key ` set es" "k \<in> event_key ` set ?cs" unfolding set_map by blast
    then obtain e e' where "e \<in> set es" "e' \<in> set ?cs" "event_key e = event_key e'" by (metis imageE)
    then show False using disj by blast
  qed
  ultimately have dist: "distinct (map event_key (es @ ?cs))"
    using assms(1) unfolding orbit_inv_def map_append distinct_append by blast
  have w1: "wk_cursors w1 = wk_cursors w" using 2(2) by (auto simp: process_engagements_eq)
  have cur: "\<exists>c. wk_cursors w' (kind_str (re_kind e)) = Some c \<and> re_id e \<le> c" if e: "e \<in> set (es @ ?cs)" for e
  proof -
    let ?ids = "map re_id (filter (embedded env emb) (filter (\<lambda>x. re_kind x = re_kind e) ?ps))"
    have c: "wk_cursors w' (kind_str (re_kind e)) = (if ?ids = [] then wk_cursors w (kind_str (re_kind e)) else Some (Max (set ?ids)))"
      unfolding 2(3) new_cursor [OF nofail(2)] w1 Let_def ..
    show ?thesis
    proof (cases "e \<in> set ?cs")
      case True
      then have mem: "re_id e \<in> set ?ids" by auto
      then have "re_id e \<le> Max (set ?ids)" by (intro Max_ge) simp_all
      moreover have "?ids \<noteq> []" using mem by (metis empty_iff list.set(1))
      ultimately show ?thesis using c by simp
    next
      case False
      then obtain c0 where c0: "wk_cursors w (kind_str (re_kind e)) = Some c0" "re_id e \<le> c0" using e below by auto
      show ?thesis
      proof (cases "?ids = []")
        case True
        then show ?thesis using c c0 by simp
      next
        case no: False
        then have "Max (set ?ids) \<in> set ?ids" by (intro Max_in finite_set) (simp only: set_empty not_False_eq_True)
        then obtain x where "x \<in> set ?cs" "re_kind x = re_kind e" "re_id x = Max (set ?ids)" by auto
        then have "c0 < Max (set ?ids)" using above [of x] c0(1) by (simp add: cursor_at_def)
        then show ?thesis using c no c0(2) by auto
      qed
    qed
  qed
  have cnt: "count_for w' a = count_for w a + int (length (filter (\<lambda>e. re_account_id e = a) ?cs))" for a
  proof -
    have "count_for w' a = count_for w1 a" unfolding 2(3) by (simp add: count_for_def advance_vectors)
    also have "\<dots> = count_for w a + int (length (filter (\<lambda>e. re_account_id e = a) ?cs))"
      using process_counts [OF 2(2) [unfolded nofail(1)] ord, of a] by (simp add: embedded_def)
    finally show ?thesis .
  qed
  show ?thesis unfolding orbit_inv_def 2(1) using dist cur cnt assms(1) by (simp add: orbit_inv_def)
qed

lemma orbit_run_inv: "orbit_run cfg w es \<Longrightarrow> orbit_inv w es"
proof (induction rule: orbit_run.induct)
  case empty
  then show ?case by (simp add: orbit_inv_def count_for_def)
next
  case (wipe w es)
  then show ?case by (simp add: orbit_inv_def count_for_def wipe_vectors_def)
next
  case (startup w es lf db sf now hours w')
  then show ?case by (blast intro: orbit_inv_startup)
next
  case (cycle w es env w')
  then show ?case by (blast intro: orbit_inv_cycle)
qed

text \<open>The map of embeddings is empty when no engagement has one: its keys are texts of engagements.\<close>

lemma unique_texts_sub: "set (unique_texts rend seen es) \<subseteq> (\<lambda>e. rend (re_target e)) ` set es"
  by (induction es arbitrary: seen) (auto simp: Let_def)

lemma no_embeddings:
  assumes "cycle_embeddings cfg env w = Some emb"
  shows "emb = Map.empty \<longleftrightarrow> \<not> list_ex (embedded env emb) (polled cfg env w)"
proof -
  let ?r = "render_target (cy_engine env)"
  let ?n = "oc_tei_batch_size cfg" and ?us = "unique_texts ?r {} (polled cfg env w)"
  have n: "?n \<noteq> 0" and emb: "emb = embed_chunks (tei_client cfg env) (oc_dims cfg) 0 (chunks ?n ?us) Map.empty"
    using assms by (simp_all add: cycle_embeddings_def embed_engagements_def split: if_splits)
  have "dom emb \<subseteq> set ?us"
    unfolding emb using embed_chunks_dom [of "tei_client cfg env" "oc_dims cfg" 0 "chunks ?n ?us" Map.empty]
    by (simp only: concat_chunks [OF n] dom_empty Un_empty_left)
  also have "\<dots> \<subseteq> (\<lambda>e. ?r (re_target e)) ` set (polled cfg env w)" by (rule unique_texts_sub)
  finally have sub: "dom emb \<subseteq> (\<lambda>e. ?r (re_target e)) ` set (polled cfg env w)" .
  show ?thesis
  proof
    assume "emb = Map.empty"
    then show "\<not> list_ex (embedded env emb) (polled cfg env w)" by (simp add: list_ex_iff embedded_def)
  next
    assume none: "\<not> list_ex (embedded env emb) (polled cfg env w)"
    have "dom emb = {}"
    proof (rule ccontr)
      assume "dom emb \<noteq> {}"
      then obtain t where t: "t \<in> dom emb" by blast
      with sub obtain e where "e \<in> set (polled cfg env w)" "t = ?r (re_target e)" by blast
      with t none show False by (auto simp: list_ex_iff embedded_def)
    qed
    then show "emb = Map.empty" by simp
  qed
qed

section \<open>Properties\<close>

text \<open>
  C5: However the worker is started, fails to read, poll or embed, and whatever the tables of
  Mastodon hold in each cycle, no engagement is counted twice: an account's engagement count is the
  number of its engagements in a list without repetition, all of which lie behind the cursors.
\<close>

theorem orbit_counts_once:
  assumes "orbit_run cfg w es"
  shows "distinct (map (\<lambda>e. (re_kind e, re_id e)) es)
    \<and> (\<forall>e \<in> set es. \<exists>c. wk_cursors w (kind_str (re_kind e)) = Some c \<and> re_id e \<le> c)
    \<and> (\<forall>a. (case wk_vectors w a of None \<Rightarrow> 0 | Some (v, n) \<Rightarrow> n) = int (length (filter (\<lambda>e. re_account_id e = a) es)))"
  using orbit_run_inv [OF assms] by (simp add: orbit_inv_def event_key_def [abs_def] count_for_def)

text \<open>
  The order in which a hash map yields the accounts does not matter: whatever order each of two
  runs takes, and whichever writes fail, the vectors afterwards are the same.
\<close>

theorem process_order_irrelevant:
  assumes "distinct accounts" "distinct accounts'" "set accounts' = set accounts"
  shows "process_engagements accounts' load_fails uf es emb rend alpha dims w = process_engagements accounts load_fails uf es emb rend alpha dims w"
proof -
  have "fold (process_account emb rend alpha dims uf es (wk_vectors w)) accounts' (wk_vectors w) a
      = fold (process_account emb rend alpha dims uf es (wk_vectors w)) accounts (wk_vectors w) a" for a
    using assms by (simp add: fold_process)
  then have "fold (process_account emb rend alpha dims uf es (wk_vectors w)) accounts' (wk_vectors w)
      = fold (process_account emb rend alpha dims uf es (wk_vectors w)) accounts (wk_vectors w)" by (rule ext)
  then show ?thesis by (simp add: process_engagements_eq)
qed

text \<open>Two favourites of a local account; the service refuses texts that \<open>bad\<close> says.\<close>

definition an_author :: "int \<Rightarrow> db_account" where
  "an_author i = \<lparr>da_id = i, da_username = ''u'', da_domain = None, da_display_name = Some ''U'', da_url = None,
     da_avatar_file_name = None, da_avatar_remote_url = None, da_header_file_name = None, da_header_remote_url = None,
     da_avatar_version = None, da_header_version = None, da_suspended_at = None, da_silenced_at = None, da_note = [],
     da_uri = [], da_created_at = 0, da_discoverable = None, da_indexable = True, da_locked = False, da_actor_type = None,
     da_fields = None\<rparr>"

definition a_note :: "int \<Rightarrow> string \<Rightarrow> db_status" where
  "a_note i t = \<lparr>ds_id = i, ds_account_id = 1, ds_uri = [], ds_url = None, ds_text = t, ds_spoiler_text = Some [], ds_sensitive = False,
     ds_language = None, ds_created_at = 0, ds_visibility = 0, ds_in_reply_to_id = None, ds_in_reply_to_account_id = None,
     ds_reblog_of_id = None, ds_deleted_at = None, ds_edited_at = None, ds_media_order = None\<rparr>"

definition note_db :: orbit_db where
  "note_db = \<lparr>ob_favourites = [\<lparr>mk_id = 4, mk_account_id = 1, mk_status_id = 7, mk_created_at = 0\<rparr>,
       \<lparr>mk_id = 5, mk_account_id = 1, mk_status_id = 8, mk_created_at = 1\<rparr>], ob_bookmarks = [],
     ob_rest = \<lparr>db_accounts = [an_author 1], db_statuses = [a_note 7 ''x'', a_note 8 ''y''], db_favourites = [], db_bookmarks = [],
       db_mentions = [], db_follows = [], db_blocks = [], db_mutes = [], db_domain_blocks = [], db_stats = [], db_tags = [],
       db_statuses_tags = [], db_account_stats = [], db_media = [], db_cards = [], db_cards_statuses = [], db_emojis = [],
       db_quotes = []\<rparr>, ob_agg = id\<rparr>"

definition inputs_of :: "json \<Rightarrow> string list" where
  "inputs_of body = (case json_get body ''inputs'' of Some (JArr ts) \<Rightarrow> List.map_filter (\<lambda>t. case t of JStr s \<Rightarrow> Some s | _ \<Rightarrow> None) ts | _ \<Rightarrow> [])"

definition note_env :: "(string list \<Rightarrow> bool) \<Rightarrow> cycle_env" where
  "note_env bad = \<lparr>cy_cursors_fail = False, cy_db = (\<lambda>k. Some note_db),
     cy_tei = (\<lambda>n url body. if bad (inputs_of body) then None else Some (200, Some (map (\<lambda>t. [Fin 0]) (inputs_of body)))), cy_engine = (\<lambda>c. Some (tc_text c)),
     cy_order = sorted_list_of_set, cy_vectors_fail = False, cy_upsert_fails = (\<lambda>a. False),
     cy_save_fails = (\<lambda>k. False)\<rparr>"

definition note_config :: orbit_config where
  "note_config = \<lparr>oc_alpha = Fin 1, oc_dims = 1, oc_batch_size = 10, oc_tei_url = ''t:'', oc_tei_batch_size = 1, oc_domain = ''i.test''\<rparr>"

definition fresh_worker :: worker where
  "fresh_worker = \<lparr>wk_cursors = Map.empty, wk_vectors = Map.empty\<rparr>"

lemma note_env_ok: "env_ok (note_env bad)"
  by (simp add: env_ok_def note_env_def tables_keyed_def orbit_keys_def note_db_def a_note_def an_author_def)

lemma note_cycle:
  "case poll_cycle note_config (note_env (\<lambda>ts. False)) fresh_worker of
     None \<Rightarrow> False
   | Some w \<Rightarrow> wk_cursors w ''favourites'' = Some 5 \<and> map_option snd (wk_vectors w 1) = Some 2"
  by code_simp

theorem orbit_counts_once_witness:
  "\<exists>w. poll_cycle note_config (note_env (\<lambda>ts. False)) fresh_worker = Some w
    \<and> int (length (filter (\<lambda>e. re_account_id e = 1) (counted_in note_config (note_env (\<lambda>ts. False)) fresh_worker))) = 2"
proof -
  let ?env = "note_env (\<lambda>ts. False)"
  obtain w where w: "poll_cycle note_config ?env fresh_worker = Some w" "map_option snd (wk_vectors w 1) = Some 2"
    using note_cycle by (cases "poll_cycle note_config ?env fresh_worker") simp_all
  have "orbit_run note_config fresh_worker []" unfolding fresh_worker_def by (rule orbit_run.empty)
  then have "orbit_run note_config w ([] @ counted_in note_config ?env fresh_worker)"
    using note_env_ok w(1) by (rule orbit_run.cycle)
  from orbit_counts_once [OF this] have "(case wk_vectors w 1 of None \<Rightarrow> 0 | Some (v, n) \<Rightarrow> n)
      = int (length (filter (\<lambda>e. re_account_id e = 1) (counted_in note_config ?env fresh_worker)))" by simp
  then show ?thesis using w by (auto simp: case_prod_unfold)
qed

theorem process_order_irrelevant_witness:
  "process_engagements [2, 1] False (\<lambda>a. False) (polled note_config (note_env (\<lambda>ts. False)) fresh_worker) (\<lambda>t. Some [Fin 1])
     tg_text (Fin 1) 1 fresh_worker
   = process_engagements [1, 2] False (\<lambda>a. False) (polled note_config (note_env (\<lambda>ts. False)) fresh_worker) (\<lambda>t. Some [Fin 1])
     tg_text (Fin 1) 1 fresh_worker"
  by (rule process_order_irrelevant) auto

text \<open>
  What is lost: when the batch with the text of favourite 4 fails and the one with the text of
  favourite 5 does not, the cursor passes both, and 4 is never polled again.
\<close>

lemma failed_batch_skipped:
  "case poll_cycle note_config (note_env (\<lambda>ts. ts = [''x''])) fresh_worker of
     None \<Rightarrow> False
   | Some w \<Rightarrow> wk_cursors w ''favourites'' = Some 5 \<and> map_option snd (wk_vectors w 1) = Some 1
       \<and> polled note_config (note_env (\<lambda>ts. False)) w = []"
  by code_simp

text \<open>With no engagement in the replay window the first poll starts at the beginning of the table.\<close>

lemma quiet_window_replays_all:
  assumes "hours \<noteq> 0" "\<forall>(i, t) \<in> set (cursor_rows k db). t < now - wrap_i32 hours * 3600 * 1000000"
  shows "init_cursor (Some db) now k hours = Some 0"
proof -
  have "[i. (i, t) \<leftarrow> cursor_rows k db, t \<ge> now - wrap_i32 hours * 3600 * 1000000] = []"
    using assms(2) by (auto simp: not_le)
  then show ?thesis using assms(1) by (simp add: init_cursor_def)
qed

end
