(* ===== verification/Orbit_Progress.thy ===== *)
theory Orbit_Progress
  imports Orbit
begin

text \<open>
  The loop of the orbit worker (\<open>workers/orbit/src/main.rs\<close>) over several cycles, and its progress:
  when nothing fails, the worker catches up with the engagements in Mastodon's tables, so together
  with the invariant of \<open>Orbit\<close> each of them counts exactly once.
\<close>

section \<open>The loop\<close>

text \<open>One environment for every tick until the shutdown; \<open>None\<close> when a cycle panics.\<close>

fun run_cycles :: "orbit_config \<Rightarrow> cycle_env list \<Rightarrow> worker \<Rightarrow> worker option" where
  "run_cycles cfg [] w = Some w"
| "run_cycles cfg (env # envs) w = Option.bind (poll_cycle cfg env w) (run_cycles cfg envs)"

section \<open>What is left to do\<close>

text \<open>The engagements of a source beyond the cursor, in the order of their ids.\<close>

definition rows_ahead :: "orbit_db \<Rightarrow> worker \<Rightarrow> engagement_kind \<Rightarrow> (event_row \<times> db_status \<times> db_account) list" where
  "rows_ahead db w k = sort_key (\<lambda>(ev, s, author). fst ev) (joined db (cursor_at w k) (events_of k db))"

definition pending :: "orbit_config \<Rightarrow> orbit_db \<Rightarrow> worker \<Rightarrow> engagement_kind \<Rightarrow> raw_engagement list" where
  "pending cfg db w k = List.map_filter (\<lambda>(ev, s, author). row_engagement k db (oc_domain cfg) ev s author) (rows_ahead db w k)"

text \<open>
  A cycle in which nothing fails: all queries see the tables \<open>db\<close>, every statement succeeds, the
  service answers each request with one vector per text, and every row can be read and has a text.
\<close>

definition answers :: "orbit_config \<Rightarrow> cycle_env \<Rightarrow> bool" where
  "answers cfg env \<longleftrightarrow> (\<forall>n ts. \<exists>vs. tei_client cfg env n ts = Some vs \<and> length vs = length ts)"

definition readable :: "orbit_config \<Rightarrow> orbit_db \<Rightarrow> worker \<Rightarrow> cycle_env \<Rightarrow> bool" where
  "readable cfg db w env \<longleftrightarrow> (\<forall>k. \<forall>(ev, s, author) \<in> set (rows_ahead db w k).
     \<exists>e. row_engagement k db (oc_domain cfg) ev s author = Some e \<and> render_target (cy_engine env) (re_target e) \<noteq> [])"

definition trouble_free :: "orbit_config \<Rightarrow> orbit_db \<Rightarrow> worker \<Rightarrow> cycle_env \<Rightarrow> bool" where
  "trouble_free cfg db w env \<longleftrightarrow> cy_db env = (\<lambda>k. Some db) \<and> \<not> cy_cursors_fail env \<and> \<not> cy_vectors_fail env
     \<and> env_ok env \<and> answers cfg env \<and> readable cfg db w env"

section \<open>Rows beyond a cursor\<close>

lemma joined_beyond:
  assumes "orbit_keys db" "c \<le> c'"
  shows "joined db c' evs = filter (\<lambda>x. c' < fst (fst x)) (joined db c evs)"
proof -
  have "join_one db c' ev = filter (\<lambda>x. c' < fst (fst x)) (join_one db c ev)" for ev
  proof (cases "c < fst ev")
    case True
    then have "join_one db c' ev = (if c' < fst ev then join_one db c ev else [])" by (simp add: join_one_def)
    moreover have "filter (\<lambda>x. c' < fst (fst x)) (join_one db c ev) = (if c' < fst ev then join_one db c ev else [])"
      using join_one_cases [of db c ev] by auto
    ultimately show ?thesis by simp
  qed (use assms(2) in \<open>simp add: join_one_def\<close>)
  then have "join_one db c' = filter (\<lambda>x. c' < fst (fst x)) \<circ> join_one db c" by (simp add: fun_eq_iff)
  then show ?thesis unfolding joined_one [OF assms(1)] filter_concat map_map by (rule arg_cong)
qed

lemma filter_beyond_max:
  fixes f :: "'a \<Rightarrow> int"
  assumes "sorted (map f xs)" "distinct (map f xs)" "take n xs \<noteq> []"
  shows "filter (\<lambda>x. Max (f ` set (take n xs)) < f x) xs = drop n xs"
proof -
  let ?m = "Max (f ` set (take n xs))"
  have m: "?m \<in> f ` set (take n xs)" using assms(3) by (intro Max_in) auto
  have lo: "\<not> ?m < f x" if "x \<in> set (take n xs)" for x
    using that by (simp add: not_less)
  have "sorted (map f (take n xs @ drop n xs))" using assms(1) by simp
  then have le: "f x \<le> f y" if "x \<in> set (take n xs)" "y \<in> set (drop n xs)" for x y
    using that by (simp only: map_append sorted_append set_map) blast
  have "distinct (map f (take n xs @ drop n xs))" using assms(2) by simp
  then have ne: "f x \<noteq> f y" if "x \<in> set (take n xs)" "y \<in> set (drop n xs)" for x y
    using that by (simp only: map_append distinct_append set_map) blast
  have hi: "?m < f y" if "y \<in> set (drop n xs)" for y
    using m le [OF _ that] ne [OF _ that] by force
  have "filter (\<lambda>x. ?m < f x) (take n xs @ drop n xs) = drop n xs"
    unfolding filter_append using lo hi by (simp add: filter_empty_conv filter_id_conv)
  then show ?thesis by simp
qed

lemma rows_ahead_sorted:
  assumes "orbit_keys db"
  shows "sorted (map (\<lambda>x. fst (fst x)) (rows_ahead db w k))" "distinct (map (\<lambda>x. fst (fst x)) (rows_ahead db w k))"
proof -
  show "sorted (map (\<lambda>x. fst (fst x)) (rows_ahead db w k))"
    unfolding rows_ahead_def case_prod_unfold by simp
  have "mset (map (\<lambda>x. fst (fst x)) (rows_ahead db w k)) = mset (map (\<lambda>x. fst (fst x)) (joined db (cursor_at w k) (events_of k db)))"
    by (simp add: rows_ahead_def)
  then show "distinct (map (\<lambda>x. fst (fst x)) (rows_ahead db w k))"
    using joined_distinct [OF assms distinct_events [OF assms]] by (metis mset_eq_imp_distinct_iff)
qed

lemma rows_ahead_moved:
  assumes "orbit_keys db" "cursor_at w k \<le> cursor_at w' k"
  shows "rows_ahead db w' k = filter (\<lambda>x. cursor_at w' k < fst (fst x)) (rows_ahead db w k)"
  unfolding rows_ahead_def filter_sort by (simp add: joined_beyond [OF assms])

lemma readable_rows:
  assumes "readable cfg db w env"
  shows "map Some (pending cfg db w k) = map (\<lambda>(ev, s, author). row_engagement k db (oc_domain cfg) ev s author) (rows_ahead db w k)"
    and "map re_id (pending cfg db w k) = map (\<lambda>x. fst (fst x)) (rows_ahead db w k)"
    and "\<forall>e \<in> set (pending cfg db w k). re_kind e = k \<and> render_target (cy_engine env) (re_target e) \<noteq> []"
proof -
  have *: "map Some (List.map_filter g xs) = map g xs \<and> map re_id (List.map_filter g xs) = map (\<lambda>x. fst (fst x)) xs
      \<and> (\<forall>e \<in> set (List.map_filter g xs). re_kind e = k \<and> render_target (cy_engine env) (re_target e) \<noteq> [])"
    if "\<forall>x \<in> set xs. \<exists>e. g x = Some e \<and> re_id e = fst (fst x) \<and> re_kind e = k \<and> render_target (cy_engine env) (re_target e) \<noteq> []"
    for xs and g :: "event_row \<times> db_status \<times> db_account \<Rightarrow> raw_engagement option"
    using that by (induction xs) (auto simp: map_filter_simps)
  have "\<forall>x \<in> set (rows_ahead db w k). \<exists>e. (case x of (ev, s, author) \<Rightarrow> row_engagement k db (oc_domain cfg) ev s author) = Some e
      \<and> re_id e = fst (fst x) \<and> re_kind e = k \<and> render_target (cy_engine env) (re_target e) \<noteq> []"
    using assms unfolding readable_def by (fastforce dest: row_engagement_Some)
  from * [OF this] show "map Some (pending cfg db w k) = map (\<lambda>(ev, s, author). row_engagement k db (oc_domain cfg) ev s author) (rows_ahead db w k)"
    and "map re_id (pending cfg db w k) = map (\<lambda>x. fst (fst x)) (rows_ahead db w k)"
    and "\<forall>e \<in> set (pending cfg db w k). re_kind e = k \<and> render_target (cy_engine env) (re_target e) \<noteq> []"
    unfolding pending_def by blast+
qed

lemma those_map_Some: "those (map Some xs) = Some xs"
  by (induction xs) simp_all

lemma poll_pending:
  assumes "readable cfg db w env"
  shows "poll k (Some db) (cursor_at w k) n (oc_domain cfg) = Some (take n (pending cfg db w k))"
  using arg_cong [OF readable_rows(1) [OF assms, of k], of "take n"]
  by (simp add: poll_def rows_ahead_def [symmetric] take_map [symmetric] those_map_Some)
    (metis take_map those_map_Some)

section \<open>One trouble_free cycle\<close>

lemma add_embeddings_all:
  "length vs = length ts \<Longrightarrow> dom (add_embeddings dims ts vs m) = dom m \<union> set ts"
  by (auto simp: add_embeddings_def dom_map_of_conv_image_fst image_set)

lemma embed_chunks_all:
  assumes "\<forall>n ts. \<exists>vs. tei n ts = Some vs \<and> length vs = length ts"
  shows "dom (embed_chunks tei dims n cs m) = dom m \<union> set (concat cs)"
proof (induction cs arbitrary: n m)
  case (Cons c cs)
  obtain vs where vs: "tei n c = Some vs" "length vs = length c" using assms by blast
  with Cons show ?case by (simp add: add_embeddings_all Un_assoc)
qed simp

lemma unique_texts_all: "e \<in> set es \<Longrightarrow> rend (re_target e) \<noteq> [] \<Longrightarrow> rend (re_target e) \<notin> seen
    \<Longrightarrow> rend (re_target e) \<in> set (unique_texts rend seen es)"
  by (induction es arbitrary: seen) (auto simp: Let_def)

lemma embed_all:
  assumes "answers cfg env" "0 < oc_tei_batch_size cfg"
    and "\<forall>e \<in> set (polled cfg env w). render_target (cy_engine env) (re_target e) \<noteq> []"
  obtains emb where "cycle_embeddings cfg env w = Some emb" "filter (embedded env emb) (polled cfg env w) = polled cfg env w"
proof -
  let ?r = "render_target (cy_engine env)" and ?n = "oc_tei_batch_size cfg" and ?es = "polled cfg env w"
  let ?emb = "embed_chunks (tei_client cfg env) (oc_dims cfg) 0 (chunks ?n (unique_texts ?r {} ?es)) Map.empty"
  have "cycle_embeddings cfg env w = Some ?emb" using assms(2) by (simp add: cycle_embeddings_def embed_engagements_def)
  moreover have "dom ?emb = set (unique_texts ?r {} ?es)"
    using embed_chunks_all [OF assms(1) [unfolded answers_def]] assms(2) by (simp add: concat_chunks del: set_concat)
  then have "embedded env ?emb e" if "e \<in> set ?es" for e
    using unique_texts_all [OF that, of ?r "{}"] assms(3) that by (auto simp: embedded_def dom_def)
  then have "filter (embedded env ?emb) ?es = ?es" by (simp add: filter_id_conv)
  ultimately show thesis by (rule that)
qed

lemma trouble_free_polled:
  assumes "trouble_free cfg db w env"
  shows "polled cfg env w = sort_key re_created_at (concat (map (\<lambda>k. take (oc_batch_size cfg) (pending cfg db w k)) all_kinds))"
    and "\<forall>e \<in> set (polled cfg env w). render_target (cy_engine env) (re_target e) \<noteq> []"
proof -
  have h: "cy_db env = (\<lambda>k. Some db)" "readable cfg db w env" using assms by (simp_all add: trouble_free_def)
  show p: "polled cfg env w = sort_key re_created_at (concat (map (\<lambda>k. take (oc_batch_size cfg) (pending cfg db w k)) all_kinds))"
    by (simp add: polled_def h(1) poll_pending [OF h(2)])
  show "\<forall>e \<in> set (polled cfg env w). render_target (cy_engine env) (re_target e) \<noteq> []"
    using readable_rows(3) [OF h(2)] by (auto simp: p dest!: in_set_takeD)
qed

lemma kind_batch:
  assumes "\<And>k. \<forall>e \<in> set (f k). re_kind e = k"
  shows "set (filter (\<lambda>e. re_kind e = k) (concat (map f all_kinds))) = set (f k)"
proof -
  have "k \<in> set all_kinds" by (cases k) (simp_all add: all_kinds_def)
  then show ?thesis using assms by auto
qed

lemma trouble_free_cycle:
  assumes h: "trouble_free cfg db w env" and "0 < oc_batch_size cfg" "0 < oc_tei_batch_size cfg" "orbit_keys db"
  obtains w' where "poll_cycle cfg env w = Some w'"
    "\<And>k. rows_ahead db w' k = drop (oc_batch_size cfg) (rows_ahead db w k)"
    "\<And>k. pending cfg db w' k = drop (oc_batch_size cfg) (pending cfg db w k)"
    "\<And>a. count_for w' a = count_for w a
       + (\<Sum>k\<leftarrow>all_kinds. int (length (filter (\<lambda>e. re_account_id e = a) (take (oc_batch_size cfg) (pending cfg db w k)))))"
proof -
  let ?n = "oc_batch_size cfg" and ?es = "polled cfg env w" and ?r = "render_target (cy_engine env)"
  have env: "env_ok env" "answers cfg env" "readable cfg db w env" "\<not> cy_cursors_fail env" "\<not> cy_vectors_fail env"
    using h by (simp_all add: trouble_free_def)
  have nofail: "cy_upsert_fails env = (\<lambda>a. False)" "cy_save_fails env = (\<lambda>k. False)"
    and ord: "distinct (cy_order env (set xs))" "set (cy_order env (set xs)) = set xs" for xs
    using env(1) by (auto simp: env_ok_def)
  note pe = trouble_free_polled [OF h]
  obtain emb where emb: "cycle_embeddings cfg env w = Some emb" "filter (embedded env emb) ?es = ?es"
    using embed_all [OF env(2) assms(3) pe(2)] .
  let ?accounts = "cy_order env (set (map re_account_id ?es))"
  define w1 where "w1 = w\<lparr>wk_vectors := fold (process_account emb ?r (to_f32 (oc_alpha cfg)) (oc_dims cfg) (\<lambda>a. False) ?es (wk_vectors w))
    ?accounts (wk_vectors w)\<rparr>"
  define w' where "w' = (if ?es = [] then w else fold (advance_cursor env ?es emb) all_kinds w1)"
  have pr: "process_engagements ?accounts False (\<lambda>a. False) ?es emb ?r (to_f32 (oc_alpha cfg)) (oc_dims cfg) w = Some w1"
    by (simp add: process_engagements_eq w1_def)
  have all: "\<forall>e \<in> set ?es. embedded env emb e" using emb(2) unfolding filter_id_conv .
  then have "list_ex (embedded env emb) ?es" if "?es \<noteq> []" using that by (cases ?es) simp_all
  then have cyc: "poll_cycle cfg env w = Some w'"
    using env(4,5) emb(1) pr nofail(1) by (simp add: poll_cycle_def Let_def cycle_embeddings_def w'_def)
  have cur: "wk_cursors w' (kind_str k) = (if take ?n (pending cfg db w k) = [] then wk_cursors w (kind_str k)
      else Some (Max (re_id ` set (take ?n (pending cfg db w k)))))" for k
  proof -
    have "set (filter (\<lambda>e. re_kind e = k) ?es) = set (filter (\<lambda>e. re_kind e = k) (concat (map (\<lambda>k. take ?n (pending cfg db w k)) all_kinds)))"
      by (simp add: pe(1))
    also have "\<dots> = set (take ?n (pending cfg db w k))"
      using readable_rows(3) [OF env(3)] by (intro kind_batch) (blast dest: in_set_takeD)
    finally have kb: "set (filter (\<lambda>e. re_kind e = k) ?es) = set (take ?n (pending cfg db w k))" .
    have fe: "filter (embedded env emb) (filter (\<lambda>e. re_kind e = k) ?es) = filter (\<lambda>e. re_kind e = k) ?es"
      using all unfolding filter_id_conv by simp
    have "filter (\<lambda>e. re_kind e = k) ?es = [] \<longleftrightarrow> take ?n (pending cfg db w k) = []"
      using kb by (metis set_empty)
    then show ?thesis
      using new_cursor [OF nofail(2), of ?es emb w1 k] unfolding Let_def fe
      by (auto simp: w'_def w1_def kb [symmetric])
  qed
  have rows: "rows_ahead db w' k = drop ?n (rows_ahead db w k)" for k
  proof (cases "take ?n (pending cfg db w k) = []")
    case True
    then have "pending cfg db w k = []" using assms(2) by simp
    then have "rows_ahead db w k = []" using readable_rows(2) [OF env(3), of k] by simp
    moreover have "cursor_at w' k = cursor_at w k" using cur [of k] True by (simp add: cursor_at_def)
    ultimately show ?thesis by (simp add: rows_ahead_def)
  next
    case False
    let ?R = "rows_ahead db w k" and ?f = "\<lambda>x :: event_row \<times> db_status \<times> db_account. fst (fst x)"
    have ids: "re_id ` set (take ?n (pending cfg db w k)) = ?f ` set (take ?n ?R)"
      using arg_cong [OF readable_rows(2) [OF env(3), of k], of "\<lambda>xs. set (take ?n xs)"] by (simp add: take_map)
    have ne: "take ?n ?R \<noteq> []"
      using False readable_rows(2) [OF env(3), of k] by auto
    have c': "cursor_at w' k = Max (?f ` set (take ?n ?R))" using cur [of k] False by (simp add: cursor_at_def ids)
    have "Max (?f ` set (take ?n ?R)) \<in> ?f ` set (take ?n ?R)"
      using ne by (intro Max_in finite_imageI finite_set) (simp only: image_is_empty set_empty not_False_eq_True)
    then obtain x where x: "x \<in> set (take ?n ?R)" "Max (?f ` set (take ?n ?R)) = ?f x" by (rule imageE)
    have "x \<in> set (joined db (cursor_at w k) (events_of k db))" using in_set_takeD [OF x(1)] by (simp only: rows_ahead_def set_sort)
    then have "cursor_at w k < ?f x" by (rule joined_above [OF assms(4)])
    then have "cursor_at w k \<le> cursor_at w' k" unfolding c' x(2) by simp
    from rows_ahead_moved [OF assms(4) this] show ?thesis
      unfolding c' filter_beyond_max [OF rows_ahead_sorted [OF assms(4)] ne] .
  qed
  have pend: "pending cfg db w' k = drop ?n (pending cfg db w k)" for k
  proof -
    have "map Some (pending cfg db w' k) = map Some (drop ?n (pending cfg db w k))"
    proof -
      have "readable cfg db w' env" using env(3) unfolding readable_def rows by (blast dest: in_set_dropD)
      from readable_rows(1) [OF this, of k] show ?thesis
        unfolding rows drop_map [symmetric] readable_rows(1) [OF env(3), of k, symmetric] .
    qed
    then show ?thesis by (simp add: inj_map_eq_map)
  qed
  have count: "count_for w' a = count_for w a
      + (\<Sum>k\<leftarrow>all_kinds. int (length (filter (\<lambda>e. re_account_id e = a) (take ?n (pending cfg db w k)))))" for a
  proof -
    have "count_for w' a = count_for w1 a"
      by (simp add: w'_def w1_def count_for_def advance_vectors)
        (use ord [of "[]"] in simp)
    also have "\<dots> = count_for w a + int (length (filter (\<lambda>e. re_account_id e = a) ?es))"
      using process_counts [OF pr ord, of a] unfolding emb(2) [unfolded embedded_def] .
    also have "length (filter (\<lambda>e. re_account_id e = a) ?es)
        = sum_list (map (\<lambda>k. length (filter (\<lambda>e. re_account_id e = a) (take ?n (pending cfg db w k)))) all_kinds)"
      unfolding pe(1) filter_sort by (simp add: length_concat filter_concat comp_def)
    finally show ?thesis by (simp add: all_kinds_def)
  qed
  show thesis using cyc rows pend count by (rule that)
qed

section \<open>Catching up\<close>

text \<open>\<open>trouble_free\<close> stays with the worker: later it has fewer rows to read.\<close>

lemma trouble_free_later:
  assumes "trouble_free cfg db w env" "\<And>k. rows_ahead db w' k = drop n (rows_ahead db w k)"
  shows "trouble_free cfg db w' env"
proof -
  have "readable cfg db w env" using assms(1) by (simp add: trouble_free_def)
  then have "readable cfg db w' env" unfolding readable_def assms(2) by (blast dest: in_set_dropD)
  then show ?thesis using assms(1) by (simp add: trouble_free_def)
qed

definition pending_for :: "orbit_config \<Rightarrow> orbit_db \<Rightarrow> worker \<Rightarrow> int \<Rightarrow> int" where
  "pending_for cfg db w a = (\<Sum>k\<leftarrow>all_kinds. int (length (filter (\<lambda>e. re_account_id e = a) (pending cfg db w k))))"

lemma length_filter_split: "length (filter P xs) = length (filter P (take n xs)) + length (filter P (drop n xs))"
  by (metis append_take_drop_id filter_append length_append)

lemma run_cycles_progress:
  assumes "0 < oc_batch_size cfg" "0 < oc_tei_batch_size cfg" "orbit_keys db"
  shows "\<forall>env \<in> set envs. trouble_free cfg db w env \<Longrightarrow>
    \<exists>w'. run_cycles cfg envs w = Some w' \<and> (\<forall>k. pending cfg db w' k = drop (length envs * oc_batch_size cfg) (pending cfg db w k))
      \<and> (\<forall>a. count_for w' a + pending_for cfg db w' a = count_for w a + pending_for cfg db w a)"
proof (induction envs arbitrary: w)
  case (Cons env envs)
  let ?n = "oc_batch_size cfg"
  have "trouble_free cfg db w env" using Cons.prems by simp
  then obtain w1 where w1: "poll_cycle cfg env w = Some w1" "\<And>k. rows_ahead db w1 k = drop ?n (rows_ahead db w k)"
      "\<And>k. pending cfg db w1 k = drop ?n (pending cfg db w k)"
      "\<And>a. count_for w1 a = count_for w a
         + (\<Sum>k\<leftarrow>all_kinds. int (length (filter (\<lambda>e. re_account_id e = a) (take ?n (pending cfg db w k)))))"
    using trouble_free_cycle assms by metis
  have later: "\<forall>env \<in> set envs. trouble_free cfg db w1 env" using Cons.prems trouble_free_later [OF _ w1(2)] by simp
  obtain w' where w': "run_cycles cfg envs w1 = Some w'"
      "\<forall>k. pending cfg db w' k = drop (length envs * ?n) (pending cfg db w1 k)"
      "\<forall>a. count_for w' a + pending_for cfg db w' a = count_for w1 a + pending_for cfg db w1 a"
    using Cons.IH [OF later] by blast
  have one: "count_for w1 a + pending_for cfg db w1 a = count_for w a + pending_for cfg db w a" for a
    using length_filter_split [of "\<lambda>e. re_account_id e = a" "pending cfg db w k" ?n for k]
    by (simp add: pending_for_def w1(3,4) all_kinds_def)
  show ?case using w1(1,3) w' one by (auto simp: add.commute)
qed simp

section \<open>Property\<close>

text \<open>
  The worker catches up: after enough cycles in which nothing fails, no engagement is left ahead
  of a cursor, and every account's count has grown by exactly the number of its engagements that
  were ahead before. Enough is the longest backlog of a source divided by the batch size.
\<close>

theorem orbit_catches_up:
  assumes "0 < oc_batch_size cfg" "0 < oc_tei_batch_size cfg" "orbit_keys db" "\<forall>env \<in> set envs. trouble_free cfg db w env"
    and "\<forall>k. length (pending cfg db w k) \<le> length envs * oc_batch_size cfg"
  shows "\<exists>w'. run_cycles cfg envs w = Some w' \<and> (\<forall>k. pending cfg db w' k = [])
    \<and> (\<forall>a. count_for w' a = count_for w a
         + (\<Sum>k\<leftarrow>all_kinds. int (length (filter (\<lambda>e. re_account_id e = a) (pending cfg db w k)))))"
proof -
  obtain w' where w': "run_cycles cfg envs w = Some w'"
      "\<forall>k. pending cfg db w' k = drop (length envs * oc_batch_size cfg) (pending cfg db w k)"
      "\<forall>a. count_for w' a + pending_for cfg db w' a = count_for w a + pending_for cfg db w a"
    using run_cycles_progress [OF assms(1-4)] by blast
  then have none: "\<forall>k. pending cfg db w' k = []" using assms(5) by simp
  then have "pending_for cfg db w' a = 0" for a by (simp add: pending_for_def all_kinds_def)
  then show ?thesis using w'(1,3) none by (auto simp: pending_for_def)
qed

text \<open>The two favourites of \<open>note_db\<close>, one per cycle.\<close>

definition slow_config :: orbit_config where
  "slow_config = note_config\<lparr>oc_batch_size := 1\<rparr>"

lemma note_pending:
  "map (\<lambda>k. map re_id (pending slow_config note_db fresh_worker k)) all_kinds = [[4, 5], [], [], []]"
  "(\<Sum>k\<leftarrow>all_kinds. int (length (filter (\<lambda>e. re_account_id e = 1) (pending slow_config note_db fresh_worker k)))) = 2"
  by code_simp+

lemma note_trouble_free: "trouble_free slow_config note_db fresh_worker (note_env (\<lambda>ts. False))"
proof -
  let ?env = "note_env (\<lambda>ts. False)"
  have "tei_client slow_config ?env n ts = Some (map (\<lambda>t. [Fin 0]) ts)" for n ts
    by (simp add: tei_client_def embed_batch_def note_env_def inputs_of_def map_filter_map_filter comp_def)
      (induction ts; simp add: map_filter_simps)
  then have "answers slow_config ?env" by (simp add: answers_def)
  moreover have "readable slow_config note_db fresh_worker ?env"
  proof -
    let ?g = "\<lambda>k x. case (case x of (ev, s, author) \<Rightarrow> row_engagement k note_db (oc_domain slow_config) ev s author) of
      None \<Rightarrow> False | Some e \<Rightarrow> render_target (cy_engine ?env) (re_target e) \<noteq> []"
    have "list_all (\<lambda>k. list_all (?g k) (rows_ahead note_db fresh_worker k)) all_kinds" by code_simp
    moreover have "k \<in> set all_kinds" for k by (cases k) (simp_all add: all_kinds_def)
    ultimately have "?g k x" if "x \<in> set (rows_ahead note_db fresh_worker k)" for k x
      using that unfolding list_all_iff by blast
    then show ?thesis unfolding readable_def by (fastforce split: option.splits)
  qed
  moreover have "cy_db ?env = (\<lambda>k. Some note_db)" "\<not> cy_cursors_fail ?env" "\<not> cy_vectors_fail ?env"
    by (simp_all add: note_env_def)
  ultimately show ?thesis using note_env_ok unfolding trouble_free_def by blast
qed

lemma note_short: "\<forall>k. length (pending slow_config note_db fresh_worker k) \<le> 2"
proof
  fix k
  have "k \<in> set all_kinds" by (cases k) (simp_all add: all_kinds_def)
  then show "length (pending slow_config note_db fresh_worker k) \<le> 2"
    using note_pending(1) by (auto simp: all_kinds_def dest: arg_cong [where f = length])
qed

theorem orbit_catches_up_witness:
  "\<exists>w'. run_cycles slow_config (replicate 2 (note_env (\<lambda>ts. False))) fresh_worker = Some w' \<and> count_for w' 1 = 2"
proof -
  have keys: "orbit_keys note_db" using note_env_ok by (simp add: env_ok_def tables_keyed_def note_env_def)
  have cfg: "oc_batch_size slow_config = 1" "oc_tei_batch_size slow_config = 1" by (simp_all add: slow_config_def note_config_def)
  have "count_for fresh_worker 1 = 0" by (simp add: count_for_def fresh_worker_def)
  then show ?thesis
    using orbit_catches_up [of slow_config note_db "replicate 2 (note_env (\<lambda>ts. False))" fresh_worker]
      cfg keys note_trouble_free note_short note_pending(2) by auto
qed

end
