(* ===== verification/Startup.thy ===== *)
theory Startup
  imports Setup Orbit_Progress Registry Server
begin

text \<open>
  The three programs from their command line: the server (\<open>apps/server/src/main.rs\<close>, \<open>state.rs\<close>), the
  orbit worker (\<open>workers/orbit/src/main.rs\<close>) and the operator's tool (\<open>apps/cli/src/main.rs\<close>), with the
  checks they make before they begin. Signals, logging and the metrics exporter are left out.
\<close>

section \<open>The server\<close>

datatype start_error =
    Usage usage_error
  | Refused string              \<comment> \<open>an \<open>ensure!\<close>\<close>
  | Panic_At string             \<comment> \<open>an \<open>expect\<close>\<close>
  | Init_Failed

record server_args =
  sa_db :: database_config
  sa_redis :: redis_config
  sa_instance :: instance_config
  sa_model_name :: string

definition read_server_args :: "(string \<Rightarrow> bool option) \<Rightarrow> settings \<Rightarrow> usage_error + server_args" where
  "read_server_args flag st =
     and_opt (database_options st) (\<lambda>db.
     and_opt (redis_options st) (\<lambda>rd.
     and_opt (instance_options flag st) (\<lambda>inst.
     and_opt (default_to ''bge_small_64d'' Some st ''orbit-model-name'' ''ORBIT_MODEL_NAME'') (\<lambda>model.
       Inr \<lparr>sa_db = db, sa_redis = rd, sa_instance = inst, sa_model_name = model\<rparr>))))"

text \<open>\<open>Cache::new\<close> and \<open>AppStateInner::new\<close>: what the handlers share, with the settings of the HTTP client.\<close>

record http_settings =
  hc_timeout_secs :: nat
  hc_connect_timeout_secs :: nat
  hc_redirects :: bool
  hc_headers :: "(string \<times> string) list"

record server =
  sv_state :: app_state
  sv_pool :: pool
  sv_cache :: "string \<times> string"     \<comment> \<open>connection and prefix\<close>
  sv_mastodon_url :: "string option"
  sv_client :: http_settings
  sv_address :: string
  sv_body_limit :: nat

definition app_state_new :: "media_config \<Rightarrow> string \<Rightarrow> string \<Rightarrow> app_state" where
  "app_state_new media model instance_domain =
     \<lparr>as_instance_domain = instance_domain, as_media = media, as_model_name = model\<rparr>"

definition http_client :: http_settings where
  "http_client = \<lparr>hc_timeout_secs = 10, hc_connect_timeout_secs = 5, hc_redirects = False,
     hc_headers = [(''x-forwarded-proto'', ''https'')]\<rparr>"

definition expect :: "string \<Rightarrow> 'e + 'a \<Rightarrow> start_error + 'a" where
  "expect msg r = map_sum (\<lambda>e. Panic_At msg) id r"

definition server_start :: "net \<Rightarrow> (string \<Rightarrow> bool) \<Rightarrow> (string \<Rightarrow> bool option) \<Rightarrow> settings \<Rightarrow> start_error + server" where
  "server_start net binds flag st =
     and_opt (map_sum Usage id (read_server_args flag st)) (\<lambda>args.
     and_opt (expect ''failed to connect to database'' (db_connect net (sa_db args))) (\<lambda>p.
     and_opt (expect ''database check failed'' (db_check net p)) (\<lambda>_.
     and_opt (expect ''failed to connect to redis'' (redis_connect net (sa_redis args))) (\<lambda>rc.
     and_opt (expect ''redis check failed'' (redis_check net rc)) (\<lambda>_.
       let inst = sa_instance args;
           media = media_config_new (unwrap_or (in_media_host inst) (in_domain inst)) (in_s3_enabled inst);
           addr = in_host inst @ '':'' @ show_nat (in_port inst)
       in if \<not> binds addr then Inl (Panic_At ''failed to bind'')
          else Inr \<lparr>sv_state = app_state_new media (sa_model_name args) (in_domain inst), sv_pool = p,
                 sv_cache = (rc, ''fediway''), sv_mastodon_url = in_mastodon_api_url inst, sv_client = http_client,
                 sv_address = addr, sv_body_limit = 1048576\<rparr>)))))"

section \<open>The orbit worker\<close>

record orbit_args =
  oa_db :: database_config
  oa_tei :: tei_config
  oa_orbit :: orbit_options
  oa_domain :: string
  oa_metrics_port :: "nat option"
  oa_fresh :: bool

definition read_orbit_args :: "(string \<Rightarrow> bool option) \<Rightarrow> settings \<Rightarrow> usage_error + orbit_args" where
  "read_orbit_args flag st =
     and_opt (database_options st) (\<lambda>db.
     and_opt (tei_options st) (\<lambda>tei.
     and_opt (read_orbit_options st) (\<lambda>orb.
     and_opt (required st ''instance-domain'' ''INSTANCE_DOMAIN'') (\<lambda>domain_name.
     and_opt (optional u16_value st ''metrics-port'' ''METRICS_PORT'') (\<lambda>mport.
     and_opt (flag_option flag st ''fresh'' ''ORBIT_FRESH'') (\<lambda>fresh.
       Inr \<lparr>oa_db = db, oa_tei = tei, oa_orbit = orb, oa_domain = domain_name, oa_metrics_port = mport, oa_fresh = fresh\<rparr>))))))"

definition orbit_checks :: "orbit_options \<Rightarrow> start_error + unit" where
  "orbit_checks opts =
     (if orbit_dims opts = 0 then Inl (Refused ''orbit_dims must be > 0'')
      else if \<not> fl_lt (Fin 0) (orbit_alpha opts) then Inl (Refused ''orbit_alpha must be > 0'')
      else if orbit_poll_interval_secs opts = 0 then Inl (Refused ''orbit_poll_interval_secs must be > 0'')
      else if orbit_batch_size opts \<le> 0 then Inl (Refused ''orbit_batch_size must be > 0'')
      else Inr ())"

definition config_of_args :: "orbit_args \<Rightarrow> orbit_config" where
  "config_of_args args =
     \<lparr>oc_alpha = orbit_alpha (oa_orbit args), oc_dims = orbit_dims (oa_orbit args),
      oc_batch_size = nat (orbit_batch_size (oa_orbit args)), oc_tei_url = tei_url (oa_tei args),
      oc_tei_batch_size = tei_batch_size (oa_tei args), oc_domain = oa_domain args\<rparr>"

text \<open>What the start meets: failures of the two wipes and of the statements that set the first cursors.\<close>

record start_env =
  se_wipe_cursors_fails :: bool
  se_wipe_vectors_fails :: bool
  se_load_fails :: "engagement_kind \<Rightarrow> bool"
  se_db :: "engagement_kind \<Rightarrow> orbit_db option"
  se_save_fails :: "engagement_kind \<Rightarrow> bool"
  se_now :: instant

text \<open>The two wipes are statements of their own, so a failure of the second leaves the first done.\<close>

definition fresh_start :: "start_env \<Rightarrow> bool \<Rightarrow> worker \<Rightarrow> (start_error + unit) \<times> worker" where
  "fresh_start env fresh w =
     (if \<not> fresh then (Inr (), w)
      else if se_wipe_cursors_fails env then (Inl (Panic_At ''failed to wipe orbit_cursors''), w)
      else let w1 = wipe_cursors w
           in if se_wipe_vectors_fails env then (Inl (Panic_At ''failed to wipe orbit_user_vectors''), w1)
              else (Inr (), wipe_vectors w1))"

definition orbit_start :: "net \<Rightarrow> start_env \<Rightarrow> (string \<Rightarrow> bool option) \<Rightarrow> settings \<Rightarrow> worker
    \<Rightarrow> start_error + orbit_config \<times> worker" where
  "orbit_start net env flag st w =
     and_opt (map_sum Usage id (read_orbit_args flag st)) (\<lambda>args.
     and_opt (orbit_checks (oa_orbit args)) (\<lambda>_.
     and_opt (expect ''failed to connect to database'' (db_connect net (oa_db args))) (\<lambda>p.
     and_opt (expect ''database check failed'' (db_check net p)) (\<lambda>_.
       case fresh_start env (oa_fresh args) w of
         (Inl e, w1) \<Rightarrow> Inl e
       | (Inr _, w1) \<Rightarrow>
           (case init_cursors (se_load_fails env) (se_db env) (se_save_fails env) (se_now env)
                   (orbit_replay_hours (oa_orbit args)) w1 of
              None \<Rightarrow> Inl Init_Failed
            | Some w' \<Rightarrow> Inr (config_of_args args, w'))))))"

section \<open>The operator's tool\<close>

datatype provider_command =
    PC_List
  | PC_Info string
  | PC_Add string
  | PC_Register string string string
  | PC_Status string

datatype feedctl_command =
    Migrate
  | Provider provider_command
  | Enable string string string
  | Disable string string string

datatype feedctl_error = Connection connect_error | Migration_Failed | Command_Failed cli_error

type_synonym feedctl_result = "(feedctl_error + string list) \<times> registry"

definition run_command :: "string list command \<Rightarrow> feedctl_result" where
  "run_command c = map_prod (map_sum Command_Failed id) id c"

text \<open>The connection is opened and tried; a failure leaves the registry as it is.\<close>

definition with_db :: "net \<Rightarrow> database_config \<Rightarrow> registry \<Rightarrow> (registry \<Rightarrow> feedctl_result) \<Rightarrow> feedctl_result" where
  "with_db net conf db k =
     (case and_opt (db_connect net conf) (db_check net) of
        Inl e \<Rightarrow> (Inl (Connection e), db) | Inr _ \<Rightarrow> k db)"

record feedctl_env =
  fe_net :: net
  fe_web :: web
  fe_order :: "provider_row list \<Rightarrow> provider_row list"
  fe_migrates :: bool

definition run_provider_command :: "feedctl_env \<Rightarrow> database_config \<Rightarrow> provider_command \<Rightarrow> registry \<Rightarrow> feedctl_result" where
  "run_provider_command env conf cmd db =
     (case cmd of
        PC_Info d \<Rightarrow> run_command (cli_info (fe_web env) d db)
      | PC_List \<Rightarrow> with_db (fe_net env) conf db (\<lambda>db. (Inr (cli_list (fe_order env) db), db))
      | PC_Add d \<Rightarrow> with_db (fe_net env) conf db (\<lambda>db. run_command (cli_add (fe_web env) d db))
      | PC_Register d inst name \<Rightarrow> with_db (fe_net env) conf db (\<lambda>db. run_command (cli_register (fe_web env) d inst name db))
      | PC_Status d \<Rightarrow> with_db (fe_net env) conf db (\<lambda>db. run_command (cli_status (fe_web env) d db)))"

definition feedctl :: "feedctl_env \<Rightarrow> database_config \<Rightarrow> feedctl_command \<Rightarrow> registry \<Rightarrow> feedctl_result" where
  "feedctl env conf cmd db =
     (case cmd of
        Migrate \<Rightarrow> with_db (fe_net env) conf db (\<lambda>db.
          (if fe_migrates env then Inr [''migrations complete''] else Inl Migration_Failed, db))
      | Provider c \<Rightarrow> run_provider_command env conf c db
      | Enable route d capability \<Rightarrow>
          if parse_capability capability = None then (Inl (Command_Failed Bad_Capability), db)
          else with_db (fe_net env) conf db (\<lambda>db. run_command (cli_enable route d capability db))
      | Disable route d capability \<Rightarrow>
          if parse_capability capability = None then (Inl (Command_Failed Bad_Capability), db)
          else with_db (fe_net env) conf db (\<lambda>db. run_command (cli_disable route d capability db)))"

section \<open>Commands as steps of the registry\<close>

definition world_of :: "(string \<times> string) list \<Rightarrow> registry \<Rightarrow> world" where
  "world_of us db = \<lparr>wd_registry = db, wd_updates = us\<rparr>"

definition steps_by :: "(string \<times> string) list \<Rightarrow> registry \<Rightarrow> registry \<Rightarrow> bool" where
  "steps_by us db db' \<longleftrightarrow> registry_step\<^sup>*\<^sup>* (world_of us db) (world_of us db')"

lemma steps_refl [simp]: "steps_by us db db"
  by (simp add: steps_by_def)

lemma steps_trans: "steps_by us db db1 \<Longrightarrow> steps_by us db1 db2 \<Longrightarrow> steps_by us db db2"
  unfolding steps_by_def by (rule rtranclp_trans)

lemma steps_statement:
  assumes "\<And>db'. f db = Inr db' \<Longrightarrow> steps_by us db db'"
  shows "steps_by us db (snd (statement f db))"
  using assms by (cases "f db") (simp_all add: statement_def)

lemma steps_and_then:
  assumes "steps_by us db (snd c)" "\<And>x db1. c = (Inr x, db1) \<Longrightarrow> steps_by us db1 (snd (f x db1))"
  shows "steps_by us db (snd (and_then c f))"
proof -
  obtain r db1 where c: "c = (r, db1)" by (cases c)
  show ?thesis
  proof (cases r)
    case (Inl e)
    then show ?thesis using assms(1) c by (simp add: and_then_def)
  next
    case (Inr x)
    then show ?thesis using steps_trans assms c by (fastforce simp: and_then_def)
  qed
qed

lemma steps_say: "steps_by us db (snd c) \<Longrightarrow> steps_by us db (snd (say out c))"
  unfolding say_def by (rule steps_and_then) simp_all

lemma one_step: "registry_step (world_of us db) (world_of us db') \<Longrightarrow> steps_by us db db'"
  by (simp add: steps_by_def r_into_rtranclp)

lemma step_provider: "upsert_provider d n u m db = Inr db' \<Longrightarrow> steps_by us db db'"
  using registry_step.provider [of d n u m "world_of us db" db'] by (auto intro!: one_step simp: world_of_def)

lemma step_capability: "upsert_capability cap db = Inr db' \<Longrightarrow> steps_by us db db'"
  using registry_step.capability [of cap "world_of us db" db'] by (auto intro!: one_step simp: world_of_def)

lemma step_registration: "save_registration d key req st path db = Inr db' \<Longrightarrow> steps_by us db db'"
  using registry_step.registration [of d key req st path "world_of us db" db'] by (auto intro!: one_step simp: world_of_def)

lemma step_enable: "enable_source route d resource alg db = Inr db' \<Longrightarrow> steps_by us db db'"
  using registry_step.enable [of route d resource alg "world_of us db" db'] by (auto intro!: one_step simp: world_of_def)

lemma step_disable: "disable_source route d alg db = (n, db') \<Longrightarrow> steps_by us db db'"
  using registry_step.disable [of route d alg "world_of us db" n db'] by (auto intro!: one_step simp: world_of_def)

text \<open>Reading the key, asking the provider and writing the status are two steps.\<close>

lemma step_status:
  fixes web :: web
  assumes "find_registration d db = Some rn" "rn_api_key rn = Some key"
    "web_status web (u @ ''/register/status'') key = Some resp" "update_status d (sr_status resp) db = Inr db'"
  shows "steps_by us db db'"
proof -
  let ?w = "world_of us db" and ?us = "(d, sr_status resp) # us"
  have "registry_step ?w (?w\<lparr>wd_updates := (d, sr_status resp) # wd_updates ?w\<rparr>)"
    by (rule registry_step.status [where rn = rn and key = key and u = u and web = web]) (use assms in \<open>simp_all add: world_of_def\<close>)
  then have 1: "registry_step ?w (world_of ?us db)" by (simp add: world_of_def)
  have "registry_step (world_of ?us db)
      (world_of ?us db\<lparr>wd_registry := db', wd_updates := remove1 (d, sr_status resp) (wd_updates (world_of ?us db))\<rparr>)"
    by (rule registry_step.update) (use assms(4) in \<open>simp_all add: world_of_def\<close>)
  then have "registry_step (world_of ?us db) (world_of us db')" by (simp add: world_of_def)
  with 1 show ?thesis unfolding steps_by_def by (meson converse_rtranclp_into_rtranclp r_into_rtranclp)
qed

lemmas command_steps = steps_and_then steps_say steps_statement
lemmas statement_steps = step_provider step_capability step_registration step_enable step_disable

lemma steps_statements:
  assumes "\<And>f db db'. f \<in> set fs \<Longrightarrow> f db = Inr db' \<Longrightarrow> steps_by us db db'"
  shows "steps_by us db (snd (statements fs db))"
  using assms
proof (induction fs arbitrary: db)
  case (Cons f fs)
  show ?case unfolding statements.simps
    by (intro steps_and_then steps_statement) (use Cons in auto)
qed simp

lemma steps_fetch: "fetch_well_known web d db = (r, db') \<Longrightarrow> db' = db"
  by (auto simp: fetch_well_known_def split: option.splits)

lemma steps_sync: "steps_by us db (snd (sync_provider web d db))"
  unfolding sync_provider_def
proof (intro steps_and_then)
  show "steps_by us db (snd (fetch_well_known web d db))" by (metis steps_fetch steps_refl prod.collapse)
next
  fix wk db1
  show "steps_by us db1 (snd (statement (upsert_provider (wk_domain wk) (wk_name wk) (wk_base_url wk) (wk_max_results wk)) db1))"
    by (intro steps_statement step_provider)
next
  fix wk :: well_known and db1
  show "steps_by us db1 (snd (statements (map (\<lambda>cap. upsert_capability (capability_of wk cap)) (wk_capabilities wk)) db1))"
    by (rule steps_statements) (auto dest: step_capability)
qed simp

lemma steps_register: "steps_by us db (snd (cli_register web d inst name db))"
  unfolding cli_register_def
  by (rule steps_and_then [OF steps_sync]) (auto intro!: command_steps intro: statement_steps split: option.split)

lemma steps_status: "steps_by us db (snd (cli_status web d db))"
  unfolding cli_status_def
  by (rule steps_and_then [OF steps_sync])
    (auto intro!: steps_say steps_statement elim: step_status split: option.split)

lemma steps_resolve: "snd (resolve_domain d db) = db"
  by (simp add: resolve_domain_def Let_def split: option.split)

lemma steps_enable: "steps_by us db (snd (cli_enable route d capability db))"
proof (cases "parse_capability capability")
  case (Some c)
  then show ?thesis unfolding cli_enable_def Some option.case
    by (cases c) (auto intro!: command_steps intro: statement_steps simp: steps_resolve)
qed (simp add: cli_enable_def)

lemma steps_disable: "steps_by us db (snd (cli_disable route d capability db))"
proof (cases "parse_capability capability")
  case (Some c)
  then show ?thesis unfolding cli_disable_def Some option.case
    by (cases c) (auto intro!: steps_and_then simp: steps_resolve Let_def dest: step_disable split: prod.split)
qed (simp add: cli_disable_def)

lemma steps_run: "steps_by us db (snd (run_command c)) \<longleftrightarrow> steps_by us db (snd c)"
  by (simp add: run_command_def map_prod_def case_prod_unfold)

lemma steps_with_db: "(\<And>db. steps_by us db (snd (k db))) \<Longrightarrow> steps_by us db (snd (with_db net conf db k))"
  by (simp add: with_db_def split: sum.split)

lemma feedctl_steps: "steps_by us db (snd (feedctl env conf cmd db))"
proof -
  have add: "steps_by us db (snd (cli_add web d db))" for web d db
    unfolding cli_add_def by (rule steps_and_then [OF steps_sync]) simp
  have info: "steps_by us db (snd (cli_info web d db))" for web d db
    unfolding cli_info_def by (rule steps_and_then) (metis steps_fetch steps_refl prod.collapse, simp)
  have "steps_by us db (snd (run_provider_command env conf c db))" for c
    by (cases c) (auto simp: run_provider_command_def steps_run add info steps_register steps_status intro!: steps_with_db)
  then show ?thesis
    by (cases cmd) (auto simp: feedctl_def steps_run steps_enable steps_disable intro!: steps_with_db)
qed

lemma rtranclp_reachable: "registry_step\<^sup>*\<^sup>* w w' \<Longrightarrow> registry_reachable w \<Longrightarrow> registry_reachable w'"
  by (induction rule: rtranclp_induct) (auto intro: registry_reachable.step)

section \<open>Panics of the worker\<close>

text \<open>A cycle panics on a batch size of nothing when it has texts to cut into batches, and never else.\<close>

lemma poll_cycle_panics:
  "poll_cycle cfg env w = None \<longleftrightarrow> oc_tei_batch_size cfg = 0 \<and> \<not> cy_cursors_fail env \<and> polled cfg env w \<noteq> []"
  by (auto simp: poll_cycle_def embed_engagements_def Let_def split: if_splits option.splits)

lemma run_cycles_total: "oc_tei_batch_size cfg \<noteq> 0 \<Longrightarrow> run_cycles cfg envs w \<noteq> None"
proof (induction envs arbitrary: w)
  case (Cons env envs)
  then show ?case by (cases "poll_cycle cfg env w") (simp_all add: poll_cycle_panics)
qed simp

lemma orbit_start_checked:
  assumes "orbit_start net env flag st w = Inr (cfg, w')"
  shows "0 < oc_dims cfg \<and> fl_lt (Fin 0) (oc_alpha cfg) \<and> 0 < oc_batch_size cfg"
    and "\<exists>args. read_orbit_args flag st = Inr args \<and> cfg = config_of_args args
      \<and> (\<exists>w1. fresh_start env (oa_fresh args) w = (Inr (), w1)
           \<and> init_cursors (se_load_fails env) (se_db env) (se_save_fails env) (se_now env)
               (orbit_replay_hours (oa_orbit args)) w1 = Some w')"
proof -
  obtain args w1 where a: "read_orbit_args flag st = Inr args" "orbit_checks (oa_orbit args) = Inr ()"
      "fresh_start env (oa_fresh args) w = (Inr (), w1)"
      "init_cursors (se_load_fails env) (se_db env) (se_save_fails env) (se_now env) (orbit_replay_hours (oa_orbit args)) w1 = Some w'"
      "cfg = config_of_args args"
    using assms by (auto simp: orbit_start_def and_opt_Inr map_sum_def split: sum.splits option.splits prod.splits)
  then show "0 < oc_dims cfg \<and> fl_lt (Fin 0) (oc_alpha cfg) \<and> 0 < oc_batch_size cfg"
    by (auto simp: orbit_checks_def config_of_args_def split: if_splits)
  show "\<exists>args. read_orbit_args flag st = Inr args \<and> cfg = config_of_args args
      \<and> (\<exists>w1. fresh_start env (oa_fresh args) w = (Inr (), w1)
           \<and> init_cursors (se_load_fails env) (se_db env) (se_save_fails env) (se_now env)
               (orbit_replay_hours (oa_orbit args)) w1 = Some w')"
    using a by blast
qed

lemma init_cursors_from_start:
  "wk_cursors w = Map.empty \<Longrightarrow> init_cursors_from lf db sf now 0 ks w = Some w' \<Longrightarrow> w' = w"
  by (induction ks) (auto simp: load_cursor_def init_cursor_def split: if_splits)

lemma orbit_started_fresh:
  assumes "orbit_start net env flag st w0 = Inr (cfg, w)" "read_orbit_args flag st = Inr args"
    "oa_fresh args" "orbit_replay_hours (oa_orbit args) = 0"
  shows "w = fresh_worker"
proof -
  obtain w1 where w1: "fresh_start env True w0 = (Inr (), w1)"
      "init_cursors (se_load_fails env) (se_db env) (se_save_fails env) (se_now env) 0 w1 = Some w"
    using orbit_start_checked(2) [OF assms(1)] assms(2-4) by auto
  then have "w1 = fresh_worker"
    by (auto simp: fresh_start_def fresh_worker_def wipe_vectors_def wipe_cursors_def Let_def split: if_splits)
  then show ?thesis using init_cursors_from_start [of w1] w1(2) by (simp add: init_cursors_def fresh_worker_def)
qed

text \<open>
  When the second wipe fails the worker stops with the cursors gone and the vectors kept: started
  again without \<open>--fresh\<close> and with nothing failing, it counts every engagement of the tables on top
  of what was counted before.
\<close>

lemma half_wiped_counts_again:
  assumes "fresh_start env True w = (Inl e, w1)" "\<not> se_wipe_cursors_fails env"
    and "0 < oc_batch_size cfg" "0 < oc_tei_batch_size cfg" "orbit_keys db"
    and "\<forall>cy \<in> set cycles. trouble_free cfg db w1 cy"
    and "\<forall>k. length (pending cfg db fresh_worker k) \<le> length cycles * oc_batch_size cfg"
  shows "\<exists>w'. run_cycles cfg cycles w1 = Some w' \<and> (\<forall>a. count_for w' a = count_for w a + pending_for cfg db fresh_worker a)"
proof -
  have w1: "w1 = wipe_cursors w" using assms(1,2) by (auto simp: fresh_start_def Let_def split: if_splits)
  have p: "pending cfg db w1 k = pending cfg db fresh_worker k" for k
    by (simp add: w1 pending_def rows_ahead_def cursor_at_def wipe_cursors_def fresh_worker_def)
  obtain w' where w': "run_cycles cfg cycles w1 = Some w'" "\<forall>k. pending cfg db w' k = []"
      "\<forall>a. count_for w' a + pending_for cfg db w' a = count_for w1 a + pending_for cfg db w1 a"
    using run_cycles_progress [OF assms(3-6)] assms(7) p by auto
  moreover have "count_for w1 a = count_for w a" for a by (simp add: w1 count_for_def wipe_cursors_def)
  moreover have "pending_for cfg db w' a = 0" "pending_for cfg db w1 a = pending_for cfg db fresh_worker a" for a
    using w'(2) p by (simp_all add: pending_for_def all_kinds_def)
  ultimately show ?thesis by auto
qed

section \<open>A started server\<close>

lemma server_started:
  assumes "server_start net binds flag st = Inr sv"
  shows "\<exists>args. read_server_args flag st = Inr args \<and> db_connect net (sa_db args) = Inr (sv_pool sv)
    \<and> nt_pg_check net (sv_pool sv) \<and> nt_redis_ping net (fst (sv_cache sv)) \<and> binds (sv_address sv)
    \<and> as_instance_domain (sv_state sv) = in_domain (sa_instance args)
    \<and> as_media (sv_state sv) = media_config_new (unwrap_or (in_media_host (sa_instance args)) (in_domain (sa_instance args)))
        (in_s3_enabled (sa_instance args))"
  using assms
  by (auto simp: server_start_def expect_def and_opt_Inr map_sum_def db_check_def redis_check_def redis_connect_def
      app_state_new_def Let_def split: sum.splits if_splits)

section \<open>Properties\<close>

text \<open>
  C9: Whatever command the operator runs, with whatever answers and failures in between, the registry
  goes through the steps of \<open>Registry\<close> only, so that afterwards the sources of every route can be
  read and are those of enabled rows of approved providers.
\<close>

theorem feedctl_keeps_readable:
  assumes "registry_reachable \<lparr>wd_registry = db, wd_updates = us\<rparr>" "feedctl env conf cmd db = (r, db')"
  shows "registry_step\<^sup>*\<^sup>* \<lparr>wd_registry = db, wd_updates = us\<rparr> \<lparr>wd_registry = db', wd_updates = us\<rparr>
    \<and> (\<exists>bs. find_sources route db' = Inr bs \<and> list_all2 (bound_to db') (filter (active route db') (rg_sources db')) bs)"
proof -
  have steps: "registry_step\<^sup>*\<^sup>* \<lparr>wd_registry = db, wd_updates = us\<rparr> \<lparr>wd_registry = db', wd_updates = us\<rparr>"
    using feedctl_steps [of us db env conf cmd] assms(2) by (simp add: steps_by_def world_of_def)
  then have "registry_reachable \<lparr>wd_registry = db', wd_updates = us\<rparr>" using rtranclp_reachable assms(1) by blast
  then have "registry_ok db'" using registry_reachable_ok by (fastforce simp: world_ok_def)
  then show ?thesis using steps find_sources_bound by blast
qed

text \<open>
  C6: Started with \<open>--fresh\<close> and \<open>ORBIT_REPLAY_HOURS=0\<close> and a \<open>TEI_BATCH_SIZE\<close> other than 0, a worker
  that passes its checks never panics, and after enough cycles without failures it has counted, for
  every account, exactly its engagements in Mastodon's tables (their ids being positive, those
  beyond cursor 0). The checks do not exclude a batch size of 0, with which it would panic
  (\<open>poll_cycle_panics\<close>).
\<close>

theorem orbit_fresh_counts_all:
  assumes "orbit_start net env flag st w0 = Inr (cfg, w)" "read_orbit_args flag st = Inr args"
    "oa_fresh args" "orbit_replay_hours (oa_orbit args) = 0" "tei_batch_size (oa_tei args) \<noteq> 0"
    "orbit_keys db" "\<forall>cy \<in> set cycles. trouble_free cfg db fresh_worker cy"
    "\<forall>k. length (pending cfg db fresh_worker k) \<le> length cycles * oc_batch_size cfg"
  shows "(\<forall>envs. run_cycles cfg envs w \<noteq> None)
    \<and> (\<exists>w'. run_cycles cfg cycles w = Some w' \<and> (\<forall>a. count_for w' a
         = (\<Sum>k\<leftarrow>all_kinds. int (length (filter (\<lambda>e. re_account_id e = a) (pending cfg db fresh_worker k))))))"
proof -
  have w: "w = fresh_worker" using orbit_started_fresh [OF assms(1-4)] .
  have cfg: "0 < oc_batch_size cfg" "cfg = config_of_args args"
    using orbit_start_checked [OF assms(1)] assms(2) by auto
  then have tei: "0 < oc_tei_batch_size cfg" using assms(5) by (simp add: config_of_args_def)
  obtain w' where "run_cycles cfg cycles w = Some w'"
      "\<forall>a. count_for w' a + pending_for cfg db w' a = count_for w a + pending_for cfg db w a"
      "\<forall>k. pending cfg db w' k = []"
    using run_cycles_progress [OF cfg(1) tei assms(6,7)] assms(8) unfolding w by auto
  moreover have "count_for w a = 0" for a by (simp add: w count_for_def fresh_worker_def)
  ultimately show ?thesis
    using run_cycles_total tei by (auto simp: pending_for_def all_kinds_def w)
qed

section \<open>Examples\<close>

definition open_net :: net where
  "open_net = \<lparr>nt_ssl_mode = (\<lambda>m. m = ''prefer''), nt_pg_url = (\<lambda>u. True), nt_pg_open = (\<lambda>p. True), nt_pg_check = (\<lambda>p. True),
     nt_redis_open = (\<lambda>u. True), nt_redis_ping = (\<lambda>u. True)\<rparr>"

definition demo_database :: database_config where
  "demo_database = \<lparr>db_host = ''localhost'', db_port = 5432, db_name = ''mastodon_development'', db_user = ''mastodon'',
     db_pass = None, db_pool_size = 10, db_pool_min = 2, db_acquire_timeout_secs = 3, db_idle_timeout_secs = 600,
     db_max_lifetime_secs = 1800, db_statement_timeout_secs = 30, db_ssl_mode = ''prefer''\<rparr>"

definition demo_feedctl :: feedctl_env where
  "demo_feedctl = \<lparr>fe_net = open_net, fe_web = demo_web, fe_order = id, fe_migrates = True\<rparr>"

lemma open_db: "with_db open_net demo_database db k = k db"
  by (simp add: with_db_def and_opt_def db_connect_def db_check_def open_net_def demo_database_def)

theorem feedctl_keeps_readable_witness:
  "find_sources ''timelines/tag'' (snd (feedctl demo_feedctl demo_database
     (Disable ''timelines/tag'' ''https://p.test/'' ''posts/hot'') (wd_registry demo_world))) = Inr []"
proof -
  let ?cmd = "Disable ''timelines/tag'' ''https://p.test/'' ''posts/hot''"
  obtain r db' where f: "feedctl demo_feedctl demo_database ?cmd (wd_registry demo_world) = (r, db')" by (cases "feedctl demo_feedctl demo_database ?cmd (wd_registry demo_world)")
  have "registry_reachable \<lparr>wd_registry = wd_registry demo_world, wd_updates = wd_updates demo_world\<rparr>"
    using demo_world_reachable by (metis world.surjective old.unit.exhaust)
  from feedctl_keeps_readable [OF this f, of "''timelines/tag''"] obtain bs where
    bs: "find_sources ''timelines/tag'' db' = Inr bs" "list_all2 (bound_to db') (filter (active ''timelines/tag'' db') (rg_sources db')) bs"
    by blast
  have "db' = snd (run_command (cli_disable ''timelines/tag'' ''https://p.test/'' ''posts/hot'' (wd_registry demo_world)))"
    using f by (simp add: feedctl_def demo_feedctl_def open_db parse_capability_def split_once_def starts_with_def split: if_splits)
  then have "db' = snd (cli_disable ''timelines/tag'' ''https://p.test/'' ''posts/hot'' (wd_registry demo_world))"
    by (simp add: run_command_def map_prod_def case_prod_unfold)
  moreover have "(case cli_disable ''timelines/tag'' ''https://p.test/'' ''posts/hot'' (wd_registry demo_world) of
      (r, db) \<Rightarrow> filter (active ''timelines/tag'' db) (rg_sources db) = [])" by code_simp
  ultimately have "filter (active ''timelines/tag'' db') (rg_sources db') = []" by (simp add: case_prod_unfold)
  then show ?thesis using bs f by simp
qed

definition demo_settings :: settings where
  "demo_settings = \<lparr>st_args = map_of [(''orbit-alpha'', ''1''), (''orbit-dims'', ''1''), (''orbit-batch-size'', ''1''),
       (''orbit-replay-hours'', ''0''), (''tei-url'', ''t:''), (''tei-batch-size'', ''1''), (''instance-domain'', ''i.test''),
       (''fresh'', [])],
     st_env = [''TEI_URL'' \<mapsto> ''http://elsewhere'']\<rparr>"

definition quiet_start :: start_env where
  "quiet_start = \<lparr>se_wipe_cursors_fails = False, se_wipe_vectors_fails = False, se_load_fails = (\<lambda>k. False),
     se_db = (\<lambda>k. None), se_save_fails = (\<lambda>k. False), se_now = 0\<rparr>"

definition demo_args :: orbit_args where
  "demo_args = \<lparr>oa_db = demo_database, oa_tei = \<lparr>tei_url = ''t:'', tei_timeout_secs = 30, tei_batch_size = 1\<rparr>,
     oa_orbit = \<lparr>orbit_alpha = Fin 1, orbit_dims = 1, orbit_poll_interval_secs = 10, orbit_batch_size = 1,
       orbit_model_name = ''bge_small_64d'', orbit_replay_hours = 0\<rparr>,
     oa_domain = ''i.test'', oa_metrics_port = None, oa_fresh = True\<rparr>"

lemma demo_numbers:
  "parse_usize ''0'' = Some 0" "parse_usize ''1'' = Some 1" "parse_i64 ''1'' = Some 1" "parse_f64 ''1'' = Some (Fin 1)"
proof -
  show "parse_usize ''0'' = Some 0" "parse_usize ''1'' = Some 1" "parse_i64 ''1'' = Some 1"
    by (simp_all add: parse_usize_def parse_i64_def parse_digits_def digit_val_def usize_max_def
        in_i64_def i64_min_def i64_max_def)
  show "parse_f64 ''1'' = Some (Fin 1)" by code_simp
qed

lemma demo_args: "read_orbit_args flag demo_settings = Inr demo_args"
proof -
  have "database_options demo_settings = Inr demo_database"
    by (simp add: database_options_def default_to_def optional_def setting_def and_opt_def demo_settings_def demo_database_def)
  then show ?thesis
    by (simp add: read_orbit_args_def tei_options_def read_orbit_options_def required_def flag_option_def default_to_def
        optional_def setting_def and_opt_def demo_settings_def demo_args_def demo_numbers)
qed

lemma demo_config: "config_of_args demo_args = slow_config"
  by (simp add: config_of_args_def demo_args_def slow_config_def note_config_def)

lemma demo_started: "orbit_start open_net quiet_start flag demo_settings w = Inr (slow_config, fresh_worker)"
proof -
  have "orbit_checks (oa_orbit demo_args) = Inr ()" by code_simp
  moreover have "db_connect open_net (oa_db demo_args) = Inr p \<Longrightarrow> db_check open_net p = Inr ()" for p
    by (simp add: db_check_def open_net_def)
  moreover have "\<exists>p. db_connect open_net (oa_db demo_args) = Inr p"
    by (simp add: db_connect_def open_net_def demo_args_def demo_database_def)
  moreover have "fresh_start quiet_start True w = (Inr (), fresh_worker)"
    by (simp add: fresh_start_def Let_def quiet_start_def wipe_vectors_def wipe_cursors_def fresh_worker_def)
  moreover have "init_cursors (\<lambda>k. False) (\<lambda>k. None) (\<lambda>k. False) 0 0 fresh_worker = Some fresh_worker"
    by (simp add: init_cursors_def all_kinds_def load_cursor_def init_cursor_def fresh_worker_def)
  moreover have "oa_fresh demo_args" "orbit_replay_hours (oa_orbit demo_args) = 0" by (simp_all add: demo_args_def)
  ultimately show ?thesis
    by (auto simp: orbit_start_def demo_args and_opt_def expect_def demo_config quiet_start_def)
qed

theorem orbit_fresh_counts_all_witness:
  "\<exists>w'. run_cycles slow_config (replicate 2 (note_env (\<lambda>ts. False))) fresh_worker = Some w' \<and> count_for w' 1 = 2"
proof -
  have keys: "orbit_keys note_db" using note_env_ok by (simp add: env_ok_def tables_keyed_def note_env_def)
  have "oa_fresh demo_args" "orbit_replay_hours (oa_orbit demo_args) = 0" "tei_batch_size (oa_tei demo_args) \<noteq> 0"
    "oc_batch_size slow_config = 1"
    by (simp_all add: demo_args_def slow_config_def)
  then show ?thesis
    using orbit_fresh_counts_all [OF demo_started demo_args, of note_db "replicate 2 (note_env (\<lambda>ts. False))"]
      keys note_trouble_free note_short note_pending(2) by auto
qed

end
