(* ===== verification/Metrics.thy ===== *)
theory Metrics
  imports Mastodon_Routes Feeds
begin

text \<open>
  What the server measures: the layer around every request (\<open>apps/server/src/middleware/metrics.rs\<close>), the
  \<open>observe.rs\<close> functions of \<open>crates/feed\<close>, \<open>crates/sources\<close> and the server, and the buckets set up in
  \<open>crates/config/src/metrics.rs\<close>. A measurement is a value; the recorder is the library's and nothing
  reads it back. Durations are seconds.
\<close>

datatype measurement =
    Count string "(string \<times> string) list" nat
  | Record string "(string \<times> string) list" rat

section \<open>Requests\<close>

text \<open>The route a request matched, or its path; the handlers get and return what they would without the layer.\<close>

definition endpoint_of :: "string option \<Rightarrow> client_request \<Rightarrow> string" where
  "endpoint_of matched req =
     unwrap_or matched (takeWhile (\<lambda>c. c \<noteq> CHR ''?'') (unwrap_or (cq_path_and_query req) []))"

definition metrics_call :: "string option \<Rightarrow> rat \<Rightarrow> (client_request \<Rightarrow> status_table \<Rightarrow> client_response handled)
    \<Rightarrow> client_request \<Rightarrow> status_table \<Rightarrow> client_response handled \<times> measurement list" where
  "metrics_call matched elapsed inner req tab =
     (let endpoint = endpoint_of matched req; answer = inner req tab
      in (answer,
          [Count ''fediway_http_requests_total'' [(''endpoint'', endpoint), (''status'', show_nat (rp_status (fst answer)))] 1,
           Record ''fediway_http_request_duration_seconds'' [(''endpoint'', endpoint)] elapsed]))"

section \<open>Feeds and sources\<close>

definition source_collected :: "string \<Rightarrow> string \<Rightarrow> nat \<Rightarrow> rat \<Rightarrow> measurement list" where
  "source_collected feed source candidates duration =
     [Record ''fediway_feed_source_candidates'' [(''feed'', feed), (''source'', source)] (of_nat candidates),
      Record ''fediway_feed_source_duration_seconds'' [(''feed'', feed), (''source'', source)] duration]"

definition scorer_applied :: "string \<Rightarrow> string \<Rightarrow> rat \<Rightarrow> measurement list" where
  "scorer_applied feed scorer duration =
     [Record ''fediway_feed_scorer_duration_seconds'' [(''feed'', feed), (''scorer'', scorer)] duration]"

definition executed :: "string \<Rightarrow> nat \<Rightarrow> nat \<Rightarrow> nat \<Rightarrow> rat \<Rightarrow> measurement list" where
  "executed feed collected filtered returned duration =
     [Record ''fediway_feed_collected'' [(''feed'', feed)] (of_nat collected),
      Record ''fediway_feed_filtered'' [(''feed'', feed)] (of_nat filtered),
      Record ''fediway_feed_returned'' [(''feed'', feed)] (of_nat returned),
      Record ''fediway_feed_duration_seconds'' [(''feed'', feed)] duration]"

definition source_fetched :: "string \<Rightarrow> string \<Rightarrow> rat \<Rightarrow> measurement list" where
  "source_fetched provider outcome duration =
     [Count ''fediway_source_fetch_total'' [(''provider'', provider), (''result'', outcome)] 1,
      Record ''fediway_source_fetch_duration_seconds'' [(''provider'', provider)] duration]"

definition language_requested :: "string list \<Rightarrow> measurement list" where
  "language_requested languages = map (\<lambda>l. Count ''fediway_language_requested_total'' [(''language'', l)] 1) languages"

section \<open>Buckets\<close>

text \<open>The suffixes of metric names with the bounds of their histograms; the first that fits counts.\<close>

definition metric_buckets :: "(string \<times> rat list) list" where
  "metric_buckets =
     [(''request_duration_seconds'', [1/1000, 5/1000, 1/100, 25/1000, 5/100, 1/10, 25/100, 5/10, 1, 5/2, 5, 10]),
      (''fetch_duration_seconds'', [1/100, 25/1000, 5/100, 1/10, 25/100, 5/10, 1, 5/2, 5, 10, 30]),
      (''feed_duration_seconds'', [1/100, 25/1000, 5/100, 1/10, 25/100, 5/10, 1, 5/2, 5, 10, 30]),
      (''feed_source_duration_seconds'', [1/100, 25/1000, 5/100, 1/10, 25/100, 5/10, 1, 5/2, 5, 10, 30]),
      (''feed_scorer_duration_seconds'', [1/10000, 5/10000, 1/1000, 5/1000, 1/100, 5/100, 1/10, 5/10, 1]),
      (''feed_collected'', [0, 1, 5, 10, 20, 50, 100, 200, 500]),
      (''feed_filtered'', [0, 1, 5, 10, 20, 50, 100, 200, 500]),
      (''feed_returned'', [0, 1, 5, 10, 20, 50, 100, 200, 500]),
      (''feed_source_candidates'', [0, 1, 5, 10, 20, 50, 100, 200, 500])]"

section \<open>What holds\<close>

lemma metrics_transparent: "fst (metrics_call matched elapsed inner req tab) = inner req tab"
  by (simp add: metrics_call_def Let_def)

text \<open>The bounds increase, and every feed's histogram has bounds of its own.\<close>

lemma buckets_increase: "list_all (\<lambda>(s, bs). sorted_wrt (<) bs) metric_buckets"
  by (simp add: metric_buckets_def)

definition has_suffix :: "string \<Rightarrow> string \<Rightarrow> bool" where
  "has_suffix name s \<longleftrightarrow> starts_with (rev s) (rev name)"

lemma feed_metrics_bucketed:
  "\<forall>m \<in> set (source_collected f s n d @ scorer_applied f sc d @ executed f a b c d @ source_fetched p r d).
     \<forall>name ls v. m = Record name ls v \<longrightarrow> (\<exists>(suf, bs) \<in> set metric_buckets. has_suffix name suf)"
  by (simp add: source_collected_def scorer_applied_def executed_def source_fetched_def metric_buckets_def
      has_suffix_def starts_with_def)

text \<open>
  A request that matches no route is counted under its own path, so whoever sends requests chooses
  how many series there are.
\<close>

lemma unmatched_series:
  assumes "cq_path_and_query req = Some p" "CHR ''?'' \<notin> set p"
  shows "Count ''fediway_http_requests_total''
      [(''endpoint'', p), (''status'', show_nat (rp_status (fst (inner req tab))))] 1 \<in> set (snd (metrics_call None e inner req tab))"
proof -
  have "takeWhile (\<lambda>c. c \<noteq> CHR ''?'') p = p" using assms(2) unfolding takeWhile_eq_all_conv by blast
  then have "endpoint_of None req = p" unfolding endpoint_of_def assms(1) unwrap_or.simps .
  then show ?thesis by (simp add: metrics_call_def Let_def)
qed

end
