(* ===== verification/Wire.thy ===== *)
theory Wire
  imports Translate Entities
begin

text \<open>
  Entities as the JSON clients get: the derived \<open>Serialize\<close> instances of \<open>crates/mastodon\<close>, member by
  member in the order of the fields, with the three attributes the structs carry (\<open>rename\<close>,
  \<open>skip_serializing_if\<close>). How \<open>chrono\<close> prints an instant is an argument. Translating ids in a response
  (\<open>Translate\<close>) is shown to be a function of the entity.
\<close>

section \<open>Encodings\<close>

definition emoji_json :: "emoji_entity \<Rightarrow> json" where
  "emoji_json e = JObj [(''shortcode'', JStr (ee_shortcode e)), (''url'', JStr (ee_url e)),
     (''static_url'', JStr (ee_static_url e)), (''visible_in_picker'', JBool (ee_visible_in_picker e))]"

definition field_json :: "(instant \<Rightarrow> string) \<Rightarrow> field_entity \<Rightarrow> json" where
  "field_json dt f = JObj [(''name'', JStr (fd_name f)), (''value'', JStr (fd_value f)),
     (''verified_at'', opt_json (\<lambda>t. JStr (dt t)) (fd_verified_at f))]"

definition account_json :: "(instant \<Rightarrow> string) \<Rightarrow> account_entity \<Rightarrow> json" where
  "account_json dt a = JObj
     [(''id'', JStr (ac_id a)), (''username'', JStr (ac_username a)), (''acct'', JStr (ac_acct a)),
      (''url'', JStr (ac_url a)), (''uri'', JStr (ac_uri a)), (''display_name'', JStr (ac_display_name a)),
      (''note'', JStr (ac_note a)), (''avatar'', JStr (ac_avatar a)), (''avatar_static'', JStr (ac_avatar_static a)),
      (''header'', JStr (ac_header a)), (''header_static'', JStr (ac_header_static a)),
      (''locked'', JBool (ac_locked a)), (''bot'', JBool (ac_bot a)), (''group'', JBool (ac_group a)),
      (''discoverable'', opt_json JBool (ac_discoverable a)), (''indexable'', JBool (ac_indexable a)),
      (''statuses_count'', JInt (int (ac_statuses_count a))), (''followers_count'', JInt (int (ac_followers_count a))),
      (''following_count'', JInt (int (ac_following_count a))), (''created_at'', JStr (dt (ac_created_at a))),
      (''fields'', JArr (map (field_json dt) (ac_fields a))), (''emojis'', JArr (map emoji_json (ac_emojis a))),
      (''last_status_at'', opt_json JStr (ac_last_status_at a))]"

text \<open>A float that is not finite is written as null.\<close>

definition f64_json :: "fl \<Rightarrow> json" where
  "f64_json x = (case x of Fin r \<Rightarrow> JFloat x | _ \<Rightarrow> JNull)"

definition dimensions_json :: "media_dimensions \<Rightarrow> json" where
  "dimensions_json d = JObj [(''width'', JInt (int (md_width d))), (''height'', JInt (int (md_height d))),
     (''aspect'', f64_json (md_aspect d))]"

definition meta_json :: "media_meta \<Rightarrow> json" where
  "meta_json m = JObj
     ((case mm_original m of None \<Rightarrow> [] | Some d \<Rightarrow> [(''original'', dimensions_json d)])
      @ (case mm_small m of None \<Rightarrow> [] | Some d \<Rightarrow> [(''small'', dimensions_json d)]))"

definition media_json :: "media_attachment \<Rightarrow> json" where
  "media_json m = JObj
     [(''id'', JStr (ma_id m)), (''type'', JStr (ma_media_type m)), (''url'', opt_json JStr (ma_url m)),
      (''preview_url'', opt_json JStr (ma_preview_url m)), (''remote_url'', opt_json JStr (ma_remote_url m)),
      (''meta'', opt_json meta_json (ma_meta m)), (''description'', opt_json JStr (ma_description m)),
      (''blurhash'', opt_json JStr (ma_blurhash m))]"

definition mention_json :: "mention \<Rightarrow> json" where
  "mention_json m = JObj [(''id'', JStr (mn_id m)), (''username'', JStr (mn_username m)), (''url'', JStr (mn_url m)),
     (''acct'', JStr (mn_acct m))]"

definition tag_json :: "entity_tag \<Rightarrow> json" where
  "tag_json t = JObj ([(''name'', JStr (et_name t)), (''url'', JStr (et_url t))]
     @ (if et_history t = [] then [] else [(''history'', JArr (map (\<lambda>h. JObj [(''day'', JStr (eh_day h)),
          (''uses'', JStr (eh_uses h)), (''accounts'', JStr (eh_accounts h))]) (et_history t)))]))"

text \<open>\<open>account\<close> of a card's author has no value but null.\<close>

definition card_json :: "card_entity \<Rightarrow> json" where
  "card_json c = JObj
     [(''url'', JStr (cd_url c)), (''title'', JStr (cd_title c)), (''description'', JStr (cd_description c)),
      (''type'', JStr (cd_card_type c)),
      (''authors'', JArr (map (\<lambda>a. JObj [(''name'', JStr (ca_name a)), (''url'', JStr (ca_url a)), (''account'', JNull)]) (cd_authors c))),
      (''author_name'', JStr (cd_author_name c)), (''author_url'', JStr (cd_author_url c)),
      (''provider_name'', JStr (cd_provider_name c)), (''provider_url'', JStr (cd_provider_url c)),
      (''html'', JStr (cd_html c)), (''width'', JInt (cd_width c)), (''height'', JInt (cd_height c)),
      (''image'', opt_json JStr (cd_image c)), (''image_description'', JStr (cd_image_description c)),
      (''embed_url'', opt_json JStr (cd_embed_url c)), (''blurhash'', opt_json JStr (cd_blurhash c)),
      (''history'', JArr (map (\<lambda>h. JObj [(''day'', JStr (ch_day h)), (''accounts'', JStr (ch_accounts h)),
         (''uses'', JStr (ch_uses h))]) (cd_history c)))]"

definition approval_json :: "quote_approval \<Rightarrow> json" where
  "approval_json q = JObj [(''automatic'', JArr (map JStr (qa_automatic q))), (''manual'', JArr (map JStr (qa_manual q))),
     (''current_user'', JStr (qa_current_user q))]"

text \<open>The members of a status around the encodings of what it reblogs and quotes.\<close>

definition status_members :: "(instant \<Rightarrow> string) \<Rightarrow> status_data \<Rightarrow> json \<Rightarrow> json \<Rightarrow> (string \<times> json) list" where
  "status_members dt d rj qj =
     [(''id'', JStr (st_id d)), (''uri'', JStr (st_uri d)), (''url'', opt_json JStr (st_url d)),
      (''created_at'', JStr (dt (st_created_at d))), (''edited_at'', opt_json (\<lambda>t. JStr (dt t)) (st_edited_at d)),
      (''content'', JStr (st_content d)), (''text'', opt_json JStr (st_text d)), (''visibility'', JStr (st_visibility d)),
      (''language'', opt_json JStr (st_language d)), (''sensitive'', JBool (st_sensitive d)),
      (''spoiler_text'', JStr (st_spoiler_text d)), (''in_reply_to_id'', opt_json JStr (st_in_reply_to_id d)),
      (''in_reply_to_account_id'', opt_json JStr (st_in_reply_to_account_id d)),
      (''account'', account_json dt (st_account d)), (''media_attachments'', JArr (map media_json (st_media_attachments d))),
      (''mentions'', JArr (map mention_json (st_mentions d))), (''tags'', JArr (map tag_json (st_tags d))),
      (''emojis'', JArr (map emoji_json (st_emojis d))), (''reblog'', rj), (''reblogs_count'', JInt (int (st_reblogs_count d))),
      (''favourites_count'', JInt (int (st_favourites_count d))), (''replies_count'', JInt (int (st_replies_count d))),
      (''quotes_count'', JInt (int (st_quotes_count d))), (''favourited'', JBool (st_favourited d)),
      (''reblogged'', JBool (st_reblogged d)), (''muted'', JBool (st_muted d)), (''bookmarked'', JBool (st_bookmarked d)),
      (''pinned'', JBool (st_pinned d)), (''quote'', qj), (''quote_approval'', approval_json (st_quote_approval d)),
      (''poll'', JNull), (''filtered'', JArr []), (''card'', opt_json card_json (st_card d))]"

fun status_json :: "(instant \<Rightarrow> string) \<Rightarrow> status \<Rightarrow> json" and quote_json :: "(instant \<Rightarrow> string) \<Rightarrow> quote \<Rightarrow> json" where
  "status_json dt (Status d r q) =
     JObj (status_members dt d (case r of None \<Rightarrow> JNull | Some s \<Rightarrow> status_json dt s)
       (case q of None \<Rightarrow> JNull | Some x \<Rightarrow> quote_json dt x))"
| "quote_json dt (Quote st s) = JObj [(''state'', JStr st), (''quoted_status'', status_json dt s)]"

definition context_json :: "(instant \<Rightarrow> string) \<Rightarrow> status_context \<Rightarrow> json" where
  "context_json dt c = JObj [(''ancestors'', JArr (map (status_json dt) (sx_ancestors c))),
     (''descendants'', JArr (map (status_json dt) (sx_descendants c)))]"

section \<open>What clients rely on\<close>

datatype json_kind = Text | Flag | Number | List | Obj | Maybe json_kind

fun has_kind :: "json_kind \<Rightarrow> json \<Rightarrow> bool" where
  "has_kind (Maybe k) v \<longleftrightarrow> v = JNull \<or> has_kind k v"
| "has_kind Text v \<longleftrightarrow> (\<exists>s. v = JStr s)"
| "has_kind Flag v \<longleftrightarrow> (\<exists>b. v = JBool b)"
| "has_kind Number v \<longleftrightarrow> (\<exists>i. v = JInt i)"
| "has_kind List v \<longleftrightarrow> (\<exists>vs. v = JArr vs)"
| "has_kind Obj v \<longleftrightarrow> (\<exists>ms. v = JObj ms)"

definition has_members :: "(string \<times> json_kind) list \<Rightarrow> json \<Rightarrow> bool" where
  "has_members ks v \<longleftrightarrow> (\<forall>(k, kind) \<in> set ks. \<exists>w. json_get v k = Some w \<and> has_kind kind w)"

text \<open>The lists of the tests of \<open>status.rs\<close>: required members, arrays that are never null, flags, counts, nullable members.\<close>

definition status_schema :: "(string \<times> json_kind) list" where
  "status_schema =
     [(''id'', Text), (''uri'', Text), (''url'', Maybe Text), (''created_at'', Text), (''content'', Text), (''visibility'', Text),
      (''sensitive'', Flag), (''spoiler_text'', Text), (''account'', Obj), (''media_attachments'', List), (''mentions'', List),
      (''tags'', List), (''emojis'', List), (''reblogs_count'', Number), (''favourites_count'', Number),
      (''replies_count'', Number), (''favourited'', Flag), (''reblogged'', Flag), (''muted'', Flag), (''bookmarked'', Flag),
      (''pinned'', Flag), (''filtered'', List), (''in_reply_to_id'', Maybe Text), (''in_reply_to_account_id'', Maybe Text),
      (''reblog'', Maybe Obj), (''poll'', Maybe Obj), (''card'', Maybe Obj), (''edited_at'', Maybe Text)]"

definition account_schema :: "(string \<times> json_kind) list" where
  "account_schema =
     [(''id'', Text), (''username'', Text), (''acct'', Text), (''url'', Text), (''uri'', Text), (''display_name'', Text),
      (''note'', Text), (''avatar'', Text), (''avatar_static'', Text), (''header'', Text), (''header_static'', Text),
      (''locked'', Flag), (''bot'', Flag), (''group'', Flag), (''statuses_count'', Number), (''followers_count'', Number),
      (''following_count'', Number), (''created_at'', Text), (''fields'', List), (''emojis'', List)]"

lemma has_members_simps [simp]:
  "has_members [] v" "has_members ((k, kind) # ks) v \<longleftrightarrow> (\<exists>w. json_get v k = Some w \<and> has_kind kind w) \<and> has_members ks v"
  by (simp_all add: has_members_def)

lemma maybe_text: "has_kind (Maybe Text) (opt_json JStr x)" "has_kind (Maybe Text) (opt_json (\<lambda>t. JStr (f t)) y)"
  by (cases x; simp) (cases y; simp)

lemma maybe_null: "has_kind (Maybe k) JNull"
  by simp

lemma maybe_card: "has_kind (Maybe Obj) (opt_json card_json c)"
  by (cases c) (simp_all add: card_json_def)

lemma maybe_status: "has_kind (Maybe Obj) (case r of None \<Rightarrow> JNull | Some s \<Rightarrow> status_json dt s)"
proof (cases r)
  case (Some s)
  then show ?thesis by (cases s) simp
qed simp

text \<open>
  The assertions of the JSON tests hold for every status, not only for the samples: each member is
  there and of its kind, lists and texts are never null, and so it is for the account.
\<close>

theorem status_json_schema: "has_members status_schema (status_json dt s) \<and> has_members account_schema (account_json dt a)"
proof
  obtain d r q where s: "s = Status d r q" by (cases s)
  have acct: "has_kind Obj (account_json dt (st_account d))" by (simp add: account_json_def)
  show "has_members status_schema (status_json dt s)"
    using acct unfolding s status_schema_def
    by (simp add: status_members_def maybe_null maybe_text maybe_card maybe_status del: has_kind.simps(1))
  show "has_members account_schema (account_json dt a)"
    by (simp add: account_schema_def account_json_def)
qed

section \<open>Translation as a function of the entity\<close>

definition rename_id :: "(int \<rightharpoonup> int) \<Rightarrow> string \<Rightarrow> string" where
  "rename_id m i = (case Option.bind (parse_i64 i) m of Some n \<Rightarrow> show_int n | None \<Rightarrow> i)"

definition rename_own :: "(int \<rightharpoonup> int) \<Rightarrow> status_data \<Rightarrow> status_data" where
  "rename_own m d = d\<lparr>st_id := rename_id m (st_id d), st_in_reply_to_id := map_option (rename_id m) (st_in_reply_to_id d)\<rparr>"

fun rename_ids :: "(int \<rightharpoonup> int) \<Rightarrow> status \<Rightarrow> status" and rename_quote :: "(int \<rightharpoonup> int) \<Rightarrow> quote \<Rightarrow> quote" where
  "rename_ids m (Status d r q) = Status (rename_own m d) (map_option (rename_ids m) r) (map_option (rename_quote m) q)"
| "rename_quote m (Quote st s) = Quote st (rename_ids m s)"

lemma members_get:
  "map_of (status_members dt d rj qj) ''id'' = Some (JStr (st_id d))"
  "map_of (status_members dt d rj qj) ''in_reply_to_id'' = Some (opt_json JStr (st_in_reply_to_id d))"
  "map_of (status_members dt d rj qj) ''reblog'' = Some rj"
  "map_of (status_members dt d rj qj) ''quote'' = Some qj"
  by (simp_all add: status_members_def)

lemma members_put:
  "members_set (status_members dt d rj qj) ''id'' (JStr i) = status_members dt (d\<lparr>st_id := i\<rparr>) rj qj"
  "members_set (status_members dt d rj qj) ''in_reply_to_id'' (JStr i) = status_members dt (d\<lparr>st_in_reply_to_id := Some i\<rparr>) rj qj"
  "members_set (status_members dt d rj qj) ''reblog'' w = status_members dt d w qj"
  "members_set (status_members dt d rj qj) ''quote'' w = status_members dt d rj w"
  by (simp_all add: status_members_def)

lemma put_members:
  "map_of (status_members dt d rj qj) k \<noteq> None \<Longrightarrow>
     json_put (JObj (status_members dt d rj qj)) k w = JObj (members_set (status_members dt d rj qj) k w)"
  by (auto simp: json_put_def)

lemma keep_reply: "st_in_reply_to_id d = x \<Longrightarrow> d\<lparr>st_in_reply_to_id := x\<rparr> = d"
  by (cases d) simp

lemma rewrite_own_members:
  "rewrite_own (JObj (status_members dt d rj qj)) m = JObj (status_members dt (rename_own m d) rj qj)"
proof -
  have 1: "rewrite_field (JObj (status_members dt d rj qj)) ''id'' m = JObj (status_members dt (d\<lparr>st_id := rename_id m (st_id d)\<rparr>) rj qj)"
    by (cases "Option.bind (parse_i64 (st_id d)) m") (simp_all add: rewrite_field_def rename_id_def members_get put_members members_put)
  have 2: "rewrite_field (JObj (status_members dt d rj qj)) ''in_reply_to_id'' m
      = JObj (status_members dt (d\<lparr>st_in_reply_to_id := map_option (rename_id m) (st_in_reply_to_id d)\<rparr>) rj qj)" for d
  proof (cases "st_in_reply_to_id d")
    case (Some i)
    note eq = keep_reply [OF Some]
    show ?thesis
      using Some by (cases "Option.bind (parse_i64 i) m") (simp_all add: eq rewrite_field_def rename_id_def members_get put_members members_put)
  next
    case None
    show ?thesis by (simp add: rewrite_field_def members_get None keep_reply [OF None])
  qed
  show ?thesis unfolding rewrite_own_def 1 2 by (simp add: rename_own_def)
qed

lemma status_json_nonnull [simp]: "status_json dt s \<noteq> JNull" "quote_json dt q \<noteq> JNull"
  by (cases s; simp) (cases q; simp)

lemma apply_map_members:
  "apply_map (JObj (status_members dt d rj qj)) m = JObj (status_members dt (rename_own m d) (if rj = JNull then rj else apply_map rj m)
     (case json_get qj ''quoted_status'' of None \<Rightarrow> qj
      | Some q \<Rightarrow> if q = JNull then qj else json_put qj ''quoted_status'' (apply_map q m)))"
  by (subst apply_map.simps)
    (simp add: Let_def members_get rewrite_own_members put_members members_put split: option.split)

lemma apply_map_status:
  "apply_map (status_json dt s) m = status_json dt (rename_ids m s)"
  "json_put (quote_json dt q) ''quoted_status'' (apply_map (status_json dt (Entities.quoted_status q)) m)
     = quote_json dt (rename_quote m q)"
proof (induction m s and m q rule: rename_ids_rename_quote.induct)
  case (1 m d r q)
  have q: "json_get (quote_json dt x) ''quoted_status'' = Some (status_json dt (Entities.quoted_status x))" for x by (cases x) simp
  show ?case using 1 unfolding status_json.simps(1) apply_map_members
    by (auto simp: q split: option.split)
next
  case (2 m st s)
  then show ?case by (simp add: json_put_def)
qed

lemma quoted_members: "Translate.quoted_status (JObj (status_members dt d rj qj)) = json_get qj ''quoted_status''"
  by (simp add: Translate.quoted_status_def members_get)

lemma collect_ids_status:
  "collect_ids (status_json dt (Status d r q)) =
     push_numeric (Some (JStr (st_id d))) @ push_numeric (Some (opt_json JStr (st_in_reply_to_id d)))
     @ (case r of None \<Rightarrow> [] | Some s \<Rightarrow> collect_ids (status_json dt s))
     @ (case q of None \<Rightarrow> [] | Some x \<Rightarrow> collect_ids (status_json dt (Entities.quoted_status x)))"
proof -
  have q: "json_get (quote_json dt x) ''quoted_status'' = Some (status_json dt (Entities.quoted_status x))" for x by (cases x) simp
  show ?thesis unfolding status_json.simps(1)
    by (subst collect_ids.simps) (simp add: members_get quoted_members q split: option.split)
qed

lemma rename_id_agree:
  "(\<And>n. n \<in> set (push_numeric (Some (JStr i))) \<Longrightarrow> m n = m' n) \<Longrightarrow> rename_id m i = rename_id m' i"
  by (cases "parse_i64 i") (simp_all add: rename_id_def push_numeric_def)

lemma rename_own_agree:
  assumes "\<And>n. n \<in> set (push_numeric (Some (JStr (st_id d))) @ push_numeric (Some (opt_json JStr (st_in_reply_to_id d)))) \<Longrightarrow> m n = m' n"
  shows "rename_own m d = rename_own m' d"
proof -
  have "rename_id m (st_id d) = rename_id m' (st_id d)" using assms by (intro rename_id_agree) simp
  moreover have "map_option (rename_id m) (st_in_reply_to_id d) = map_option (rename_id m') (st_in_reply_to_id d)"
    using assms by (cases "st_in_reply_to_id d") (auto intro!: rename_id_agree)
  ultimately show ?thesis by (simp add: rename_own_def)
qed

lemma rename_ids_agree:
  "\<forall>n \<in> set (collect_ids (status_json dt s)). m n = m' n \<Longrightarrow> rename_ids m s = rename_ids m' s"
  "\<forall>n \<in> set (collect_ids (status_json dt (Entities.quoted_status q))). m n = m' n \<Longrightarrow> rename_quote m q = rename_quote m' q"
proof (induction m s and m q rule: rename_ids_rename_quote.induct)
  case (1 m d r q)
  have "rename_own m d = rename_own m' d"
    using "1.prems" unfolding collect_ids_status by (intro rename_own_agree) auto
  then show ?case using 1 unfolding collect_ids_status by (cases r; cases q) auto
qed simp

lemma rename_nothing:
  "rename_ids (\<lambda>n. None) s = s" "rename_quote (\<lambda>n. None) q = q"
proof (induction "\<lambda>n :: int. None :: int option" s and "\<lambda>n :: int. None :: int option" q rule: rename_ids_rename_quote.induct)
  case (1 d r q)
  have i: "rename_id (\<lambda>n. None) i = i" for i by (simp add: rename_id_def split: Option.bind_split)
  have "map_option (rename_id (\<lambda>n. None)) x = x" for x by (cases x) (simp_all add: i)
  then have "rename_own (\<lambda>n. None) d = d" by (cases d) (simp add: rename_own_def i)
  then show ?case using 1 by (cases r; cases q) auto
qed simp

section \<open>Property\<close>

text \<open>
  C16: Translating a response is a function of the entity: rewriting the ids in the JSON of a status
  gives the JSON of the status in which the own id and the id replied to are renamed by the mapping
  table, in it, in what it reblogs and in what it quotes, at any depth, and nothing else changes.
\<close>

theorem translate_commutes:
  "translate_response False tab (status_json dt s) = Some (status_json dt (rename_ids (linked tab) s))"
proof -
  let ?v = "status_json dt s" and ?m = "reverse_map (collect_ids (status_json dt s)) tab"
  have all: "rename_ids ?m s = rename_ids (linked tab) s"
    by (rule rename_ids_agree(1) [of dt]) (simp add: reverse_map_linked)
  have same: "rename_ids (linked tab) s = s" if "\<forall>n \<in> set (collect_ids ?v). linked tab n = None"
    using rename_ids_agree(1) [of dt s "linked tab" "\<lambda>n. None"] that rename_nothing(1) by simp
  show ?thesis
  proof (cases "list_all (\<lambda>i. ?m i = None) (collect_ids ?v)")
    case True
    then have "rename_ids (linked tab) s = s" by (intro same) (simp add: list_all_iff reverse_map_linked)
    then show ?thesis using True by (simp add: translate_response_def Let_def)
  next
    case False
    then have "collect_ids ?v \<noteq> []" by auto
    then show ?thesis using False by (simp add: translate_response_def Let_def apply_map_status(1) all)
  qed
qed

text \<open>A lookup that fails fails the translation, unless there is nothing to look up.\<close>

lemma translate_fails: "translate_response True tab (status_json dt s) = (if collect_ids (status_json dt s) = [] then Some (status_json dt s) else None)"
  by (simp add: translate_response_def)

end
