(* ===== verification/Spec2Isabelle.thy ===== *)
theory Spec2Isabelle
  imports Feed_Pipeline Policy Paperclip Commonfeed_Sources Network_Source Cache Seen Statuses
    Registry Timelines Status_Routes Server Startup Metrics Wire
begin

text \<open>
  A model of Fediway and the theorems that make it correct. Fediway answers the timeline and status
  requests of a Mastodon instance: it ranks posts of the instance's own database and of CommonFeed
  providers, gives posts of providers ids of its own, and passes what only Mastodon can do on to
  Mastodon. The repository is a Rust workspace; paths below are relative to its root.

  The parts and how they interact.

  \<^item> \<open>crates/feed\<close> is a library of ranked feeds. Sources yield candidates, filters drop them,
    scorers change their scores, a sampler picks a page (\<open>Feed_Sampler\<close>, \<open>Feed_Stages\<close>,
    \<open>Feed_Cursor\<close>, \<open>Feed_Pipeline\<close>).
  \<^item> \<open>crates/common\<close> and \<open>crates/mastodon\<close> hold the data: posts as the feeds know them
    (\<open>Common_Types\<close>), media addresses (\<open>Paperclip\<close>), and the entities of the Mastodon API with
    the HTML made for them (\<open>Json\<close>, \<open>Sanitize\<close>, \<open>Formatter\<close>, \<open>Entities\<close>) and the JSON clients get
    (\<open>Wire\<close>).
  \<^item> \<open>crates/sources\<close> has the sources: the client of the providers (\<open>Commonfeed\<close>,
    \<open>Commonfeed_Sources\<close>), the tags of the instance's database (\<open>Mastodon_Db\<close>, \<open>Local_Sources\<close>),
    the posts of accounts near the user (\<open>Network_Source\<close>), and the policy filter (\<open>Policy\<close>).
  \<^item> \<open>crates/state\<close> keeps what the server stores: the table that maps posts of providers to ids
    (\<open>Status_Map\<close>), the statuses read from Mastodon's tables (\<open>Status_Detail\<close>), the registry of
    providers (\<open>Providers\<close>, over time in \<open>Registry\<close>), the cache with its circuit breaker (\<open>Cache\<close>).
  \<^item> \<open>apps/server\<close> builds the pipelines of each feed (\<open>Feeds\<close>), serves the home feed from a cached
    pool and a list of what the user has seen (\<open>Home_Feed\<close>, \<open>Seen\<close>), timelines and trends
    (\<open>Timelines\<close>), knows the user by a bearer token (\<open>Auth\<close>), turns posts into statuses
    (\<open>Statuses\<close>), finds Mastodon's ids (\<open>Resolver\<close>), rewrites ids in requests and responses
    (\<open>Translate\<close>), forwards engagements, posts and reports with a fallback around them
    (\<open>Mastodon_Routes\<close>), serves single statuses and threads (\<open>Status_Routes\<close>); \<open>Server\<close> is the
    table of its routes.
  \<^item> \<open>apps/cli\<close> is the operator's tool that registers providers (\<open>Cli\<close>).
  \<^item> \<open>crates/config\<close> declares the options, from which the databases are opened (\<open>Setup\<close>) and the three
    programs start (\<open>Startup\<close>); what they measure is in \<open>Metrics\<close>.
  \<^item> \<open>workers/orbit\<close> reads engagements of local accounts, embeds the posts and keeps an interest
    vector per account, which goes to providers with the requests of the home feed
    (\<open>Orbit_Vector\<close>, \<open>Orbit\<close>, its loop in \<open>Orbit_Progress\<close>).

  How the model is written. \<open>Prelude\<close> holds the collections of hints and the parts of the standard
  library the code uses on vectors; \<open>Rust_Float\<close> is IEEE arithmetic over rationals, each operation
  rounded once; \<open>Rust_Str\<close> is \<open>str\<close> as lists of UTF-8 bytes. A struct is a record with a prefix of
  two letters on its fields, an enum a datatype, a function of the source a definition of the same
  name where the name is free. \<open>i64\<close> columns are integers, bounded where a number is parsed;
  \<open>usize\<close> is a natural number, with the wrap-around written out in pagination. Tables are lists of
  rows with their keys stated (\<open>table_ok\<close>, \<open>keys_ok\<close>, \<open>orbit_keys\<close>); a statement is a function from
  tables to an error or new tables. A handler maps the tables, the cache and what the outside answers
  to a response, the tables and cache it leaves and, in \<open>Mastodon_Routes\<close> and \<open>Status_Routes\<close>, the
  requests it sends. A panic is a value of its own (\<open>None\<close>, \<open>Panicked\<close>). What runs concurrently is
  a step relation: \<open>resolver_step\<close> interleaves callers and searches at every lock and request,
  \<open>registry_step\<close> commands and callbacks at every statement, \<open>orbit_run\<close> cycles of the worker.

  The interfaces are locales, interpreted in the theory that provides them: \<open>sampler\<close> and
  \<open>ranked_sampler\<close> for \<open>TopK\<close> and the quota sampler, \<open>pool_filter\<close> for \<open>Dedup\<close> and the policy filter,
  \<open>pool_scorer\<close> for \<open>Diversity\<close>, \<open>pager\<close> for both paginations, \<open>kv_store\<close> for the cache as its clients
  use it, \<open>upstream_handler\<close> for the three handlers that run under the fallback.

  What the lemmas show.

  \<^item> Ranking: samplers are total, return the best candidates or a page by quota without repetition
    (\<open>topk_sample\<close>, \<open>quota_sample\<close>); a pipeline returns, within its limit and only what its sources
    gave (\<open>pipeline_execute\<close>); every feed of the server comes out bounded, without duplicates and
    without what the user's policy forbids (\<open>feeds_collect_filtered\<close>).
  \<^item> Home feed: serving refines a step on the ranked pool and the seen list (\<open>home_serve_refines\<close>),
    and following its pages goes through each unseen item once (\<open>home_session_complete\<close>).
  \<^item> Statuses: what is listed may be seen by the viewer (\<open>fetched_statuses_visible\<close>), in the order
    of the items (\<open>to_statuses_in_order\<close>), under ids the table knows (\<open>listed_posts_resolvable\<close>), with
    cleaned HTML but for the card of a provider (\<open>status_from_post_clean\<close>, \<open>card_not_cleaned\<close>), and
    a local text comes through its formatting whole (\<open>format_local_preserves_text\<close>).
  \<^item> Mastodon: one search per status but for a race that is counted (\<open>resolver_single_flight\<close>), all
    ids of a response translated (\<open>translate_every_status\<close>, and nothing else, \<open>translate_commutes\<close>), an engagement sent once and for the right
    status (\<open>engagement_sent_once\<close>), a known status always answered (\<open>detail_serves_requested\<close>), and
    across these parts \<open>listed_post_engageable\<close> below.
  \<^item> Providers: the registry stays readable under any interleaving (\<open>registry_sources_readable\<close>),
    callbacks need the provider's key (\<open>callback_authentic\<close>), and registering leads to serving
    (\<open>registered_provider_serves\<close>); every command of the operator's tool is a run of steps of the
    registry (\<open>feedctl_keeps_readable\<close>).
  \<^item> Orbit: no engagement counts twice (\<open>orbit_counts_once\<close>), and when nothing fails all of them are
    counted in the end (\<open>orbit_catches_up\<close>, from the command line on in \<open>orbit_fresh_counts_all\<close>).
  \<^item> Behaviour that is not what the code means to do is stated as it is, for example in
    \<open>create_status_untranslated\<close>, \<open>duplicate_degrades_page\<close>, \<open>keyset_loses_ranked\<close>,
    \<open>two_searches_for_one_status\<close>, \<open>failed_batch_skipped\<close>, \<open>half_wiped_counts_again\<close>, \<open>quiet_window_replays_all\<close>, \<open>pg_url_ambiguous\<close> and \<open>unmatched_series\<close>.

  Bounds. The recursions are total without fuel except where the code counts: twenty ancestors, five
  pages of replies; \<open>keyset_pages\<close>, a client that reads the \<open>Link\<close> headers, takes the length of the
  list plus one as fuel, since each page that is not the last shows at least one status. Pages of the home feed lie within the pool's
  fifteen minutes, which the theorems about sessions assume. The sampler loops and pagination end by
  measures.

  Parameters. Code outside the repository is an argument: HTTP answers, the cleaner \<open>ammonia\<close>, the
  URL parser, regular expressions, HMAC and hex, JSON text, the derived encodings of posts, the
  template engine, the embedding service, logarithm and exponential. Hypotheses on them state
  documented behaviour only: an encoding that reads back what it wrote, ranges of the two functions.

  Not modelled: errors of the database in the middle of a command of \<open>feedctl\<close> other than violated
  constraints (a command is a chain of statements that may stop after any of them), the accept loop,
  signals and the timer of the worker, the thread of the metrics exporter and the counters inside the handlers, which nothing reads back, log lines, the migrations
  (run by \<open>sqlx\<close>), how \<open>clap\<close> reports a wrong option, the answers to preflight requests (\<open>cors_policy\<close> is
  what their layer is told), and the support code of the tests. But for the first these are glue
  around libraries and hold no state of the program's own.
\<close>

section \<open>From the page to Mastodon\<close>

text \<open>
  C1: What a page lists can be acted on. When a post of another provider has been listed, its id on
  the page is the number of a row of the mapping table with the post's provider and remote id, and
  an engagement with this id is sent, once, to the status of Mastodon the row is linked to or, when
  it is linked to none, to the one Mastodon finds for the row's URI.
\<close>

theorem listed_post_engageable:
  assumes "table_ok tab" "map_batch te (List.map_filter (mapping_of te inst) posts) tab = Inr (id_map, tab')"
    and "\<forall>row \<in> set tab'. in_i64 (cs_id row)" "p \<in> set posts" "post_pair p = Some (d, r)" "d \<noteq> inst"
    and "me_base env = Some base" "\<forall>i. lookups_work (resolver_env env i)"
  shows "\<exists>i row. st_id (status_of (status_from_post html p (post_status_id inst id_map p))) = show_int i
    \<and> find_by_id i tab' = Some row \<and> cs_key row = (d, r)
    \<and> (\<forall>m. (cs_mastodon_local_id row = Some m \<or> cs_mastodon_local_id row = None \<and> cs_post_uri row \<noteq> []
           \<and> read_search (rv_search (resolver_env env i) (ac_token acc) (cs_post_uri row)) = Inr m)
        \<longrightarrow> snd (snd (run_engagement env acc (show_int i) hs b action tab'))
          = [\<lparr>uq_method = ''POST'', uq_url = base @ ''/api/v1/statuses/'' @ show_int m @ ''/'' @ segment action,
              uq_headers = hs, uq_body = Some b\<rparr>])"
proof -
  obtain i row where r: "id_map (d, r) = Some i" "find_by_id i tab' = Some row" "cs_key row = (d, r)"
      "row \<in> set tab'" "cs_id row = i"
    using listed_row [OF assms(1,2,4-6)] by blast
  have i: "in_i64 i" using assms(3) r(4,5) by blast
  have id: "st_id (status_of (status_from_post html p (post_status_id inst id_map p))) = show_int i"
    using r(1) assms(5,6) by (simp add: post_status_id_def)
  have "snd (snd (run_engagement env acc (show_int i) hs b action tab'))
      = [\<lparr>uq_method = ''POST'', uq_url = base @ ''/api/v1/statuses/'' @ show_int m @ ''/'' @ segment action,
          uq_headers = hs, uq_body = Some b\<rparr>]"
    if "cs_mastodon_local_id row = Some m \<or> cs_mastodon_local_id row = None \<and> cs_post_uri row \<noteq> []
        \<and> read_search (rv_search (resolver_env env i) (ac_token acc) (cs_post_uri row)) = Inr m" for m
  proof -
    have "fst (resolve (resolver_env env i) i (ac_token acc) tab') = Inr m"
      using assms(8) that by (intro resolve_when_known [OF r(2)]) blast+
    then obtain t where "resolve (resolver_env env i) i (ac_token acc) tab' = (Inr m, t)" by (metis prod.collapse)
    then have "engagement_target env acc (show_int i) tab' = (Inr (show_int m, Some i), t)"
      using i by (simp add: engagement_target_def)
    then show ?thesis using assms(7) by (simp add: run_engagement_def forward_def Let_def)
  qed
  with id r(2,3) show ?thesis by blast
qed

definition listed_row_example :: cached_status where
  "listed_row_example = \<lparr>cs_id = 70, cs_provider_domain = ''p.test'', cs_remote_id = 3, cs_post_url = ''u'', cs_post_uri = ''u'',
     cs_post_data = JNull, cs_cached_at = 0, cs_mastodon_local_id = None\<rparr>"

definition example_account :: account where
  "example_account = \<lparr>account.ac_id = 2, ac_username = ''a'', ac_chosen_languages = [], ac_token = ''t''\<rparr>"

theorem listed_post_engageable_witness:
  "snd (snd (run_engagement (example_env (Search_Answer 200 None (Some [''41''])) JNull) example_account ''70'' [] [] Favourite
      [listed_row_example]))
    = [\<lparr>uq_method = ''POST'', uq_url = ''m:/api/v1/statuses/41/favourite'', uq_headers = [], uq_body = Some []\<rparr>]"
proof -
  let ?env = "example_env (Search_Answer 200 None (Some [''41''])) JNull"
  have b: "map_batch plain_table (List.map_filter (mapping_of plain_table ''i.test'') [a_remote_post]) []
      = Inr ([(''p.test'', 3) \<mapsto> 70], [listed_row_example])"
    by (simp add: map_batch_def map_posts_def mapping_of_def post_pair_def a_remote_post_def remote_post_data_def
        plain_table_def upsert_def pm_key_def listed_row_example_def)
  have pair: "post_pair a_remote_post = Some (''p.test'', 3)"
    by (simp add: post_pair_def a_remote_post_def remote_post_data_def)
  have ids: "\<forall>row \<in> set [listed_row_example]. in_i64 (cs_id row)"
    by (simp add: listed_row_example_def in_i64_def i64_min_def i64_max_def)
  have ok: "table_ok []" by (simp add: table_ok_def)
  have env: "me_base ?env = Some ''m:''" "\<forall>i. lookups_work (resolver_env ?env i)"
    by (simp_all add: example_env_def resolver_env_def lookups_work_def)
  obtain i row where e: "find_by_id i [listed_row_example] = Some row"
      "\<forall>m. (cs_mastodon_local_id row = Some m \<or> cs_mastodon_local_id row = None \<and> cs_post_uri row \<noteq> []
           \<and> read_search (rv_search (resolver_env ?env i) (ac_token example_account) (cs_post_uri row)) = Inr m)
        \<longrightarrow> snd (snd (run_engagement ?env example_account (show_int i) [] [] Favourite [listed_row_example]))
          = [\<lparr>uq_method = ''POST'', uq_url = ''m:'' @ ''/api/v1/statuses/'' @ show_int m @ ''/'' @ segment Favourite,
              uq_headers = [], uq_body = Some []\<rparr>]"
    using listed_post_engageable [OF ok b ids _ pair _ env, of no_urls example_account "[]" "[]" Favourite] by auto
  have row: "row = listed_row_example" "i = 70"
    using e(1) by (simp_all add: find_by_id_def listed_row_example_def split: if_splits)
  have "read_search (rv_search (resolver_env ?env i) (ac_token example_account) (cs_post_uri row)) = Inr 41"
    unfolding row by code_simp
  moreover have "cs_mastodon_local_id row = None" "cs_post_uri row \<noteq> []" by (simp_all add: row listed_row_example_def)
  ultimately have "snd (snd (run_engagement ?env example_account (show_int i) [] [] Favourite [listed_row_example]))
      = [\<lparr>uq_method = ''POST'', uq_url = ''m:'' @ ''/api/v1/statuses/'' @ show_int 41 @ ''/'' @ segment Favourite,
          uq_headers = [], uq_body = Some []\<rparr>]" using e(2) by blast
  moreover have "show_int i = ''70''" "''m:'' @ ''/api/v1/statuses/'' @ show_int 41 @ ''/'' @ segment Favourite = ''m:/api/v1/statuses/41/favourite''"
    unfolding row by code_simp+
  ultimately show ?thesis by simp
qed

end
